(* ===== verification/Prelude.thy ===== *)
theory Prelude
  imports Complex_Main "HOL-Library.AList" "HOL-Library.Sublist"
begin

text \<open>
  Shared ground of the development: the JavaScript string operations the sources use
  (\<open>split\<close>, \<open>join\<close>, \<open>indexOf\<close>, \<open>includes\<close>, \<open>startsWith\<close>), the effect type of a
  statement sequence that may throw (\<open>('s, 'e, 'a) eff\<close>), the fact collections the
  component proofs share, and generic lemmas on lists.

  A JavaScript string is a \<open>string\<close> holding the UTF-8 bytes of its text. All separators
  the code splits at are ASCII, so splitting, joining and searching agree with the
  operations on UTF-16 code units.
\<close>

named_theorems eff_simps \<open>equations that run an effect\<close>
named_theorems str_simps \<open>equations of the string operations\<close>

section \<open>Strings\<close>

fun join :: "string \<Rightarrow> string list \<Rightarrow> string" where
  "join sep [] = []"
| "join sep [w] = w"
| "join sep (w # v # ws) = w @ sep @ join sep (v # ws)"

text \<open>
  \<open>s.split(sep)\<close> for a non-empty separator: pieces between the leftmost, non-overlapping
  occurrences.
\<close>

fun cons_hd :: "'a \<Rightarrow> 'a list list \<Rightarrow> 'a list list" where
  "cons_hd c [] = [[c]]"
| "cons_hd c (w # ws) = (c # w) # ws"

function split_on :: "string \<Rightarrow> string \<Rightarrow> string list" where
  "split_on sep [] = [[]]"
| "split_on sep (c # cs) =
     (if sep \<noteq> [] \<and> take (length sep) (c # cs) = sep
      then [] # split_on sep (drop (length sep - 1) cs)
      else cons_hd c (split_on sep cs))"
  by pat_completeness auto
termination
  by (relation "measure (\<lambda>(sep, s). length s)") auto

text \<open>\<open>s.includes(sub)\<close> and \<open>s.startsWith(pre)\<close>.\<close>

fun js_includes :: "string \<Rightarrow> string \<Rightarrow> bool" where
  "js_includes [] sub = (sub = [])"
| "js_includes (c # cs) sub = (take (length sub) (c # cs) = sub \<or> js_includes cs sub)"

definition js_startsWith :: "string \<Rightarrow> string \<Rightarrow> bool" where
  "js_startsWith s pre = (take (length pre) s = pre)"

text \<open>The text before the first occurrence of a character (all of it when there is none).\<close>

definition before_char :: "char \<Rightarrow> string \<Rightarrow> string" where
  "before_char c s = takeWhile (\<lambda>x. x \<noteq> c) s"

text \<open>JavaScript's \<open>new Set(xs)\<close> iterated in insertion order: the first occurrences.\<close>

fun dedup_from :: "'a list \<Rightarrow> 'a list \<Rightarrow> 'a list" where
  "dedup_from seen [] = []"
| "dedup_from seen (x # xs) =
     (if x \<in> set seen then dedup_from seen xs else x # dedup_from (x # seen) xs)"

definition dedup :: "'a list \<Rightarrow> 'a list" where
  "dedup xs = dedup_from [] xs"

section \<open>Effects: state passing with exceptions\<close>

text \<open>
  A statement sequence maps the state before to a result (\<open>Inl\<close> the thrown value, \<open>Inr\<close>
  the returned one) and the state after. The state of a failed statement is kept: a throw
  does not undo what happened before it.
\<close>

type_synonym ('s, 'e, 'a) eff = "'s \<Rightarrow> ('e + 'a) \<times> 's"

definition ret :: "'a \<Rightarrow> ('s, 'e, 'a) eff" where
  "ret a = (\<lambda>s. (Inr a, s))"

definition throw :: "'e \<Rightarrow> ('s, 'e, 'a) eff" where
  "throw e = (\<lambda>s. (Inl e, s))"

definition bindE :: "('s, 'e, 'a) eff \<Rightarrow> ('a \<Rightarrow> ('s, 'e, 'b) eff) \<Rightarrow> ('s, 'e, 'b) eff" where
  "bindE m f = (\<lambda>s. case m s of (Inl e, s') \<Rightarrow> (Inl e, s') | (Inr a, s') \<Rightarrow> f a s')"

definition catchE :: "('s, 'e, 'a) eff \<Rightarrow> ('e \<Rightarrow> ('s, 'e, 'a) eff) \<Rightarrow> ('s, 'e, 'a) eff" where
  "catchE m h = (\<lambda>s. case m s of (Inl e, s') \<Rightarrow> h e s' | (Inr a, s') \<Rightarrow> (Inr a, s'))"

text \<open>
  \<open>try { m } finally { f }\<close> for a finaliser that does not throw; it does not run when \<open>m\<close> never comes to
  an end, which is the outcome \<open>pending\<close>.
\<close>

definition finallyE :: "'e \<Rightarrow> ('s, 'e, 'a) eff \<Rightarrow> ('s \<Rightarrow> 's) \<Rightarrow> ('s, 'e, 'a) eff" where
  "finallyE pending m f =
     (\<lambda>s. case m s of (Inl e, s') \<Rightarrow> (Inl e, if e = pending then s' else f s') | (Inr a, s') \<Rightarrow> (Inr a, f s'))"

definition liftR :: "'e + 'a \<Rightarrow> ('s, 'e, 'a) eff" where
  "liftR r = (\<lambda>s. (r, s))"

definition getS :: "('s \<Rightarrow> 'a) \<Rightarrow> ('s, 'e, 'a) eff" where
  "getS f = (\<lambda>s. (Inr (f s), s))"

definition modS :: "('s \<Rightarrow> 's) \<Rightarrow> ('s, 'e, unit) eff" where
  "modS f = (\<lambda>s. (Inr (), f s))"

definition stepS :: "('s \<Rightarrow> 'a \<times> 's) \<Rightarrow> ('s, 'e, 'a) eff" where
  "stepS f = (\<lambda>s. case f s of (a, s') \<Rightarrow> (Inr a, s'))"

fun bindR :: "'e + 'a \<Rightarrow> ('a \<Rightarrow> 'e + 'b) \<Rightarrow> 'e + 'b" where
  "bindR (Inl e) f = Inl e"
| "bindR (Inr a) f = f a"

section \<open>Lemmas on effects\<close>

lemma eff_run [eff_simps]:
  "ret a s = (Inr a, s)"
  "throw e s = (Inl e, s)"
  "liftR r s = (r, s)"
  "getS f s = (Inr (f s), s)"
  "modS g s = (Inr (), g s)"
  "stepS h s = (Inr (fst (h s)), snd (h s))"
  by (simp_all add: ret_def throw_def liftR_def getS_def modS_def stepS_def split: prod.splits)

lemma bindE_run [eff_simps]:
  "m s = (Inr a, s') \<Longrightarrow> bindE m f s = f a s'"
  "m s = (Inl e, s') \<Longrightarrow> bindE m f s = (Inl e, s')"
  by (simp_all add: bindE_def)

lemma catchE_run [eff_simps]:
  "m s = (Inr a, s') \<Longrightarrow> catchE m h s = (Inr a, s')"
  "m s = (Inl e, s') \<Longrightarrow> catchE m h s = h e s'"
  by (simp_all add: catchE_def)

lemma finallyE_run [eff_simps]:
  "finallyE pending m f s = (fst (m s), if fst (m s) = Inl pending then snd (m s) else f (snd (m s)))"
  by (auto simp: finallyE_def split: prod.split sum.split)

lemma bindE_InrE:
  assumes "bindE m f s = (Inr b, s'')"
  obtains a s' where "m s = (Inr a, s')" and "f a s' = (Inr b, s'')"
  using assms by (auto simp: bindE_def split: prod.splits sum.splits)

lemma bindE_assoc: "bindE (bindE m f) g = bindE m (\<lambda>a. bindE (f a) g)"
  by (auto simp: bindE_def fun_eq_iff split: prod.splits sum.splits)

lemma bindE_ret [simp]: "bindE (ret a) f = f a" "bindE m ret = m"
  by (auto simp: bindE_def ret_def fun_eq_iff split: prod.splits sum.splits)

lemma bindR_Inr_iff: "bindR r f = Inr b \<longleftrightarrow> (\<exists>a. r = Inr a \<and> f a = Inr b)"
  by (cases r) auto

text \<open>The part \<open>f\<close> of the state is the same after \<open>m\<close>, whatever its outcome.\<close>

definition keeps :: "('s \<Rightarrow> 'b) \<Rightarrow> ('s, 'e, 'a) eff \<Rightarrow> bool" where
  "keeps f m = (\<forall>s. f (snd (m s)) = f s)"

named_theorems keeps_intros \<open>which effects keep a part of the state\<close>

lemma keeps_bind [keeps_intros]: "keeps f m \<Longrightarrow> (\<And>a. keeps f (n a)) \<Longrightarrow> keeps f (bindE m n)"
  by (simp add: keeps_def bindE_def split: prod.split sum.split) (metis snd_conv)

lemma keeps_catch [keeps_intros]: "keeps f m \<Longrightarrow> (\<And>e. keeps f (n e)) \<Longrightarrow> keeps f (catchE m n)"
  by (simp add: keeps_def catchE_def split: prod.split sum.split) (metis snd_conv)

lemma keeps_if [keeps_intros]: "(b \<Longrightarrow> keeps f m) \<Longrightarrow> (\<not> b \<Longrightarrow> keeps f n) \<Longrightarrow> keeps f (if b then m else n)"
  by simp

lemma keeps_option [keeps_intros]:
  "(x = None \<Longrightarrow> keeps f m) \<Longrightarrow> (\<And>a. x = Some a \<Longrightarrow> keeps f (n a)) \<Longrightarrow> keeps f (case x of None \<Rightarrow> m | Some a \<Rightarrow> n a)"
  by (cases x) simp_all

lemma keeps_sum [keeps_intros]:
  "(\<And>a. keeps f (m a)) \<Longrightarrow> (\<And>b. keeps f (n b)) \<Longrightarrow> keeps f (case x of Inl a \<Rightarrow> m a | Inr b \<Rightarrow> n b)"
  by (cases x) simp_all

lemma keeps_basic [keeps_intros]: "keeps f (ret a)" "keeps f (throw e)" "keeps f (liftR r)" "keeps f (getS g)"
  by (simp_all add: keeps_def eff_run)

lemma keeps_mod: "(\<And>s. f (g s) = f s) \<Longrightarrow> keeps f (modS g)"
  by (simp add: keeps_def eff_run)

section \<open>Contracts of effects\<close>

text \<open>\<open>m\<close> preserves the invariant \<open>I\<close>, whatever its outcome, and what it returns fulfils \<open>Q\<close>.\<close>

definition ensures :: "('s \<Rightarrow> bool) \<Rightarrow> ('s, 'e, 'a) eff \<Rightarrow> ('a \<Rightarrow> bool) \<Rightarrow> bool" where
  "ensures I m Q = (\<forall>s. I s \<longrightarrow> I (snd (m s)) \<and> (\<forall>a. fst (m s) = Inr a \<longrightarrow> Q a))"

lemma ensures_bind:
  "ensures I m P \<Longrightarrow> (\<And>a. P a \<Longrightarrow> ensures I (n a) Q) \<Longrightarrow> ensures I (bindE m n) Q"
  by (simp add: ensures_def bindE_def split: prod.split sum.split) (metis fst_conv snd_conv)

lemma ensures_catch:
  "ensures I m Q \<Longrightarrow> (\<And>e. ensures I (n e) Q) \<Longrightarrow> ensures I (catchE m n) Q"
  by (simp add: ensures_def catchE_def split: prod.split sum.split) (metis fst_conv snd_conv sum.inject(2) sum.distinct(1))

lemma ensures_finally:
  "ensures I m Q \<Longrightarrow> (\<And>s. I s \<Longrightarrow> I (f s)) \<Longrightarrow> ensures I (finallyE p m f) Q"
  by (simp add: ensures_def finallyE_run)

lemma ensures_if: "(b \<Longrightarrow> ensures I m Q) \<Longrightarrow> (\<not> b \<Longrightarrow> ensures I n Q) \<Longrightarrow> ensures I (if b then m else n) Q"
  by simp

lemma ensures_option:
  "(x = None \<Longrightarrow> ensures I m Q) \<Longrightarrow> (\<And>a. x = Some a \<Longrightarrow> ensures I (n a) Q) \<Longrightarrow>
     ensures I (case x of None \<Rightarrow> m | Some a \<Rightarrow> n a) Q"
  by (cases x) simp_all

lemma ensures_sum:
  "(\<And>a. x = Inl a \<Longrightarrow> ensures I (m a) Q) \<Longrightarrow> (\<And>b. x = Inr b \<Longrightarrow> ensures I (n b) Q) \<Longrightarrow>
     ensures I (case x of Inl a \<Rightarrow> m a | Inr b \<Rightarrow> n b) Q"
  by (cases x) simp_all

lemma ensures_basic:
  "Q a \<Longrightarrow> ensures I (ret a) Q" "ensures I (throw e) Q" "(\<And>a. r = Inr a \<Longrightarrow> Q a) \<Longrightarrow> ensures I (liftR r) Q"
  "(\<And>s. I s \<Longrightarrow> Q (g s)) \<Longrightarrow> ensures I (getS g) Q"
  by (simp_all add: ensures_def eff_run)

lemma ensures_mod: "(\<And>s. I s \<Longrightarrow> I (h s)) \<Longrightarrow> Q () \<Longrightarrow> ensures I (modS h) Q"
  by (simp add: ensures_def eff_run)

lemma ensures_weaken: "ensures I m P \<Longrightarrow> (\<And>a. P a \<Longrightarrow> Q a) \<Longrightarrow> ensures I m Q"
  by (auto simp: ensures_def)

lemma ensures_True: "ensures I m P \<Longrightarrow> ensures I m (\<lambda>_. True)"
  by (auto simp: ensures_def)

lemma ensures_run: "ensures I m Q \<Longrightarrow> m s = (Inr a, s') \<Longrightarrow> I s \<Longrightarrow> I s' \<and> Q a"
  by (metis ensures_def fst_conv snd_conv)

lemma ensures_state: "ensures I m Q \<Longrightarrow> I s \<Longrightarrow> I (snd (m s))"
  by (simp add: ensures_def)

text \<open>An effect that keeps the part of the state that the invariant is about.\<close>

lemma keeps_ensures:
  "keeps f m \<Longrightarrow> (\<And>s a s'. m s = (Inr a, s') \<Longrightarrow> Q a) \<Longrightarrow> ensures (\<lambda>s. J (f s)) m Q"
  by (auto simp: ensures_def keeps_def) (metis prod.collapse)

lemmas ensures_rules = ensures_if ensures_option ensures_sum ensures_basic ensures_mod

section \<open>Lemmas on strings\<close>

lemma cons_hd_not_Nil [simp]: "cons_hd c ws \<noteq> []"
  by (cases ws) auto

lemma split_on_not_Nil [simp]: "split_on sep s \<noteq> []"
  by (induction sep s rule: split_on.induct) auto

lemma join_Cons: "ws \<noteq> [] \<Longrightarrow> join sep (w # ws) = w @ sep @ join sep ws"
  by (cases ws) auto

lemma join_cons_hd [simp]: "ws \<noteq> [] \<Longrightarrow> join sep (cons_hd c ws) = c # join sep ws"
  by (cases ws; cases "tl ws") auto

lemma split_on_sep [simp]:
  "sep \<noteq> [] \<Longrightarrow> split_on sep (sep @ s) = [] # split_on sep s"
  by (cases sep) simp_all

text \<open>Joining the pieces of a split gives the text back.\<close>

lemma join_split_on: "join sep (split_on sep s) = s"
proof (induction sep s rule: split_on.induct)
  case (1 sep)
  show ?case by simp
next
  case (2 sep c cs)
  show ?case
  proof (cases "sep \<noteq> [] \<and> take (length sep) (c # cs) = sep")
    case True
    then have "c # cs = sep @ drop (length sep - 1) cs"
      by (cases sep) (auto, metis append_take_drop_id)
    with True "2.IH"(1) show ?thesis by (simp add: join_Cons)
  next
    case False
    with "2.IH"(2) show ?thesis by auto
  qed
qed

text \<open>
  A text \<open>w\<close> is safe in front of \<open>sep\<close> when no occurrence of \<open>sep\<close> starts inside it: then
  splitting cuts it off as one piece.
\<close>

fun sep_safe :: "string \<Rightarrow> string \<Rightarrow> bool" where
  "sep_safe sep [] = True"
| "sep_safe sep (c # cs) = (take (length sep) (c # cs @ sep) \<noteq> sep \<and> sep_safe sep cs)"

lemma split_on_safe:
  assumes "sep \<noteq> []" and "sep_safe sep w"
  shows "split_on sep (w @ sep @ s) = w # split_on sep s"
  using assms(2)
proof (induction w)
  case Nil
  then show ?case using assms(1) by simp
next
  case (Cons c w)
  have "take (length sep) ((c # w @ sep) @ s) = take (length sep) (c # w @ sep)"
    by (subst take_append) simp
  with Cons show ?case by simp
qed

lemma split_on_no_sep:
  assumes "\<not> js_includes w sep"
  shows "split_on sep w = [w]"
  using assms by (induction w) auto

lemma sep_safe_no_sep: "c \<notin> set w \<Longrightarrow> sep_safe [c] w"
  by (induction w) auto

lemma js_includes_char [simp]: "js_includes w [c] \<longleftrightarrow> c \<in> set w"
  by (induction w) auto

lemma split_on_char_join:
  assumes "ws \<noteq> []" and "\<And>w. w \<in> set ws \<Longrightarrow> c \<notin> set w"
  shows "split_on [c] (join [c] ws) = ws"
  using assms
proof (induction "[c]" ws rule: join.induct)
  case 1
  then show ?case by simp
next
  case (2 w)
  then show ?case by (simp add: split_on_no_sep)
next
  case (3 w v ws)
  then show ?case
    using split_on_safe [of "[c]" w "join [c] (v # ws)"] by (simp add: sep_safe_no_sep)
qed

lemma set_split_on_char: "w \<in> set (split_on [c] s) \<Longrightarrow> c \<notin> set w"
proof (induction s arbitrary: w)
  case Nil
  then show ?case by simp
next
  case (Cons d s)
  then show ?case by (cases "split_on [c] s") (auto split: if_splits)
qed

lemma js_startsWith_prefix: "js_startsWith s pre \<longleftrightarrow> prefix pre s"
  by (auto simp: js_startsWith_def prefix_def) (metis append_take_drop_id)

section \<open>Lemmas on deduplication\<close>

lemma set_dedup_from: "set (dedup_from seen xs) = set xs - set seen"
  by (induction xs arbitrary: seen) auto

lemma set_dedup [simp]: "set (dedup xs) = set xs"
  by (simp add: dedup_def set_dedup_from)

lemma distinct_dedup_from: "distinct (dedup_from seen xs)"
  by (induction xs arbitrary: seen) (auto simp: set_dedup_from)

lemma distinct_dedup [simp]: "distinct (dedup xs)"
  by (simp add: dedup_def distinct_dedup_from)

lemma dedup_from_distinct:
  "distinct xs \<Longrightarrow> set xs \<inter> set seen = {} \<Longrightarrow> dedup_from seen xs = xs"
  by (induction xs arbitrary: seen) auto

lemma dedup_idem [simp]: "dedup (dedup xs) = dedup xs"
  unfolding dedup_def [of "dedup xs"] by (rule dedup_from_distinct) auto

lemma dedup_Nil_iff [simp]: "dedup xs = [] \<longleftrightarrow> xs = []"
  by (metis set_dedup set_empty)

end
