(* ===== verification/Js_Values.thy ===== *)
theory Js_Values
  imports Prelude
begin

text \<open>
  The JavaScript values the library handles: what \<open>JSON.parse\<close> builds, what options objects
  hold and what the template literals print.

  Numbers are exact rationals or \<open>NaN\<close>: rounding to 53 bits, infinities and the sign of
  zero are not represented. Objects are association lists in insertion order with own
  properties only; integer-like keys keep their insertion place. A function value carries
  its source text, which is what string conversion shows of it.
\<close>

section \<open>Values\<close>

datatype jsval =
    JUndef
  | JNull
  | JBool bool
  | JNaN
  | JNum rat
  | JStr string
  | JArr "jsval list"
  | JObj "(string \<times> jsval) list"
  | JFun string

type_synonym obj = "(string \<times> jsval) list"

fun truthy :: "jsval \<Rightarrow> bool" where
  "truthy JUndef = False"
| "truthy JNull = False"
| "truthy (JBool b) = b"
| "truthy JNaN = False"
| "truthy (JNum r) = (r \<noteq> 0)"
| "truthy (JStr s) = (s \<noteq> [])"
| "truthy (JArr vs) = True"
| "truthy (JObj kvs) = True"
| "truthy (JFun src) = True"

text \<open>\<open>a || b\<close> and \<open>a && b\<close>.\<close>

definition js_or :: "jsval \<Rightarrow> jsval \<Rightarrow> jsval" where
  "js_or a b = (if truthy a then a else b)"

definition js_and :: "jsval \<Rightarrow> jsval \<Rightarrow> jsval" where
  "js_and a b = (if truthy a then b else a)"

fun isNumber :: "jsval \<Rightarrow> bool" where
  "isNumber (JNum r) = True"
| "isNumber JNaN = True"
| "isNumber _ = False"

section \<open>Objects\<close>

definition obj_get :: "obj \<Rightarrow> string \<Rightarrow> jsval" where
  "obj_get ob k = (case map_of ob k of None \<Rightarrow> JUndef | Some v \<Rightarrow> v)"

definition obj_set :: "string \<Rightarrow> jsval \<Rightarrow> obj \<Rightarrow> obj" where
  "obj_set k v ob = AList.update k v ob"

text \<open>The object literal \<open>{...a, ...b}\<close>, and the rest of a destructuring that names \<open>ks\<close>.\<close>

definition obj_spread :: "obj \<Rightarrow> obj \<Rightarrow> obj" where
  "obj_spread a b = fold (\<lambda>(k, v) ob. obj_set k v ob) b a"

definition obj_omit :: "string list \<Rightarrow> obj \<Rightarrow> obj" where
  "obj_omit ks ob = filter (\<lambda>(k, v). k \<notin> set ks) ob"

definition obj_keys :: "obj \<Rightarrow> string list" where
  "obj_keys ob = map fst ob"

definition wf_obj :: "obj \<Rightarrow> bool" where
  "wf_obj ob = distinct (map fst ob)"

section \<open>Numbers as text\<close>

definition digit_char :: "nat \<Rightarrow> char" where
  "digit_char n = char_of (48 + n)"

definition is_digit :: "char \<Rightarrow> bool" where
  "is_digit c = (48 \<le> (of_char c :: nat) \<and> (of_char c :: nat) \<le> 57)"

definition digit_val :: "char \<Rightarrow> nat" where
  "digit_val c = of_char c - 48"

fun show_nat :: "nat \<Rightarrow> string" where
  "show_nat n =
     (if n < 10 then [digit_char n] else show_nat (n div 10) @ [digit_char (n mod 10)])"

declare show_nat.simps [simp del]

definition nat_of_digits :: "string \<Rightarrow> nat" where
  "nat_of_digits ds = foldl (\<lambda>a c. 10 * a + digit_val c) 0 ds"

definition is_int :: "rat \<Rightarrow> bool" where
  "is_int r = (of_int \<lfloor>r\<rfloor> = r)"

text \<open>
  Decimal places a non-negative number needs. The shortest decimal of a double has at most
  341 places, so 400 rounds are enough for every number a program can hold.
\<close>

fun dec_places_from :: "nat \<Rightarrow> nat \<Rightarrow> rat \<Rightarrow> nat" where
  "dec_places_from 0 k a = k"
| "dec_places_from (Suc f) k a = (if is_int a then k else dec_places_from f (Suc k) (10 * a))"

definition dec_places :: "rat \<Rightarrow> nat" where
  "dec_places a = dec_places_from 400 0 a"

definition pad_left :: "nat \<Rightarrow> string \<Rightarrow> string" where
  "pad_left k s = replicate (k - length s) (CHR ''0'') @ s"

text \<open>
  \<open>String(n)\<close> in positional notation (JavaScript switches to an exponent from \<open>1e21\<close> up and
  below \<open>1e-6\<close>; the digits are the same).
\<close>

definition num_to_string :: "rat \<Rightarrow> string" where
  "num_to_string r =
     (let a = \<bar>r\<bar>; k = dec_places a; m = nat \<lfloor>a * 10 ^ k\<rfloor>
      in (if r < 0 then ''-'' else []) @ show_nat (m div 10 ^ k) @
         (if k = 0 then [] else ''.'' @ pad_left k (show_nat (m mod 10 ^ k))))"

text \<open>A finite decimal: every value \<open>JSON.parse\<close> or a numeric literal can produce is one.\<close>

definition is_decimal :: "rat \<Rightarrow> bool" where
  "is_decimal r = is_int (\<bar>r\<bar> * 10 ^ dec_places \<bar>r\<bar>)"

text \<open>\<open>String(v)\<close>, as template literals and \<open>encodeURIComponent\<close> apply it.\<close>

fun to_string :: "jsval \<Rightarrow> string" where
  "to_string JUndef = ''undefined''"
| "to_string JNull = ''null''"
| "to_string (JBool b) = (if b then ''true'' else ''false'')"
| "to_string JNaN = ''NaN''"
| "to_string (JNum r) = num_to_string r"
| "to_string (JStr s) = s"
| "to_string (JArr vs) =
     join '','' (map (\<lambda>v. if v = JUndef \<or> v = JNull then [] else to_string v) vs)"
| "to_string (JObj kvs) = ''[object Object]''"
| "to_string (JFun src) = src"

section \<open>Reading numbers\<close>

definition is_ws :: "char \<Rightarrow> bool" where
  "is_ws c = ((of_char c :: nat) \<in> {9, 10, 11, 12, 13, 32})"

definition js_trim :: "string \<Rightarrow> string" where
  "js_trim s = rev (dropWhile is_ws (rev (dropWhile is_ws s)))"

definition scan_frac :: "string \<Rightarrow> string \<times> string" where
  "scan_frac s =
     (case s of [] \<Rightarrow> ([], [])
      | c # t \<Rightarrow> if c = CHR ''.'' \<and> takeWhile is_digit t \<noteq> []
                then (takeWhile is_digit t, dropWhile is_digit t) else ([], s))"

definition scan_sign :: "string \<Rightarrow> int \<times> string" where
  "scan_sign s =
     (case s of [] \<Rightarrow> (1, [])
      | c # t \<Rightarrow> if c = CHR ''-'' then (-1, t) else if c = CHR ''+'' then (1, t) else (1, s))"

definition scan_exp :: "string \<Rightarrow> int \<times> string" where
  "scan_exp s =
     (case s of [] \<Rightarrow> (0, [])
      | c # t \<Rightarrow> if c = CHR ''e'' \<or> c = CHR ''E''
                then (let (sg, u) = scan_sign t; ds = takeWhile is_digit u
                      in if ds = [] then (0, s)
                         else (sg * int (nat_of_digits ds), dropWhile is_digit u))
                else (0, s))"

definition scale10 :: "int \<Rightarrow> rat \<Rightarrow> rat" where
  "scale10 e r = (if 0 \<le> e then r * 10 ^ nat e else r / 10 ^ nat (- e))"

text \<open>Digits, an optional fraction and an optional exponent; the value and the rest.\<close>

definition scan_decimal :: "string \<Rightarrow> (rat \<times> string) option" where
  "scan_decimal s =
     (let ip = takeWhile is_digit s; (fp, t) = scan_frac (dropWhile is_digit s);
          (e, u) = scan_exp t
      in if ip = [] then None
         else Some (scale10 e (of_nat (nat_of_digits (ip @ fp)) / 10 ^ length fp), u))"

text \<open>
  \<open>Number(v)\<close> for the operands of the arithmetic the code performs. Of the string forms
  only decimal literals are read; other text (hexadecimal, \<open>Infinity\<close>) gives \<open>NaN\<close>.
\<close>

definition str_to_number :: "string \<Rightarrow> jsval" where
  "str_to_number s =
     (let (sg, t) = scan_sign (js_trim s)
      in if js_trim s = [] then JNum 0
         else case scan_decimal t of
             Some (r, []) \<Rightarrow> JNum (of_int sg * r)
           | _ \<Rightarrow> JNaN)"

fun to_number :: "jsval \<Rightarrow> jsval" where
  "to_number JUndef = JNaN"
| "to_number JNull = JNum 0"
| "to_number (JBool b) = JNum (if b then 1 else 0)"
| "to_number JNaN = JNaN"
| "to_number (JNum r) = JNum r"
| "to_number (JStr s) = str_to_number s"
| "to_number (JArr vs) = str_to_number (to_string (JArr vs))"
| "to_number (JObj kvs) = JNaN"
| "to_number (JFun src) = JNaN"

fun num_op :: "(rat \<Rightarrow> rat \<Rightarrow> rat) \<Rightarrow> jsval \<Rightarrow> jsval \<Rightarrow> jsval" where
  "num_op f (JNum a) (JNum b) = JNum (f a b)"
| "num_op f _ _ = JNaN"

fun is_textual :: "jsval \<Rightarrow> bool" where
  "is_textual (JStr s) = True"
| "is_textual (JArr vs) = True"
| "is_textual (JObj kvs) = True"
| "is_textual (JFun src) = True"
| "is_textual _ = False"

text \<open>\<open>a + b\<close> (text concatenation as soon as one side is no primitive number), \<open>a - b\<close>,
  \<open>a < b\<close> on numbers, \<open>Math.min(a, b)\<close>.\<close>

definition js_add :: "jsval \<Rightarrow> jsval \<Rightarrow> jsval" where
  "js_add a b =
     (if is_textual a \<or> is_textual b then JStr (to_string a @ to_string b)
      else num_op (+) (to_number a) (to_number b))"

definition js_sub :: "jsval \<Rightarrow> jsval \<Rightarrow> jsval" where
  "js_sub a b = num_op (-) (to_number a) (to_number b)"

definition js_less :: "jsval \<Rightarrow> jsval \<Rightarrow> bool" where
  "js_less a b = (case (to_number a, to_number b) of (JNum x, JNum y) \<Rightarrow> x < y | _ \<Rightarrow> False)"

definition js_min :: "jsval \<Rightarrow> jsval \<Rightarrow> jsval" where
  "js_min a b = num_op min (to_number a) (to_number b)"

text \<open>
  \<open>parseInt(s)\<close>: leading white space, a sign, an optional \<open>0x\<close> (when no radix is given), and
  the longest prefix of digits; no digit gives \<open>NaN\<close>.
\<close>

definition hex_val :: "char \<Rightarrow> nat option" where
  "hex_val c =
     (let n = (of_char c :: nat)
      in if 48 \<le> n \<and> n \<le> 57 then Some (n - 48)
         else if 65 \<le> n \<and> n \<le> 70 then Some (n - 55)
         else if 97 \<le> n \<and> n \<le> 102 then Some (n - 87) else None)"

definition nat_of_hex :: "string \<Rightarrow> nat" where
  "nat_of_hex ds = foldl (\<lambda>a c. 16 * a + (case hex_val c of None \<Rightarrow> 0 | Some v \<Rightarrow> v)) 0 ds"

definition parse_int10 :: "string \<Rightarrow> jsval" where
  "parse_int10 s =
     (let (sg, t) = scan_sign (dropWhile is_ws s); ds = takeWhile is_digit t
      in if ds = [] then JNaN else JNum (of_int (sg * int (nat_of_digits ds))))"

definition parse_int :: "string \<Rightarrow> jsval" where
  "parse_int s =
     (let (sg, t) = scan_sign (dropWhile is_ws s)
      in if take 2 t = ''0x'' \<or> take 2 t = ''0X''
         then (let ds = takeWhile (\<lambda>c. hex_val c \<noteq> None) (drop 2 t)
               in if ds = [] then JNaN else JNum (of_int (sg * int (nat_of_hex ds))))
         else parse_int10 s)"

section \<open>Lemmas: objects\<close>

lemma obj_get_set [simp]: "obj_get (obj_set k v ob) k' = (if k' = k then v else obj_get ob k')"
  by (simp add: obj_get_def obj_set_def AList.update_conv')

lemma wf_obj_set [simp]: "wf_obj ob \<Longrightarrow> wf_obj (obj_set k v ob)"
  by (simp add: wf_obj_def obj_set_def distinct_update)

lemma obj_get_omit [simp]: "obj_get (obj_omit ks ob) k = (if k \<in> set ks then JUndef else obj_get ob k)"
proof -
  have "map_of (obj_omit ks ob) k = (if k \<in> set ks then None else map_of ob k)"
    by (induction ob) (auto simp: obj_omit_def)
  then show ?thesis by (simp add: obj_get_def)
qed

lemma keys_omit: "set (obj_keys (obj_omit ks ob)) = set (obj_keys ob) - set ks"
  by (force simp: obj_keys_def obj_omit_def)

lemma wf_obj_omit [simp]: "wf_obj ob \<Longrightarrow> wf_obj (obj_omit ks ob)"
  unfolding wf_obj_def obj_omit_def by (induction ob) (auto simp: image_iff)

lemma wf_obj_spread [simp]: "wf_obj a \<Longrightarrow> wf_obj (obj_spread a b)"
  unfolding obj_spread_def by (induction b arbitrary: a) auto

lemma obj_get_spread:
  "wf_obj b \<Longrightarrow> obj_get (obj_spread a b) k = (if k \<in> set (obj_keys b) then obj_get b k else obj_get a k)"
proof (induction b arbitrary: a)
  case Nil
  then show ?case by (simp add: obj_spread_def obj_keys_def)
next
  case (Cons kv b)
  obtain k' v where kv: "kv = (k', v)" by (cases kv)
  have "obj_spread a (kv # b) = obj_spread (obj_set k' v a) b"
    by (simp add: obj_spread_def kv)
  moreover have "wf_obj b" and "k' \<notin> set (obj_keys b)"
    using Cons.prems by (auto simp: wf_obj_def kv obj_keys_def)
  ultimately show ?case
    using Cons.IH [of "obj_set k' v a"] by (auto simp: obj_keys_def kv obj_get_def [of "_ # _"] obj_get_def [of b])
qed

section \<open>Lemmas: printed numbers\<close>

lemma digit_char_digit [simp]: "n < 10 \<Longrightarrow> is_digit (digit_char n)"
  by (simp add: is_digit_def digit_char_def)

lemma digit_val_char [simp]: "n < 10 \<Longrightarrow> digit_val (digit_char n) = n"
  by (simp add: digit_val_def digit_char_def)

lemma show_nat_digits: "c \<in> set (show_nat n) \<Longrightarrow> is_digit c"
proof (induction n rule: show_nat.induct)
  case (1 n)
  then show ?case by (cases "n < 10") (auto simp: show_nat.simps [of n])
qed

lemma show_nat_not_Nil [simp]: "show_nat n \<noteq> []"
  by (subst show_nat.simps) simp

lemma nat_of_digits_snoc: "nat_of_digits (ds @ [c]) = 10 * nat_of_digits ds + digit_val c"
  by (simp add: nat_of_digits_def)

lemma nat_of_digits_append:
  "nat_of_digits (xs @ ys) = nat_of_digits xs * 10 ^ length ys + nat_of_digits ys"
proof (induction ys rule: rev_induct)
  case Nil
  then show ?case by (simp add: nat_of_digits_def)
next
  case (snoc y ys)
  then show ?case
    by (simp add: nat_of_digits_snoc flip: append_assoc)
qed

lemma nat_of_digits_show [simp]: "nat_of_digits (show_nat n) = n"
proof (induction n rule: show_nat.induct)
  case (1 n)
  show ?case
  proof (cases "n < 10")
    case True
    then show ?thesis by (simp add: show_nat.simps [of n] nat_of_digits_def)
  next
    case False
    with 1 show ?thesis by (simp add: show_nat.simps [of n] nat_of_digits_snoc)
  qed
qed

lemma nat_of_digits_zeros: "nat_of_digits (replicate k (CHR ''0'') @ ds) = nat_of_digits ds"
proof -
  have "nat_of_digits (replicate k (CHR ''0'')) = 0"
    by (induction k) (simp_all add: nat_of_digits_def digit_val_def)
  then show ?thesis by (simp add: nat_of_digits_append)
qed

lemma length_show_nat: "n < 10 ^ k \<Longrightarrow> 0 < k \<Longrightarrow> length (show_nat n) \<le> k"
proof (induction k arbitrary: n)
  case 0
  then show ?case by simp
next
  case (Suc k)
  show ?case
  proof (cases "n < 10")
    case True
    then show ?thesis by (simp add: show_nat.simps [of n])
  next
    case False
    with Suc.prems have "k > 0" and "n div 10 < 10 ^ k" by (auto intro: Nat.gr0I)
    with Suc.IH False show ?thesis by (simp add: show_nat.simps [of n])
  qed
qed

lemma show_nat_hd: "show_nat n = CHR ''0'' # ds \<Longrightarrow> ds = []"
proof (induction n arbitrary: ds rule: show_nat.induct)
  case (1 n)
  show ?case
  proof (cases "n < 10")
    case True
    with 1 show ?thesis by (simp add: show_nat.simps [of n])
  next
    case False
    with "1.prems" have eq: "show_nat (n div 10) @ [digit_char (n mod 10)] = CHR ''0'' # ds"
      by (simp add: show_nat.simps [of n])
    then obtain es where es: "show_nat (n div 10) = CHR ''0'' # es"
      by (cases "show_nat (n div 10)") auto
    with "1.IH" [OF False] have "show_nat (n div 10) = ''0''" by blast
    then have "n div 10 = 0"
      by (metis nat_of_digits_show nat_of_digits_zeros [of 1 "[]", simplified]
          nat_of_digits_def foldl_Nil)
    with False show ?thesis by simp
  qed
qed

text \<open>Integers need no decimal places.\<close>

lemma is_int_simps [simp]:
  "is_int (numeral n)" "is_int 0" "is_int 1" "is_int (- numeral n)" "is_int (of_int i)"
  by (simp_all add: is_int_def)

lemma dec_places_int: "is_int a \<Longrightarrow> dec_places a = 0"
proof -
  have "is_int a \<Longrightarrow> dec_places_from f k a = k" for f k
    by (cases f) auto
  then show "is_int a \<Longrightarrow> ?thesis" by (simp add: dec_places_def)
qed

lemma is_decimal_int [simp]:
  "is_decimal (numeral n)" "is_decimal 0" "is_decimal 1" "is_decimal (of_int i)"
proof -
  have int: "is_int r \<Longrightarrow> is_decimal r" for r
  proof -
    assume "is_int r"
    then have a: "is_int \<bar>r\<bar>" by (metis abs_if is_int_def of_int_minus floor_of_int)
    then show "is_decimal r" by (simp add: is_decimal_def dec_places_int)
  qed
  show "is_decimal (numeral n)" "is_decimal 0" "is_decimal 1" "is_decimal (of_int i)"
    by (simp_all add: int)
qed

end
