(* ===== verification/Json.thy ===== *)
theory Json
  imports Js_Values
begin

text \<open>
  \<open>JSON.stringify\<close> and \<open>JSON.parse\<close>, which the storages, the local-storage cache, the ID token
  decoder and the token requests go through. \<open>stringify\<close> answers \<open>None\<close> where JavaScript
  answers \<open>undefined\<close>; \<open>json_parse\<close> answers \<open>None\<close> where it throws \<open>SyntaxError\<close>. The main
  result is the round trip \<open>json_parse_stringify\<close> on JSON values.
\<close>

section \<open>Printing\<close>

abbreviation dquote :: char where "dquote \<equiv> CHR 0x22"
abbreviation bslash :: char where "bslash \<equiv> CHR 0x5C"

definition hex_char :: "nat \<Rightarrow> char" where
  "hex_char n = (if n < 10 then char_of (48 + n) else char_of (87 + n))"

definition json_esc :: "char \<Rightarrow> string" where
  "json_esc c =
     (let n = (of_char c :: nat)
      in if c = dquote then [bslash, dquote]
         else if c = bslash then [bslash, bslash]
         else if c = CHR 0x08 then [bslash, CHR ''b'']
         else if c = CHR 0x09 then [bslash, CHR ''t'']
         else if c = CHR 0x0A then [bslash, CHR ''n'']
         else if c = CHR 0x0C then [bslash, CHR ''f'']
         else if c = CHR 0x0D then [bslash, CHR ''r'']
         else if n < 32 then bslash # ''u00'' @ [hex_char (n div 16), hex_char (n mod 16)]
         else [c])"

definition json_quote :: "string \<Rightarrow> string" where
  "json_quote s = dquote # concat (map json_esc s) @ [dquote]"

fun stringify :: "jsval \<Rightarrow> string option" where
  "stringify JUndef = None"
| "stringify (JFun src) = None"
| "stringify JNull = Some ''null''"
| "stringify JNaN = Some ''null''"
| "stringify (JBool b) = Some (if b then ''true'' else ''false'')"
| "stringify (JNum r) = Some (num_to_string r)"
| "stringify (JStr s) = Some (json_quote s)"
| "stringify (JArr vs) =
     Some (''['' @ join '','' (map (\<lambda>v. case stringify v of None \<Rightarrow> ''null'' | Some t \<Rightarrow> t) vs) @ '']'')"
| "stringify (JObj kvs) =
     Some (''{'' @ join '','' (concat (map (\<lambda>(k, v).
        case stringify v of None \<Rightarrow> [] | Some t \<Rightarrow> [json_quote k @ '':'' @ t]) kvs)) @ ''}'')"

section \<open>Parsing\<close>

definition json_ws :: "char \<Rightarrow> bool" where
  "json_ws c = ((of_char c :: nat) \<in> {9, 10, 13, 32})"

definition skip_ws :: "string \<Rightarrow> string" where
  "skip_ws s = dropWhile json_ws s"

definition hex4 :: "string \<Rightarrow> nat option" where
  "hex4 s =
     (if 4 \<le> length s \<and> list_all (\<lambda>c. hex_val c \<noteq> None) (take 4 s)
      then Some (nat_of_hex (take 4 s)) else None)"

text \<open>The UTF-8 bytes of a code point (a lone surrogate gets its three-byte form).\<close>

definition utf8_enc :: "nat \<Rightarrow> string" where
  "utf8_enc n =
     (if n < 128 then [char_of n]
      else if n < 2048 then [char_of (192 + n div 64), char_of (128 + n mod 64)]
      else if n < 65536 then
        [char_of (224 + n div 4096), char_of (128 + n div 64 mod 64), char_of (128 + n mod 64)]
      else [char_of (240 + n div 262144), char_of (128 + n div 4096 mod 64),
            char_of (128 + n div 64 mod 64), char_of (128 + n mod 64)])"

text \<open>The low half of a surrogate pair at the front of the text, if there is one.\<close>

definition low_surrogate :: "string \<Rightarrow> nat option" where
  "low_surrogate s =
     (if take 2 s = [bslash, CHR ''u'']
      then (case hex4 (drop 2 s) of
              None \<Rightarrow> None
            | Some m \<Rightarrow> if 56320 \<le> m \<and> m \<le> 57343 then Some m else None)
      else None)"

definition json_unesc :: "char \<Rightarrow> char option" where
  "json_unesc e =
     (if e \<in> {dquote, bslash, CHR ''/''} then Some e
      else if e = CHR ''b'' then Some (CHR 0x08)
      else if e = CHR ''f'' then Some (CHR 0x0C)
      else if e = CHR ''n'' then Some (CHR 0x0A)
      else if e = CHR ''r'' then Some (CHR 0x0D)
      else if e = CHR ''t'' then Some (CHR 0x09)
      else None)"

definition glue :: "string \<Rightarrow> (string \<times> string) option \<Rightarrow> (string \<times> string) option" where
  "glue p r = map_option (\<lambda>(w, t). (p @ w, t)) r"

text \<open>The rest of a string token after its opening quote.\<close>

function pstring :: "string \<Rightarrow> (string \<times> string) option" where
  "pstring [] = None"
| "pstring (c # cs) =
     (if c = dquote then Some ([], cs)
      else if (of_char c :: nat) < 32 then None
      else if c \<noteq> bslash then glue [c] (pstring cs)
      else case cs of
          [] \<Rightarrow> None
        | e # t \<Rightarrow>
            if e = CHR ''u'' then
              (case hex4 t of
                 None \<Rightarrow> None
               | Some n \<Rightarrow>
                   (case (if 55296 \<le> n \<and> n \<le> 56319 then low_surrogate (drop 4 t) else None) of
                      Some m \<Rightarrow>
                        glue (utf8_enc (65536 + (n - 55296) * 1024 + (m - 56320)))
                          (pstring (drop 10 t))
                    | None \<Rightarrow> glue (utf8_enc n) (pstring (drop 4 t))))
            else (case json_unesc e of
                    None \<Rightarrow> None
                  | Some d \<Rightarrow> glue [d] (pstring t)))"
  by pat_completeness auto
termination
  by (relation "measure length") auto

definition pnumber :: "string \<Rightarrow> (jsval \<times> string) option" where
  "pnumber s =
     (let neg = (take 1 s = ''-''); t = (if neg then drop 1 s else s);
          ip = takeWhile is_digit t
      in if take 1 ip = ''0'' \<and> 1 < length ip then None
         else map_option (\<lambda>(r, u). (JNum (if neg then - r else r), u)) (scan_decimal t))"

definition pliteral :: "string \<Rightarrow> (jsval \<times> string) option" where
  "pliteral s =
     (if take 4 s = ''true'' then Some (JBool True, drop 4 s)
      else if take 5 s = ''false'' then Some (JBool False, drop 5 s)
      else if take 4 s = ''null'' then Some (JNull, drop 4 s)
      else pnumber s)"

text \<open>
  Values, the elements of a non-empty array and the members of a non-empty object. Every
  two nested calls consume a character, so \<open>2 * length s + 2\<close> units of fuel are enough
  (\<open>pval_fuel\<close>).
\<close>

fun pval :: "nat \<Rightarrow> string \<Rightarrow> (jsval \<times> string) option"
  and pelems :: "nat \<Rightarrow> string \<Rightarrow> (jsval list \<times> string) option"
  and pmembers :: "nat \<Rightarrow> obj \<Rightarrow> string \<Rightarrow> (obj \<times> string) option"
where
  "pval 0 s = None"
| "pval (Suc n) s =
     (case skip_ws s of
        [] \<Rightarrow> None
      | c # t \<Rightarrow>
          if c = dquote then map_option (\<lambda>(w, r). (JStr w, r)) (pstring t)
          else if c = CHR ''['' then
            (if take 1 (skip_ws t) = '']'' then Some (JArr [], drop 1 (skip_ws t))
             else map_option (\<lambda>(vs, r). (JArr vs, r)) (pelems n t))
          else if c = CHR ''{'' then
            (if take 1 (skip_ws t) = ''}'' then Some (JObj [], drop 1 (skip_ws t))
             else map_option (\<lambda>(kvs, r). (JObj kvs, r)) (pmembers n [] t))
          else pliteral (c # t))"
| "pelems 0 s = None"
| "pelems (Suc n) s =
     (case pval n s of
        None \<Rightarrow> None
      | Some (v, r) \<Rightarrow>
          (case skip_ws r of
             [] \<Rightarrow> None
           | c # t \<Rightarrow>
               if c = CHR '','' then map_option (\<lambda>(vs, u). (v # vs, u)) (pelems n t)
               else if c = CHR '']'' then Some ([v], t) else None))"
| "pmembers 0 acc s = None"
| "pmembers (Suc n) acc s =
     (case skip_ws s of
        [] \<Rightarrow> None
      | q # s' \<Rightarrow>
          if q \<noteq> dquote then None
          else (case pstring s' of
                  None \<Rightarrow> None
                | Some (k, r) \<Rightarrow>
                    if take 1 (skip_ws r) \<noteq> '':'' then None
                    else (case pval n (drop 1 (skip_ws r)) of
                            None \<Rightarrow> None
                          | Some (v, r') \<Rightarrow>
                              (case skip_ws r' of
                                 [] \<Rightarrow> None
                               | c # t \<Rightarrow>
                                   if c = CHR '','' then pmembers n (obj_set k v acc) t
                                   else if c = CHR ''}'' then Some (obj_set k v acc, t)
                                   else None))))"

definition json_parse :: "string \<Rightarrow> jsval option" where
  "json_parse s =
     (case pval (2 * length s + 2) s of
        None \<Rightarrow> None
      | Some (v, r) \<Rightarrow> if skip_ws r = [] then Some v else None)"

text \<open>The values that survive: no \<open>undefined\<close>, function or \<open>NaN\<close>, decimal numbers, distinct keys.\<close>

fun json_ok :: "jsval \<Rightarrow> bool" where
  "json_ok JUndef = False"
| "json_ok (JFun src) = False"
| "json_ok JNull = True"
| "json_ok JNaN = False"
| "json_ok (JBool b) = True"
| "json_ok (JNum r) = is_decimal r"
| "json_ok (JStr s) = True"
| "json_ok (JArr vs) = list_all json_ok vs"
| "json_ok (JObj kvs) = (distinct (map fst kvs) \<and> list_all (\<lambda>(k, v). json_ok v) kvs)"

section \<open>Lemmas: tokens\<close>


lemma hex_val_char [simp]: "k < 16 \<Longrightarrow> hex_val (hex_char k) = Some k"
  by (auto simp: hex_val_def hex_char_def Let_def)

lemma hex4_control: 
  assumes "n < 32"
  shows "hex4 (CHR ''0'' # CHR ''0'' # hex_char (n div 16) # hex_char (n mod 16) # t) = Some n"
proof -
  have "n div 16 < 16" and "n mod 16 < 16" using assms by auto
  moreover have "hex_val (CHR ''0'') = Some 0" by (simp add: hex_val_def)
  ultimately show ?thesis
    by (simp add: hex4_def nat_of_hex_def)
qed

lemma pstring_esc: "pstring (json_esc c @ t) = glue [c] (pstring t)"
proof -
  let ?n = "of_char c :: nat"
  consider (simple) "c \<in> {dquote, bslash, CHR 0x08, CHR 0x09, CHR 0x0A, CHR 0x0C, CHR 0x0D}"
    | (control) "?n < 32" "c \<notin> {CHR 0x08, CHR 0x09, CHR 0x0A, CHR 0x0C, CHR 0x0D}"
    | (plain) "32 \<le> ?n" "c \<noteq> dquote" "c \<noteq> bslash" by (cases "?n < 32") auto
  then show ?thesis
  proof cases
    case simple
    then show ?thesis by (auto simp: json_esc_def json_unesc_def)
  next
    case control
    have "c \<noteq> dquote" "c \<noteq> bslash" using control(1) by auto
    with control have e: "json_esc c =
        bslash # CHR ''u'' # CHR ''0'' # CHR ''0'' # hex_char (?n div 16) # hex_char (?n mod 16) # []"
      by (simp add: json_esc_def Let_def)
    have u: "utf8_enc ?n = [c]" using control(1) by (simp add: utf8_enc_def)
    show ?thesis
      using control(1) unfolding e
      by (simp add: pstring.simps(2) [of bslash] hex4_control u del: pstring.simps)
  next
    case plain
    have "c \<notin> {CHR 0x08, CHR 0x09, CHR 0x0A, CHR 0x0C, CHR 0x0D}" using plain(1) by auto
    with plain show ?thesis by (simp add: json_esc_def Let_def)
  qed
qed

lemma glue_Some [simp]: "glue p (Some (w, t)) = Some (p @ w, t)"
  by (simp add: glue_def)

lemma pstring_quote: "pstring (concat (map json_esc s) @ dquote # t) = Some (s, t)"
  by (induction s) (simp_all add: pstring_esc del: pstring.simps, simp)


definition num_end :: "string \<Rightarrow> bool" where
  "num_end t = (case t of [] \<Rightarrow> True | c # _ \<Rightarrow> \<not> is_digit c \<and> c \<noteq> CHR ''.'' \<and> c \<noteq> CHR ''e'' \<and> c \<noteq> CHR ''E'')"

lemma span_digits:
  assumes "\<And>c. c \<in> set ds \<Longrightarrow> is_digit c" and "case t of [] \<Rightarrow> True | c # _ \<Rightarrow> \<not> is_digit c"
  shows "takeWhile is_digit (ds @ t) = ds" and "dropWhile is_digit (ds @ t) = t"
  using assms by (induction ds) (auto split: list.splits)

lemma num_end_scans:
  assumes "num_end t"
  shows "scan_frac t = ([], t)" and "scan_exp t = (0, t)" and "case t of [] \<Rightarrow> True | c # _ \<Rightarrow> \<not> is_digit c"
  using assms by (auto simp: num_end_def scan_frac_def scan_exp_def split: list.splits)

lemma pad_left_length: "length s \<le> k \<Longrightarrow> length (pad_left k s) = k"
  by (simp add: pad_left_def)

lemma pad_left_digits: "(\<And>c. c \<in> set s \<Longrightarrow> is_digit c) \<Longrightarrow> c \<in> set (pad_left k s) \<Longrightarrow> is_digit c"
  by (auto simp: pad_left_def is_digit_def)

definition dec_text :: "nat \<Rightarrow> nat \<Rightarrow> string" where
  "dec_text m k = show_nat (m div 10 ^ k) @ (if k = 0 then [] else ''.'' @ pad_left k (show_nat (m mod 10 ^ k)))"

lemma scan_decimal_text:
  assumes "num_end t"
  shows "scan_decimal (dec_text m k @ t) = Some (of_nat m / 10 ^ k, t)"
proof (cases "k = 0")
  case True
  have "takeWhile is_digit (show_nat m @ t) = show_nat m" "dropWhile is_digit (show_nat m @ t) = t"
    using span_digits [OF show_nat_digits num_end_scans(3) [OF assms]] by auto
  with True show ?thesis
    by (simp add: scan_decimal_def dec_text_def num_end_scans [OF assms] scale10_def)
next
  case False
  let ?i = "show_nat (m div 10 ^ k)" and ?p = "pad_left k (show_nat (m mod 10 ^ k))"
  have len: "length ?p = k"
    using False by (intro pad_left_length length_show_nat) auto
  have dig: "c \<in> set ?p \<Longrightarrow> is_digit c" for c
    by (rule pad_left_digits [OF show_nat_digits])
  have i: "takeWhile is_digit (?i @ CHR ''.'' # ?p @ t) = ?i"
    "dropWhile is_digit (?i @ CHR ''.'' # ?p @ t) = CHR ''.'' # ?p @ t"
    using span_digits [OF show_nat_digits, where t = "CHR ''.'' # ?p @ t"] by (auto simp: is_digit_def)
  have p: "takeWhile is_digit (?p @ t) = ?p" "dropWhile is_digit (?p @ t) = t"
    using span_digits [OF dig num_end_scans(3) [OF assms]] by auto
  have "?p \<noteq> []" using len False by auto
  then have f: "scan_frac (CHR ''.'' # ?p @ t) = (?p, t)"
    by (simp add: scan_frac_def p)
  have "nat_of_digits (?i @ ?p) = m"
    unfolding nat_of_digits_append [of ?i] len by (simp add: pad_left_def nat_of_digits_zeros div_mult_mod_eq)
  with False i f len show ?thesis
    by (simp add: scan_decimal_def dec_text_def num_end_scans [OF assms] scale10_def)
qed

lemma decimal_value:
  assumes "is_decimal r"
  shows "of_nat (nat \<lfloor>\<bar>r\<bar> * 10 ^ dec_places \<bar>r\<bar>\<rfloor>) / 10 ^ dec_places \<bar>r\<bar> = \<bar>r\<bar>"
proof -
  let ?a = "\<bar>r\<bar> * 10 ^ dec_places \<bar>r\<bar>"
  have "of_int \<lfloor>?a\<rfloor> = ?a" using assms by (simp add: is_decimal_def is_int_def)
  moreover have "0 \<le> \<lfloor>?a\<rfloor>" by simp
  ultimately have "of_nat (nat \<lfloor>?a\<rfloor>) = ?a" by (metis of_int_of_nat_eq nat_0_le)
  then show ?thesis by (simp only:) simp
qed

lemma num_to_string_text:
  "num_to_string r = (if r < 0 then ''-'' else []) @
     dec_text (nat \<lfloor>\<bar>r\<bar> * 10 ^ dec_places \<bar>r\<bar>\<rfloor>) (dec_places \<bar>r\<bar>)"
  by (simp add: num_to_string_def dec_text_def Let_def)

lemma dec_text_hd: "\<exists>c u. dec_text m k = c # u \<and> is_digit c"
  using show_nat_digits [of _ "m div 10 ^ k"]
  by (cases "show_nat (m div 10 ^ k)") (auto simp: dec_text_def)

lemma dec_text_zero:
  assumes "num_end t" "take 1 (takeWhile is_digit (dec_text m k @ t)) = ''0''"
  shows "\<not> 1 < length (takeWhile is_digit (dec_text m k @ t))"
proof -
  let ?i = "show_nat (m div 10 ^ k)"
  have "takeWhile is_digit (dec_text m k @ t) = ?i"
  proof (cases "k = 0")
    case True
    then show ?thesis
      using span_digits [OF show_nat_digits num_end_scans(3) [OF assms(1)]] by (auto simp: dec_text_def)
  next
    case False
    then show ?thesis
      using span_digits [OF show_nat_digits, where t = "CHR ''.'' # _"] by (auto simp: dec_text_def is_digit_def)
  qed
  moreover from this assms(2) have "\<exists>ds. ?i = CHR ''0'' # ds" by (cases ?i) auto
  ultimately show ?thesis using show_nat_hd by (metis One_nat_def length_Cons less_irrefl list.size(3))
qed

lemma pnumber_print:
  assumes "is_decimal r" and "num_end t"
  shows "pnumber (num_to_string r @ t) = Some (JNum r, t)"
proof -
  let ?d = "dec_text (nat \<lfloor>\<bar>r\<bar> * 10 ^ dec_places \<bar>r\<bar>\<rfloor>) (dec_places \<bar>r\<bar>)"
  have s: "scan_decimal (?d @ t) = Some (\<bar>r\<bar>, t)"
    using scan_decimal_text [OF assms(2)] decimal_value [OF assms(1)] by simp
  have z: "\<not> (take 1 (takeWhile is_digit (?d @ t)) = ''0'' \<and> 1 < length (takeWhile is_digit (?d @ t)))"
    using dec_text_zero [OF assms(2)] by blast
  have h: "take 1 (?d @ t) \<noteq> ''-''"
    using dec_text_hd [of "nat \<lfloor>\<bar>r\<bar> * 10 ^ dec_places \<bar>r\<bar>\<rfloor>" "dec_places \<bar>r\<bar>"] by (auto simp: is_digit_def)
  show ?thesis
  proof (cases "r < 0")
    case True
    then show ?thesis using s z by (simp add: pnumber_def num_to_string_text Let_def)
  next
    case False
    then show ?thesis using s z h by (simp add: pnumber_def num_to_string_text Let_def)
  qed
qed

section \<open>Lemmas: parsing what was printed\<close>


definition val_end :: "string \<Rightarrow> bool" where
  "val_end t = (case t of [] \<Rightarrow> True | c # _ \<Rightarrow> c \<in> {CHR '','', CHR '']'', CHR ''}''})"

lemma val_end_num_end: "val_end t \<Longrightarrow> num_end t"
  by (auto simp: val_end_def num_end_def is_digit_def split: list.splits)

abbreviation json_text :: "jsval \<Rightarrow> string" where
  "json_text v \<equiv> the (stringify v)"

abbreviation member_text :: "string \<times> jsval \<Rightarrow> string" where
  "member_text kv \<equiv> json_quote (fst kv) @ '':'' @ json_text (snd kv)"

lemma stringify_ok: "json_ok v \<Longrightarrow> stringify v \<noteq> None"
  by (cases v) auto

lemma stringify_arr:
  assumes "list_all json_ok vs"
  shows "json_text (JArr vs) = ''['' @ join '','' (map json_text vs) @ '']''"
proof -
  have "map (\<lambda>v. case stringify v of None \<Rightarrow> ''null'' | Some t \<Rightarrow> t) vs = map json_text vs"
    using assms by (auto simp: list_all_iff dest: stringify_ok split: option.splits)
  then show ?thesis by (simp del: map_eq_conv)
qed

lemma stringify_obj:
  assumes "list_all (\<lambda>(k, v). json_ok v) kvs"
  shows "json_text (JObj kvs) = ''{'' @ join '','' (map member_text kvs) @ ''}''"
proof -
  have "concat (map (\<lambda>(k, v). case stringify v of None \<Rightarrow> [] | Some t \<Rightarrow> [json_quote k @ '':'' @ t]) kvs)
      = map member_text kvs"
    using assms by (induction kvs) (auto dest: stringify_ok)
  then show ?thesis by simp
qed

definition value_start :: "char \<Rightarrow> bool" where
  "value_start c = (is_digit c \<or> c \<in> {CHR ''-'', dquote, CHR ''['', CHR ''{'', CHR ''t'', CHR ''f'', CHR ''n''})"

lemma json_text_hd: "json_ok v \<Longrightarrow> \<exists>c u. json_text v = c # u \<and> value_start c"
proof (cases v)
  case (JNum r)
  then show ?thesis
    using dec_text_hd [of "nat \<lfloor>\<bar>r\<bar> * 10 ^ dec_places \<bar>r\<bar>\<rfloor>" "dec_places \<bar>r\<bar>"]
    by (auto simp: num_to_string_text value_start_def)
qed (auto simp: value_start_def json_quote_def)

lemma value_start_facts: 
  assumes "value_start c"
  shows "\<not> json_ws c" "c \<noteq> CHR '']''" "c \<noteq> CHR ''}''"
  using assms by (auto simp: value_start_def json_ws_def is_digit_def)

lemma skip_ws_value [simp]: "value_start c \<Longrightarrow> skip_ws (c # t) = c # t"
  by (simp add: skip_ws_def value_start_facts)

lemma skip_ws_punct [simp]:
  "c \<in> {CHR '','', CHR '']'', CHR ''}'', CHR '':'', dquote} \<Longrightarrow> skip_ws (c # t) = c # t"
  by (auto simp: skip_ws_def json_ws_def)

lemma pval_scalar:
  assumes "json_ok v" "2 * length (json_text v) \<le> n" "val_end t" and "\<And>vs. v \<noteq> JArr vs" "\<And>kvs. v \<noteq> JObj kvs"
  shows "pval n (json_text v @ t) = Some (v, t)"
proof -
  obtain m where n: "n = Suc m" using assms(2) json_text_hd [OF assms(1)] by (cases n) auto
  show ?thesis
  proof (cases v)
    case (JNum r)
    then have r: "is_decimal r" using assms(1) by simp
    obtain c u where cu: "num_to_string r = c # u" "value_start c"
      using json_text_hd [OF assms(1)] JNum by auto
    have d: "is_digit c \<or> c = CHR ''-''"
      using cu(1) dec_text_hd [of "nat \<lfloor>\<bar>r\<bar> * 10 ^ dec_places \<bar>r\<bar>\<rfloor>" "dec_places \<bar>r\<bar>"]
      by (auto simp: num_to_string_text split: if_splits)
    then have "c \<notin> {dquote, CHR ''['', CHR ''{'', CHR ''t'', CHR ''f'', CHR ''n''}"
      by (auto simp: is_digit_def)
    then have "pval n (json_text v @ t) = pnumber (num_to_string r @ t)"
      by (simp add: n JNum cu pliteral_def)
    with pnumber_print [OF r val_end_num_end [OF assms(3)]] JNum show ?thesis by simp
  next
    case (JStr s)
    then show ?thesis using pstring_quote [of s t]
      by (simp add: n json_quote_def)
  qed (use assms in \<open>auto simp: n pliteral_def skip_ws_def json_ws_def\<close>)
qed

lemma pelems_print:
  assumes "vs \<noteq> []"
    and "\<And>v n t. v \<in> set vs \<Longrightarrow> val_end t \<Longrightarrow> 2 * length (json_text v) \<le> n \<Longrightarrow>
           pval n (json_text v @ t) = Some (v, t)"
    and "2 * length (join '','' (map json_text vs)) + 1 \<le> n"
  shows "pelems n (join '','' (map json_text vs) @ CHR '']'' # t) = Some (vs, t)"
  using assms
proof (induction vs arbitrary: n)
  case Nil
  then show ?case by simp
next
  case (Cons v vs)
  obtain m where n: "n = Suc m" using Cons.prems(3) by (cases n) auto
  show ?case
  proof (cases "vs = []")
    case True
    have "pval m (json_text v @ CHR '']'' # t) = Some (v, CHR '']'' # t)"
      using Cons.prems(3) True n by (intro Cons.prems(2)) (auto simp: val_end_def)
    then show ?thesis by (simp add: n True)
  next
    case False
    let ?r = "join '','' (map json_text vs)"
    have j: "join '','' (map json_text (v # vs)) = json_text v @ CHR '','' # ?r"
      using False by (simp add: join_Cons)
    have "pval m (json_text v @ CHR '','' # ?r @ CHR '']'' # t) = Some (v, CHR '','' # ?r @ CHR '']'' # t)"
      using Cons.prems(3) n j by (intro Cons.prems(2)) (auto simp: val_end_def)
    moreover have "pelems m (?r @ CHR '']'' # t) = Some (vs, t)"
      using Cons.prems n j by (intro Cons.IH [OF False]) auto
    ultimately show ?thesis unfolding j by (simp add: n)
  qed
qed

lemma obj_set_new: "k \<notin> set (map fst acc) \<Longrightarrow> obj_set k v acc = acc @ [(k, v)]"
  by (induction acc) (auto simp: obj_set_def)

lemma pstring_member: "pstring (concat (map json_esc k) @ dquote # t) = Some (k, t)"
  by (rule pstring_quote)

lemma pmembers_print:
  assumes "kvs \<noteq> []" "distinct (map fst (acc @ kvs))"
    and "\<And>kv n t. kv \<in> set kvs \<Longrightarrow> val_end t \<Longrightarrow> 2 * length (json_text (snd kv)) \<le> n \<Longrightarrow>
           pval n (json_text (snd kv) @ t) = Some (snd kv, t)"
    and "2 * length (join '','' (map member_text kvs)) + 1 \<le> n"
  shows "pmembers n acc (join '','' (map member_text kvs) @ CHR ''}'' # t) = Some (acc @ kvs, t)"
  using assms
proof (induction kvs arbitrary: n acc)
  case Nil
  then show ?case by simp
next
  case (Cons kv kvs)
  obtain k v where kv: "kv = (k, v)" by (cases kv)
  obtain m where n: "n = Suc m" using Cons.prems(4) by (cases n) auto
  have new: "obj_set k v acc = acc @ [kv]"
    using Cons.prems(2) kv by (subst obj_set_new) auto
  show ?case
  proof (cases "kvs = []")
    case True
    have "pval m (json_text (snd kv) @ CHR ''}'' # t) = Some (snd kv, CHR ''}'' # t)"
      using Cons.prems(4) True n by (intro Cons.prems(3)) (auto simp: val_end_def json_quote_def)
    then show ?thesis
      by (simp add: n True json_quote_def pstring_quote kv new)
  next
    case False
    let ?r = "join '','' (map member_text kvs)"
    have j: "join '','' (map member_text (kv # kvs)) = member_text kv @ CHR '','' # ?r"
      using False by (simp add: join_Cons)
    have "pval m (json_text (snd kv) @ CHR '','' # ?r @ CHR ''}'' # t)
        = Some (snd kv, CHR '','' # ?r @ CHR ''}'' # t)"
      using Cons.prems(4) n j by (intro Cons.prems(3)) (auto simp: val_end_def)
    moreover have "pmembers m (acc @ [kv]) (?r @ CHR ''}'' # t) = Some ((acc @ [kv]) @ kvs, t)"
      using Cons.prems n j by (intro Cons.IH [OF False]) auto
    ultimately show ?thesis unfolding j by (simp add: n json_quote_def pstring_quote kv new)
  qed
qed

lemma pval_print:
  "json_ok v \<Longrightarrow> val_end t \<Longrightarrow> 2 * length (json_text v) \<le> n \<Longrightarrow>
     pval n (json_text v @ t) = Some (v, t)"
proof (induction v arbitrary: n t)
  case (JArr vs)
  have tx: "json_text (JArr vs) = ''['' @ join '','' (map json_text vs) @ '']''"
    using JArr.prems by (intro stringify_arr) simp
  obtain m where n: "n = Suc m" using JArr.prems(3) tx by (cases n) auto
  show ?case
  proof (cases "vs = []")
    case True
    then show ?thesis by (simp add: n skip_ws_def json_ws_def)
  next
    case False
    have el: "pval n (json_text v @ t) = Some (v, t)"
      if "v \<in> set vs" "val_end t" "2 * length (json_text v) \<le> n" for v n t
      using JArr.IH [OF that(1)] JArr.prems(1) that by (simp add: list_all_iff)
    have "pelems m (join '','' (map json_text vs) @ CHR '']'' # t) = Some (vs, t)"
      using JArr.prems(3) n tx by (intro pelems_print [OF False el]) auto
    moreover obtain c u where cu: "join '','' (map json_text vs) @ CHR '']'' # t = c # u" "value_start c"
    proof -
      obtain v ws where vs: "vs = v # ws" using False by (cases vs) auto
      then have "json_ok v" using JArr.prems(1) by simp
      from json_text_hd [OF this] vs that show thesis by (cases ws) auto
    qed
    ultimately show ?thesis
      using value_start_facts [OF cu(2)] unfolding tx by (simp add: n skip_ws_def json_ws_def)
  qed
next
  case (JObj kvs)
  have ok: "list_all (\<lambda>(k, v). json_ok v) kvs" "distinct (map fst kvs)" using JObj.prems(1) by auto
  have tx: "json_text (JObj kvs) = ''{'' @ join '','' (map member_text kvs) @ ''}''"
    by (rule stringify_obj [OF ok(1)])
  obtain m where n: "n = Suc m" using JObj.prems(3) tx by (cases n) auto
  show ?case
  proof (cases "kvs = []")
    case True
    then show ?thesis by (simp add: n skip_ws_def json_ws_def)
  next
    case False
    have el: "pval n (json_text (snd kv) @ t) = Some (snd kv, t)"
      if "kv \<in> set kvs" "val_end t" "2 * length (json_text (snd kv)) \<le> n" for kv n t
      using JObj.IH [OF that(1), of "snd kv"] ok(1) that by (cases kv) (auto simp: list_all_iff)
    have "pmembers m [] (join '','' (map member_text kvs) @ CHR ''}'' # t) = Some ([] @ kvs, t)"
      using JObj.prems(3) n tx ok(2) by (intro pmembers_print [OF False _ el]) auto
    moreover obtain u where "join '','' (map member_text kvs) @ CHR ''}'' # t = dquote # u"
      using False by (cases kvs; cases "tl kvs") (auto simp: json_quote_def)
    ultimately show ?thesis unfolding tx by (simp add: n skip_ws_def json_ws_def)
  qed
qed (rule pval_scalar; simp)+

theorem json_parse_stringify:
  assumes "json_ok v"
  shows "\<exists>t. stringify v = Some t \<and> json_parse t = Some v"
proof -
  have "pval (2 * length (json_text v) + 2) (json_text v @ []) = Some (v, [])"
    by (rule pval_print [OF assms]) (simp_all add: val_end_def)
  then show ?thesis
    using stringify_ok [OF assms] by (auto simp: json_parse_def skip_ws_def simp del: pval.simps)
qed

section \<open>Lemmas: the fuel is enough\<close>

lemma glue_SomeD: "glue p r = Some (w, t) \<Longrightarrow> \<exists>w'. r = Some (w', t)"
  by (auto simp: glue_def)

lemma pstring_shorter: "pstring s = Some (w, r) \<Longrightarrow> length r < length s"
proof (induction s arbitrary: w rule: pstring.induct)
  case 1
  then show ?case by simp
next
  case (2 c cs)
  show ?case
  proof (cases "c = dquote \<or> of_char c < (32 :: nat) \<or> c \<noteq> bslash")
    case True
    with 2 show ?thesis by (fastforce split: if_splits dest!: glue_SomeD)
  next
    case False
    then obtain e t where cs: "cs = e # t" using "2.prems" by (cases cs) auto
    show ?thesis
    proof (cases "e = CHR ''u''")
      case True
      then show ?thesis
        using "2.prems" "2.IH"(2,3) False cs
        by (fastforce split: option.splits if_splits dest!: glue_SomeD)
    next
      case e: False
      then obtain d where "json_unesc e = Some d" "glue [d] (pstring t) = Some (w, r)"
        using "2.prems" False cs by (auto split: option.splits)
      then show ?thesis using "2.IH"(4) [OF _ _ _ cs e] False cs by (fastforce dest!: glue_SomeD)
    qed
  qed
qed

lemma scan_frac_le: "scan_frac s = (f, t) \<Longrightarrow> length t \<le> length s"
  by (auto simp: scan_frac_def length_dropWhile_le le_SucI split: list.splits if_splits)

lemma scan_exp_le: "scan_exp s = (e, t) \<Longrightarrow> length t \<le> length s"
proof -
  have "length (dropWhile is_digit t) \<le> length t" for t
    by (rule length_dropWhile_le)
  then show "scan_exp s = (e, t) \<Longrightarrow> ?thesis"
    by (auto simp: scan_exp_def scan_sign_def Let_def le_SucI intro: le_trans split: list.splits if_splits prod.splits)
qed

lemma scan_decimal_shorter:
  assumes "scan_decimal s = Some (r, u)"
  shows "length u < length s"
proof -
  let ?d = "dropWhile is_digit s"
  obtain f t where f: "scan_frac ?d = (f, t)" by fastforce
  obtain e u' where e: "scan_exp t = (e, u')" by fastforce
  have "takeWhile is_digit s \<noteq> []" "u = u'"
    using assms f e by (auto simp: scan_decimal_def Let_def split: if_splits)
  then have "length ?d < length s"
    by (metis length_append length_greater_0_conv less_add_same_cancel2 takeWhile_dropWhile_id)
  with scan_frac_le [OF f] scan_exp_le [OF e] \<open>u = u'\<close> show ?thesis by simp
qed

lemma pliteral_shorter:
  assumes "pliteral s = Some (v, r)"
  shows "length r < length s"
proof -
  have num: "pnumber s = Some (v, r) \<Longrightarrow> length r < length s"
    using scan_decimal_shorter
    by (fastforce simp: pnumber_def Let_def split: if_splits)
  have "take n s = t \<Longrightarrow> t \<noteq> [] \<Longrightarrow> length (drop n s) < length s" if "0 < n" for n t
    using that by (cases s) auto
  then show ?thesis
    using assms num by (fastforce simp: pliteral_def split: if_splits)
qed

lemma skip_ws_le: "length (skip_ws s) \<le> length s"
  by (simp add: skip_ws_def length_dropWhile_le)

lemma skip_ws_Cons: "skip_ws s = c # t \<Longrightarrow> length t < length s"
  using skip_ws_le [of s] by simp


definition shorter :: "('a \<times> string) option \<Rightarrow> string \<Rightarrow> bool" where
  "shorter p s = (case p of None \<Rightarrow> True | Some (v, r) \<Rightarrow> length r < length s)"

lemma shorter_simps [simp]:
  "shorter None s" "shorter (Some (v, r)) s = (length r < length s)"
  by (simp_all add: shorter_def)

lemma shorter_trans: "shorter p t \<Longrightarrow> length t \<le> length s \<Longrightarrow> shorter (map_option (\<lambda>(v, r). (f v, r)) p) s"
  by (auto simp: shorter_def split: option.splits)

lemma shorter_pval:
  assumes "\<And>t. shorter (pelems n t) t" and "\<And>t. shorter (pmembers n [] t) t"
  shows "shorter (pval (Suc n) s) s"
proof (cases "skip_ws s")
  case Nil
  then show ?thesis by simp
next
  case (Cons c t)
  then have t: "length t < length s" by (rule skip_ws_Cons)
  then have d: "length (drop 1 (skip_ws t)) < length s" using skip_ws_le [of t] by simp
  have "shorter (pstring t) t" by (cases "pstring t") (auto dest: pstring_shorter)
  moreover have "shorter (pliteral (c # t)) s"
    using t pliteral_shorter [of "c # t"] skip_ws_le [of s] Cons by (cases "pliteral (c # t)") fastforce+
  ultimately show ?thesis
    using t d assms [of t] by (auto simp: Cons intro!: shorter_trans [where t = t])
qed

lemma shorter_pelems:
  assumes "\<And>t. shorter (pval n t) t" and "\<And>t. shorter (pelems n t) t"
  shows "shorter (pelems (Suc n) s) s"
proof (cases "pval n s")
  case None
  then show ?thesis by simp
next
  case (Some vr)
  obtain v r where vr: "vr = (v, r)" by (cases vr)
  then have "length r < length s" using assms(1) [of s] Some by simp
  then have "length t < length s" if "skip_ws r = c # t" for c t
    using skip_ws_Cons [OF that] by simp
  then show ?thesis
    using assms(2) by (auto simp: Some vr intro!: shorter_trans split: list.split)
qed

lemma shorter_pmembers:
  assumes "\<And>t. shorter (pval n t) t" and "\<And>acc t. shorter (pmembers n acc t) t"
  shows "shorter (pmembers (Suc n) acc s) s"
proof -
  have "length w < length s"
    if "skip_ws s = q # s'" "pstring s' = Some (k, r)" "pval n (drop 1 (skip_ws r)) = Some (v, r')" "skip_ws r' = c # w"
    for q s' k r v r' c w
  proof -
    have "length s' < length s" "length r < length s'" "length w < length r'"
      using that skip_ws_Cons pstring_shorter by blast+
    moreover have "length r' < length (drop 1 (skip_ws r))"
      using assms(1) [of "drop 1 (skip_ws r)"] that(3) by simp
    ultimately show ?thesis using skip_ws_le [of r] by simp
  qed
  moreover have "shorter (pmembers n acc' w) s" if "length w < length s" for acc' w
    using assms(2) [of acc' w] that by (cases "pmembers n acc' w") auto
  ultimately show ?thesis by (fastforce split: list.split option.split)
qed

lemma parser_shorter:
  "shorter (pval n s) s \<and> shorter (pelems n s) s \<and> shorter (pmembers n acc s) s"
  by (induction n arbitrary: s acc)
    (simp_all add: shorter_pval shorter_pelems shorter_pmembers del: pval.simps(2) pelems.simps(2) pmembers.simps(2))

lemma pval_shorter: "pval n s = Some (v, r) \<Longrightarrow> length r < length s"
  using parser_shorter [of n s] by simp

lemma fuel_step:
  "(2 * length s < n \<longrightarrow> pval (Suc n) s = pval n s) \<and>
   (2 * length s + 1 < n \<longrightarrow> pelems (Suc n) s = pelems n s) \<and>
   (2 * length s + 1 < n \<longrightarrow> pmembers (Suc n) acc s = pmembers n acc s)"
proof (induction n arbitrary: s acc)
  case 0
  then show ?case by simp
next
  case (Suc n)
  have "pval (Suc (Suc n)) s = pval (Suc n) s" if "2 * length s < Suc n"
  proof (cases "skip_ws s")
    case (Cons c t)
    then have "2 * length t + 1 < n" using skip_ws_Cons [OF Cons] that by simp
    then have "pelems (Suc n) t = pelems n t" "pmembers (Suc n) [] t = pmembers n [] t"
      using Suc.IH by blast+
    then show ?thesis unfolding pval.simps(2) Cons by simp
  qed simp
  moreover have "pelems (Suc (Suc n)) s = pelems (Suc n) s" if "2 * length s + 1 < Suc n"
  proof -
    have v: "pval (Suc n) s = pval n s" using Suc.IH that by simp
    have "pelems (Suc n) t = pelems n t" if "pval n s = Some (v, r)" "skip_ws r = c # t" for v r c t
      using pval_shorter [OF that(1)] skip_ws_Cons [OF that(2)] \<open>2 * length s + 1 < Suc n\<close> Suc.IH by simp
    then show ?thesis unfolding pelems.simps(2) v by (auto split: option.splits list.splits)
  qed
  moreover have "pmembers (Suc (Suc n)) acc s = pmembers (Suc n) acc s" if "2 * length s + 1 < Suc n"
  proof -
    have "pval (Suc n) (drop 1 (skip_ws r)) = pval n (drop 1 (skip_ws r))"
      if "skip_ws s = q # s'" "pstring s' = Some (k, r)" for q s' k r
      using pstring_shorter [OF that(2)] skip_ws_Cons [OF that(1)] skip_ws_le [of r]
        \<open>2 * length s + 1 < Suc n\<close> Suc.IH by simp
    moreover have "pmembers (Suc n) acc' t = pmembers n acc' t"
      if "skip_ws s = q # s'" "pstring s' = Some (k, r)" "pval n (drop 1 (skip_ws r)) = Some (v, r')"
        "skip_ws r' = c # t" for q s' k r v r' c t acc'
      using pstring_shorter [OF that(2)] skip_ws_Cons [OF that(1)] skip_ws_le [of r]
        pval_shorter [OF that(3)] skip_ws_Cons [OF that(4)] \<open>2 * length s + 1 < Suc n\<close> Suc.IH by simp
    ultimately show ?thesis unfolding pmembers.simps(2) by (auto split: option.splits list.splits)
  qed
  ultimately show ?case by blast
qed

lemma pval_fuel: "2 * length s < n \<Longrightarrow> pval (n + k) s = pval n s"
  by (induction k) (use fuel_step in \<open>simp_all del: pval.simps\<close>)

section \<open>Objects of a JSON text\<close>

text \<open>An object that was parsed has no key twice: a later member replaces an earlier one.\<close>

lemma parser_wf:
  "(\<forall>v r. pval n s = Some (v, r) \<longrightarrow> (\<forall>ob. v = JObj ob \<longrightarrow> wf_obj ob)) \<and>
   (\<forall>ob r. wf_obj acc \<longrightarrow> pmembers n acc s = Some (ob, r) \<longrightarrow> wf_obj ob)"
proof (induction n arbitrary: s acc)
  case 0
  then show ?case by simp
next
  case (Suc n)
  have "wf_obj []" by (simp add: wf_obj_def)
  with Suc.IH have m: "pmembers n [] t = Some (ob, r) \<Longrightarrow> wf_obj ob" for t ob r by blast
  have l: "pliteral t \<noteq> Some (JObj ob, r)" for t ob r
    by (auto simp: pliteral_def pnumber_def Let_def split: if_splits)
  have "\<forall>v r. pval (Suc n) s = Some (v, r) \<longrightarrow> (\<forall>ob. v = JObj ob \<longrightarrow> wf_obj ob)"
    using m l \<open>wf_obj []\<close> by (auto split: list.splits if_splits)
  moreover have "\<forall>ob r. wf_obj acc \<longrightarrow> pmembers (Suc n) acc s = Some (ob, r) \<longrightarrow> wf_obj ob"
  proof (intro allI impI)
    fix ob r
    assume a: "wf_obj acc" and p: "pmembers (Suc n) acc s = Some (ob, r)"
    then obtain k v t where "pmembers n (obj_set k v acc) t = Some (ob, r) \<or> ob = obj_set k v acc"
      by (fastforce split: list.splits option.splits if_splits)
    with a Suc.IH wf_obj_set show "wf_obj ob" by blast
  qed
  ultimately show ?case by blast
qed

lemma pval_wf: "pval n s = Some (JObj ob, r) \<Longrightarrow> wf_obj ob"
  using parser_wf [of n s] by blast

lemma json_parse_wf: "json_parse s = Some (JObj ob) \<Longrightarrow> wf_obj ob"
  unfolding json_parse_def by (auto split: option.splits if_splits prod.splits simp del: pval.simps dest: pval_wf)

end
