(* ===== verification/Errors.thy ===== *)
theory Errors
  imports Json
begin

text \<open>
  The error classes of \<open>errors.ts\<close> and the exceptions the language and the browser raise in
  the code, with the two fields handlers read: \<open>error\<close> and \<open>message\<close>.

  The text of a built-in exception is chosen by the engine; its class name stands for it. A
  popup window is known by a number. \<open>Thrown\<close> is a rejection with a text instead of an error object, which
  has neither field. \<open>NeverSettles\<close> stands for a promise that stays pending: the
  code after its \<open>await\<close> is never reached.
\<close>

datatype js_error =
    Error string
  | TypeError
  | SyntaxError
  | URIError
  | InvalidCharacterError
  | FetchFailure string
  | GenericError jsval jsval
  | AuthenticationError jsval jsval jsval jsval
  | TimeoutError
  | PopupTimeoutError nat
  | PopupCancelledError nat
  | MfaRequiredError jsval jsval jsval
  | Thrown string
  | NeverSettles

text \<open>\<open>super(error_description)\<close>: \<open>Error\<close> turns its argument into text unless it is undefined.\<close>

definition super_message :: "jsval \<Rightarrow> string" where
  "super_message d = (if d = JUndef then [] else to_string d)"

fun err_error :: "js_error \<Rightarrow> jsval" where
  "err_error (GenericError e d) = e"
| "err_error (AuthenticationError e d st app) = e"
| "err_error TimeoutError = JStr ''timeout''"
| "err_error (PopupTimeoutError w) = JStr ''timeout''"
| "err_error (PopupCancelledError w) = JStr ''cancelled''"
| "err_error (MfaRequiredError e d tok) = e"
| "err_error _ = JUndef"

fun err_message :: "js_error \<Rightarrow> string" where
  "err_message (Error m) = m"
| "err_message TypeError = ''TypeError''"
| "err_message SyntaxError = ''SyntaxError''"
| "err_message URIError = ''URIError''"
| "err_message InvalidCharacterError = ''InvalidCharacterError''"
| "err_message (FetchFailure m) = m"
| "err_message (GenericError e d) = super_message d"
| "err_message (AuthenticationError e d st app) = super_message d"
| "err_message TimeoutError = ''Timeout''"
| "err_message (PopupTimeoutError w) = ''Timeout''"
| "err_message (PopupCancelledError w) = ''Popup closed''"
| "err_message (MfaRequiredError e d tok) = super_message d"
| "err_message (Thrown v) = []"
| "err_message NeverSettles = []"

text \<open>\<open>e instanceof GenericError\<close>: every class of \<open>errors.ts\<close> extends it.\<close>

fun is_GenericError :: "js_error \<Rightarrow> bool" where
  "is_GenericError (GenericError e d) = True"
| "is_GenericError (AuthenticationError e d st app) = True"
| "is_GenericError TimeoutError = True"
| "is_GenericError (PopupTimeoutError w) = True"
| "is_GenericError (PopupCancelledError w) = True"
| "is_GenericError (MfaRequiredError e d tok) = True"
| "is_GenericError _ = False"

fun is_TimeoutError :: "js_error \<Rightarrow> bool" where
  "is_TimeoutError TimeoutError = True"
| "is_TimeoutError (PopupTimeoutError w) = True"
| "is_TimeoutError _ = False"

text \<open>\<open>GenericError.fromPayload\<close>.\<close>

definition fromPayload :: "obj \<Rightarrow> js_error" where
  "fromPayload p = GenericError (obj_get p ''error'') (obj_get p ''error_description'')"

text \<open>The constructor of \<open>AuthenticationError\<close>: without an application state it is \<open>null\<close>.\<close>

definition new_AuthenticationError :: "jsval \<Rightarrow> jsval \<Rightarrow> jsval \<Rightarrow> jsval \<Rightarrow> js_error" where
  "new_AuthenticationError error error_description state appState =
     AuthenticationError error error_description state (if appState = JUndef then JNull else appState)"

text \<open>Property access \<open>v.k\<close>: a \<open>TypeError\<close> on \<open>undefined\<close> and \<open>null\<close>.\<close>

definition js_prop :: "jsval \<Rightarrow> string \<Rightarrow> js_error + jsval" where
  "js_prop v k =
     (case v of
        JUndef \<Rightarrow> Inl TypeError
      | JNull \<Rightarrow> Inl TypeError
      | JObj ob \<Rightarrow> Inr (obj_get ob k)
      | _ \<Rightarrow> Inr JUndef)"

definition JSON_parse :: "string \<Rightarrow> js_error + jsval" where
  "JSON_parse s = (case json_parse s of None \<Rightarrow> Inl SyntaxError | Some v \<Rightarrow> Inr v)"

text \<open>The pairs \<open>(k, o[k])\<close> for the keys \<open>Object.keys(o)\<close> lists.\<close>

fun own_entries :: "jsval \<Rightarrow> js_error + obj" where
  "own_entries JUndef = Inl TypeError"
| "own_entries JNull = Inl TypeError"
| "own_entries (JObj ob) = Inr ob"
| "own_entries (JArr vs) = Inr (zip (map show_nat [0..<length vs]) vs)"
| "own_entries (JStr s) = Inr (zip (map show_nat [0..<length s]) (map (\<lambda>c. JStr [c]) s))"
| "own_entries _ = Inr []"

section \<open>Constants of the library\<close>

definition DEFAULT_AUTHORIZE_TIMEOUT_IN_SECONDS :: rat where
  "DEFAULT_AUTHORIZE_TIMEOUT_IN_SECONDS = 60"

definition DEFAULT_SILENT_TOKEN_RETRY_COUNT :: nat where
  "DEFAULT_SILENT_TOKEN_RETRY_COUNT = 3"

definition CLEANUP_IFRAME_TIMEOUT_IN_SECONDS :: rat where
  "CLEANUP_IFRAME_TIMEOUT_IN_SECONDS = 2"

definition DEFAULT_FETCH_TIMEOUT_MS :: rat where
  "DEFAULT_FETCH_TIMEOUT_MS = 10000"

definition CACHE_LOCATION_MEMORY :: string where
  "CACHE_LOCATION_MEMORY = ''memory''"

definition MISSING_REFRESH_TOKEN_ERROR_MESSAGE :: string where
  "MISSING_REFRESH_TOKEN_ERROR_MESSAGE = ''The web worker is missing the refresh token''"

definition INVALID_REFRESH_TOKEN_ERROR_MESSAGE :: string where
  "INVALID_REFRESH_TOKEN_ERROR_MESSAGE = ''invalid refresh token''"

definition DEFAULT_SCOPE :: string where
  "DEFAULT_SCOPE = ''openid profile email''"

definition RECOVERABLE_ERRORS :: "string list" where
  "RECOVERABLE_ERRORS =
     [''login_required'', ''consent_required'', ''interaction_required'',
      ''account_selection_required'', ''access_denied'']"

definition DEFAULT_SESSION_CHECK_EXPIRY_DAYS :: rat where
  "DEFAULT_SESSION_CHECK_EXPIRY_DAYS = 1"

definition DEFAULT_AUTHOK_CLIENT :: jsval where
  "DEFAULT_AUTHOK_CLIENT = JObj [(''name'', JStr ''authok-spa-js''), (''version'', JStr ''1.19.4'')]"

section \<open>Lemmas\<close>

lemma js_prop_obj [simp]: "js_prop (JObj ob) k = Inr (obj_get ob k)"
  by (simp add: js_prop_def)

lemma js_prop_truthy: "truthy v \<Longrightarrow> \<exists>x. js_prop v k = Inr x"
  by (cases v) (auto simp: js_prop_def)

lemma timeout_is_generic: "is_TimeoutError e \<Longrightarrow> is_GenericError e \<and> err_error e = JStr ''timeout''"
  by (cases e) auto

section \<open>What survives serialisation\<close>

text \<open>Properties of an object that \<open>JSON.stringify\<close> writes.\<close>

definition defined_props :: "obj \<Rightarrow> obj" where
  "defined_props ob = filter (\<lambda>(k, v). stringify v \<noteq> None) ob"

lemma stringify_defined: "stringify (JObj (defined_props ob)) = stringify (JObj ob)"
proof -
  let ?m = "\<lambda>(k, v). case stringify v of None \<Rightarrow> [] | Some t \<Rightarrow> [json_quote k @ '':'' @ t]"
  have "concat (map ?m (defined_props ob)) = concat (map ?m ob)"
    by (induction ob) (auto simp: defined_props_def split: option.split)
  then show ?thesis by (simp only: stringify.simps)
qed

lemma parse_defined:
  assumes "json_ok (JObj (defined_props ob))"
  obtains t where "stringify (JObj ob) = Some t" "JSON_parse t = Inr (JObj (defined_props ob))"
  using json_parse_stringify [OF assms] unfolding stringify_defined by (auto simp: JSON_parse_def)

end
