(* ===== verification/Cache.thy ===== *)
theory Cache
  imports Errors
begin

text \<open>
  The cache stores: \<open>cache/shared.ts\<close> (cache keys, the \<open>ICache\<close> interface),
  \<open>cache/cache-memory.ts\<close> and \<open>cache/cache-localstorage.ts\<close>.

  The in-memory cache hands out the very object it stores, and \<open>CacheManager.get\<close> assigns to
  a property of it, so objects live in an explicit heap: a reference is a number, the memory
  cache maps keys to references, and reading the local storage builds a fresh object. The
  contract of a cache is the locale \<open>icache_laws\<close> over the values a reader sees (\<open>view\<close>); it is
  interpreted for both built-in caches and for a custom cache without \<open>allKeys\<close>.

  Storage quota errors and rejected promises of custom caches are not represented.
\<close>

section \<open>Cache keys\<close>

definition CACHE_KEY_PREFIX :: string where
  "CACHE_KEY_PREFIX = ''@@authokspajs@@''"

record cache_key =
  ck_prefix :: jsval
  ck_client_id :: jsval
  ck_audience :: jsval
  ck_scope :: jsval

text \<open>\<open>new CacheKey({client_id, scope, audience})\<close> with the default prefix.\<close>

definition CacheKey :: "jsval \<Rightarrow> jsval \<Rightarrow> jsval \<Rightarrow> cache_key" where
  "CacheKey client_id audience scope =
     \<lparr>ck_prefix = JStr CACHE_KEY_PREFIX, ck_client_id = client_id, ck_audience = audience,
      ck_scope = scope\<rparr>"

definition toKey :: "cache_key \<Rightarrow> string" where
  "toKey k =
     to_string (ck_prefix k) @ ''::'' @ to_string (ck_client_id k) @ ''::'' @
     to_string (ck_audience k) @ ''::'' @ to_string (ck_scope k)"

definition piece :: "string list \<Rightarrow> nat \<Rightarrow> jsval" where
  "piece ps i = (if i < length ps then JStr (ps ! i) else JUndef)"

definition fromKey :: "string \<Rightarrow> cache_key" where
  "fromKey key =
     (let ps = split_on ''::'' key
      in \<lparr>ck_prefix = piece ps 0, ck_client_id = piece ps 1, ck_audience = piece ps 2,
          ck_scope = piece ps 3\<rparr>)"

definition fromCacheEntry :: "obj \<Rightarrow> cache_key" where
  "fromCacheEntry entry =
     CacheKey (obj_get entry ''client_id'') (obj_get entry ''audience'') (obj_get entry ''scope'')"

section \<open>Stores and the cache interface\<close>

record 'x store =
  heap :: "nat \<Rightarrow> jsval"
  next_ref :: nat
  mem :: "(string \<times> nat) list"
  localStorage :: "(string \<times> string) list"
  custom :: 'x

definition alloc :: "jsval \<Rightarrow> 'x store \<Rightarrow> nat \<times> 'x store" where
  "alloc v s = (next_ref s, s\<lparr>heap := (heap s)(next_ref s := v), next_ref := Suc (next_ref s)\<rparr>)"

definition assign :: "nat \<Rightarrow> jsval \<Rightarrow> 'x store \<Rightarrow> 'x store" where
  "assign a v s = s\<lparr>heap := (heap s)(a := v)\<rparr>"

text \<open>\<open>ICache\<close>; \<open>allKeys\<close> is optional. \<open>None\<close> from \<open>ic_get\<close> is \<open>undefined\<close>.\<close>

record 'x icache =
  ic_set :: "string \<Rightarrow> nat \<Rightarrow> 'x store \<Rightarrow> 'x store"
  ic_get :: "string \<Rightarrow> 'x store \<Rightarrow> nat option \<times> 'x store"
  ic_remove :: "string \<Rightarrow> 'x store \<Rightarrow> 'x store"
  ic_allKeys :: "('x store \<Rightarrow> string list) option"

section \<open>The in-memory cache\<close>

definition mem_set :: "string \<Rightarrow> nat \<Rightarrow> 'x store \<Rightarrow> 'x store" where
  "mem_set key entry s = s\<lparr>mem := AList.update key entry (mem s)\<rparr>"

definition mem_get :: "string \<Rightarrow> 'x store \<Rightarrow> nat option \<times> 'x store" where
  "mem_get key s =
     (case map_of (mem s) key of
        None \<Rightarrow> (None, s)
      | Some a \<Rightarrow> if truthy (heap s a) then (Some a, s) else (None, s))"

definition mem_remove :: "string \<Rightarrow> 'x store \<Rightarrow> 'x store" where
  "mem_remove key s = s\<lparr>mem := AList.delete key (mem s)\<rparr>"

definition mem_allKeys :: "'x store \<Rightarrow> string list" where
  "mem_allKeys s = map fst (mem s)"

definition InMemoryCache :: "'x icache" where
  "InMemoryCache = \<lparr>ic_set = mem_set, ic_get = mem_get, ic_remove = mem_remove,
     ic_allKeys = Some mem_allKeys\<rparr>"

section \<open>The local-storage cache\<close>

text \<open>\<open>setItem\<close> turns its value into text, so \<open>undefined\<close> is stored as that word.\<close>

definition local_set :: "string \<Rightarrow> nat \<Rightarrow> 'x store \<Rightarrow> 'x store" where
  "local_set key entry s =
     s\<lparr>localStorage := AList.update key
        (case stringify (heap s entry) of None \<Rightarrow> ''undefined'' | Some t \<Rightarrow> t) (localStorage s)\<rparr>"

definition local_get :: "string \<Rightarrow> 'x store \<Rightarrow> nat option \<times> 'x store" where
  "local_get key s =
     (case map_of (localStorage s) key of
        None \<Rightarrow> (None, s)
      | Some json \<Rightarrow>
          if json = [] then (None, s)
          else (case json_parse json of
                  None \<Rightarrow> (None, s)
                | Some payload \<Rightarrow> (case alloc payload s of (a, s') \<Rightarrow> (Some a, s'))))"

definition local_remove :: "string \<Rightarrow> 'x store \<Rightarrow> 'x store" where
  "local_remove key s = s\<lparr>localStorage := AList.delete key (localStorage s)\<rparr>"

definition local_allKeys :: "'x store \<Rightarrow> string list" where
  "local_allKeys s = filter (\<lambda>key. js_startsWith key CACHE_KEY_PREFIX) (map fst (localStorage s))"

definition LocalStorageCache :: "'x icache" where
  "LocalStorageCache = \<lparr>ic_set = local_set, ic_get = local_get, ic_remove = local_remove,
     ic_allKeys = Some local_allKeys\<rparr>"

section \<open>The contract of a cache\<close>

text \<open>
  \<open>view s k\<close> is the value a reader of key \<open>k\<close> gets; \<open>ok\<close> are the values the cache keeps
  unchanged.
\<close>

locale icache_laws =
  fixes C :: "'x icache"
    and view :: "'x store \<Rightarrow> string \<Rightarrow> jsval option"
    and ok :: "jsval \<Rightarrow> bool"
    and wf :: "'x store \<Rightarrow> bool"
  assumes get_None: "wf s \<Longrightarrow> ic_get C k s = (None, s') \<Longrightarrow> view s k = None \<and> s' = s"
    and get_Some: "wf s \<Longrightarrow> ic_get C k s = (Some a, s') \<Longrightarrow>
          view s k = Some (heap s' a) \<and> view s' = view s \<and> wf s' \<and> a < next_ref s'"
    and get_frame: "wf s \<Longrightarrow> ic_get C k s = (r, s') \<Longrightarrow> next_ref s \<le> next_ref s' \<and>
          (\<forall>a < next_ref s. heap s' a = heap s a)"
    and view_set: "wf s \<Longrightarrow> a < next_ref s \<Longrightarrow> ok (heap s a) \<Longrightarrow>
          view (ic_set C k a s) = (view s)(k \<mapsto> heap s a)"
    and wf_set: "wf s \<Longrightarrow> a < next_ref s \<Longrightarrow> wf (ic_set C k a s)"
    and set_frame: "next_ref (ic_set C k a s) = next_ref s" "heap (ic_set C k a s) = heap s"
    and view_remove: "wf s \<Longrightarrow> view (ic_remove C k s) = (view s)(k := None)"
    and wf_remove: "wf s \<Longrightarrow> wf (ic_remove C k s)"
    and view_alloc: "wf s \<Longrightarrow> view (snd (alloc v s)) = view s"
    and wf_alloc: "wf s \<Longrightarrow> wf (snd (alloc v s))"
    and view_assign: "wf s \<Longrightarrow> ok v \<Longrightarrow> truthy (heap s a) \<Longrightarrow> view (assign a v s) k = view s k \<or>
          view s k = Some (heap s a) \<and> view (assign a v s) k = Some v"
    and wf_assign: "wf s \<Longrightarrow> wf (assign a v s)"
begin

text \<open>Storing a fresh object under a key: what every writer of the library does.\<close>

lemma view_set_alloc:
  assumes "wf s" and "ok v" and "alloc v s = (a, s')"
  shows "view (ic_set C k a s') = (view s)(k \<mapsto> v)" and "wf (ic_set C k a s')"
proof -
  have s': "s' = snd (alloc v s)" and a: "a = next_ref s" "heap s' a = v" "a < next_ref s'"
    using assms(3) by (auto simp: alloc_def)
  have "wf s'" and "view s' = view s"
    unfolding s' using assms(1) by (simp_all add: wf_alloc view_alloc)
  then show "view (ic_set C k a s') = (view s)(k \<mapsto> v)" and "wf (ic_set C k a s')"
    using view_set [of s' a k] wf_set [of s' a k] a assms(2) by simp_all
qed

lemma get_view:
  assumes "wf s"
  shows "(case ic_get C k s of (None, s') \<Rightarrow> view s k = None | (Some a, s') \<Rightarrow> view s k = Some (heap s' a))"
  using get_None [OF assms] get_Some [OF assms] by (auto split: prod.split option.split)

lemma get_keeps_view:
  assumes "wf s" and "ic_get C k s = (r, s')"
  shows "view s' = view s" and "wf s'"
  using assms get_None [of s k s'] get_Some [of s k _ s'] by (cases r; auto)+

lemma view_remove_all:
  assumes "wf s"
  shows "wf (fold (ic_remove C) ks s) \<and> view (fold (ic_remove C) ks s) = (\<lambda>k. if k \<in> set ks then None else view s k)"
  using assms
proof (induction ks arbitrary: s)
  case Nil
  then show ?case by simp
next
  case (Cons k ks)
  then show ?case by (simp add: wf_remove view_remove fun_eq_iff)
qed

end

text \<open>A cache that lists its keys lists every key of the library that has a value.\<close>

locale icache_listing = icache_laws +
  fixes keys :: "'a store \<Rightarrow> string list"
  assumes allKeys: "ic_allKeys C = Some keys"
    and keys_complete: "wf s \<Longrightarrow> js_startsWith k CACHE_KEY_PREFIX \<Longrightarrow> view s k \<noteq> None \<Longrightarrow> k \<in> set (keys s)"
begin

text \<open>Removing all listed keys removes every value of the library.\<close>

lemma remove_all_listed:
  assumes "wf s" and "js_startsWith k CACHE_KEY_PREFIX"
  shows "view (fold (ic_remove C) (keys s) s) k = None"
  using view_remove_all [OF assms(1), of "keys s"] keys_complete [OF assms] by (cases "view s k") auto

end

section \<open>The built-in caches fulfil it\<close>

definition wf_store :: "'x store \<Rightarrow> bool" where
  "wf_store s = (\<forall>(k, a) \<in> set (mem s). a < next_ref s)"

definition mem_view :: "'x store \<Rightarrow> string \<Rightarrow> jsval option" where
  "mem_view s k =
     (case map_of (mem s) k of
        None \<Rightarrow> None
      | Some a \<Rightarrow> if truthy (heap s a) then Some (heap s a) else None)"

definition local_view :: "'x store \<Rightarrow> string \<Rightarrow> jsval option" where
  "local_view s k =
     (case map_of (localStorage s) k of
        None \<Rightarrow> None
      | Some json \<Rightarrow> if json = [] then None else json_parse json)"

lemmas cache_defs = InMemoryCache_def LocalStorageCache_def mem_set_def mem_get_def mem_remove_def
  local_set_def local_get_def local_remove_def

lemma wf_store_ref: "wf_store s \<Longrightarrow> map_of (mem s) k = Some a \<Longrightarrow> a < next_ref s"
  by (auto simp: wf_store_def dest: map_of_SomeD)

lemma set_AList_update: "set (AList.update k v al) \<subseteq> insert (k, v) (set al)"
  by (induction al) auto

lemma wf_store_update: "wf_store s \<Longrightarrow> a < next_ref s \<Longrightarrow> wf_store (s\<lparr>mem := AList.update k a (mem s)\<rparr>)"
  using set_AList_update [of k a "mem s"] by (auto simp: wf_store_def)

lemma wf_store_delete: "wf_store s \<Longrightarrow> wf_store (s\<lparr>mem := AList.delete k (mem s)\<rparr>)"
  by (auto simp: wf_store_def AList.delete_eq)

lemma wf_store_alloc: "wf_store s \<Longrightarrow> wf_store (snd (alloc v s))"
  by (fastforce simp: wf_store_def alloc_def)

lemma mem_view_alloc:
  assumes "wf_store s"
  shows "mem_view (snd (alloc v s)) = mem_view s"
proof
  fix k
  show "mem_view (snd (alloc v s)) k = mem_view s k"
    using wf_store_ref [OF assms, of k] by (auto simp: mem_view_def alloc_def split: option.split)
qed

lemma mem_view_assign:
  "truthy v \<Longrightarrow> truthy (heap s a) \<Longrightarrow> mem_view (assign a v s) k = mem_view s k \<or>
     mem_view s k = Some (heap s a) \<and> mem_view (assign a v s) k = Some v"
  by (auto simp: mem_view_def assign_def split: option.split)

lemma wf_store_assign: "wf_store s \<Longrightarrow> wf_store (assign a v s)"
  by (simp add: wf_store_def assign_def)

lemma memory_laws: "icache_laws InMemoryCache mem_view truthy wf_store"
proof (unfold_locales, goal_cases)
  case (4 s a k)
  then show ?case
    by (auto simp: fun_eq_iff mem_view_def cache_defs AList.update_conv' split: option.split)
next
  case (12 s v a k)
  then show ?case by (intro mem_view_assign)
next
  case (8 s k)
  then show ?case
    by (auto simp: fun_eq_iff mem_view_def cache_defs AList.delete_conv' split: option.split)
qed (auto simp: cache_defs wf_store_update wf_store_delete wf_store_alloc mem_view_alloc wf_store_assign
      mem_view_def [of _ "_ :: string"]
    dest: wf_store_ref split: option.splits if_splits)

lemma stringify_not_Nil: "stringify v \<noteq> Some []"
proof (cases v)
  case (JNum r)
  then show ?thesis by (simp add: num_to_string_text dec_text_def)
qed (auto simp: json_quote_def)

lemma local_view_set:
  assumes "json_ok (heap s a)"
  shows "local_view (local_set k a s) = (local_view s)(k \<mapsto> heap s a)"
proof -
  obtain t where t: "stringify (heap s a) = Some t" "json_parse t = Some (heap s a)"
    using json_parse_stringify [OF assms] by blast
  then have "t \<noteq> []" using stringify_not_Nil by metis
  with t show ?thesis
    by (auto simp: fun_eq_iff local_view_def local_set_def AList.update_conv')
qed

lemma local_laws: "icache_laws LocalStorageCache local_view json_ok wf_store"
proof (unfold_locales, goal_cases)
  case (4 s a k)
  then show ?case using local_view_set [of s a k] by (simp add: LocalStorageCache_def)
next
  case (8 s k)
  then show ?case
    by (auto simp: fun_eq_iff local_view_def cache_defs AList.delete_conv')
qed (fastforce simp: cache_defs alloc_def assign_def local_view_def wf_store_def less_Suc_eq
    split: option.splits if_splits)+

interpretation memory: icache_listing InMemoryCache mem_view truthy wf_store mem_allKeys
proof (intro icache_listing.intro memory_laws icache_listing_axioms.intro)
  show "ic_allKeys InMemoryCache = Some mem_allKeys" by (simp add: InMemoryCache_def)
  show "k \<in> set (mem_allKeys s)" if "mem_view s k \<noteq> None" for s :: "'a store" and k
    using that by (auto simp: mem_view_def mem_allKeys_def split: option.splits dest: map_of_SomeD intro: rev_image_eqI)
qed

interpretation local: icache_listing LocalStorageCache local_view json_ok wf_store local_allKeys
proof (intro icache_listing.intro local_laws icache_listing_axioms.intro)
  show "ic_allKeys LocalStorageCache = Some local_allKeys" by (simp add: LocalStorageCache_def)
  show "k \<in> set (local_allKeys s)"
    if "js_startsWith k CACHE_KEY_PREFIX" "local_view s k \<noteq> None" for s :: "'a store" and k
    using that by (auto simp: local_view_def local_allKeys_def split: option.splits dest: map_of_SomeD intro: rev_image_eqI)
qed

text \<open>A cache of the application's own that keeps objects in memory and has no \<open>allKeys\<close>.\<close>

definition PlainMemoryCache :: "'x icache" where
  "PlainMemoryCache = \<lparr>ic_set = mem_set, ic_get = mem_get, ic_remove = mem_remove, ic_allKeys = None\<rparr>"

interpretation plain: icache_laws PlainMemoryCache mem_view truthy wf_store
  using memory_laws unfolding icache_laws_def PlainMemoryCache_def InMemoryCache_def by simp

section \<open>A cache is a map\<close>

text \<open>
  The abstract cache is a map from keys to values. A program that uses a cache is a list of
  operations; what it sees are the results of its reads.
\<close>

datatype cache_op = OpSet string jsval | OpGet string | OpRemove string

fun cache_run :: "'x icache \<Rightarrow> cache_op list \<Rightarrow> 'x store \<Rightarrow> jsval option list \<times> 'x store" where
  "cache_run C [] s = ([], s)"
| "cache_run C (OpSet k v # ops) s = (case alloc v s of (a, s') \<Rightarrow> cache_run C ops (ic_set C k a s'))"
| "cache_run C (OpGet k # ops) s =
     (case ic_get C k s of (r, s') \<Rightarrow>
      case cache_run C ops s' of (rs, s'') \<Rightarrow> (map_option (heap s') r # rs, s''))"
| "cache_run C (OpRemove k # ops) s = cache_run C ops (ic_remove C k s)"

fun map_run :: "cache_op list \<Rightarrow> (string \<Rightarrow> jsval option) \<Rightarrow> jsval option list \<times> (string \<Rightarrow> jsval option)" where
  "map_run [] m = ([], m)"
| "map_run (OpSet k v # ops) m = map_run ops (m(k \<mapsto> v))"
| "map_run (OpGet k # ops) m = (case map_run ops m of (rs, m') \<Rightarrow> (m k # rs, m'))"
| "map_run (OpRemove k # ops) m = map_run ops (m(k := None))"

fun stores_only :: "(jsval \<Rightarrow> bool) \<Rightarrow> cache_op \<Rightarrow> bool" where
  "stores_only P (OpSet k v) = P v"
| "stores_only P (OpGet k) = True"
| "stores_only P (OpRemove k) = True"

context icache_laws
begin

lemma cache_run_map:
  assumes "wf s" and "list_all (stores_only ok) ops" and "cache_run C ops s = (rs, s')"
  shows "map_run ops (view s) = (rs, view s') \<and> wf s'"
  using assms
proof (induction ops arbitrary: s rs)
  case Nil
  then show ?case by simp
next
  case (Cons op ops)
  show ?case
  proof (cases op)
    case (OpSet k v)
    obtain a s1 where a: "alloc v s = (a, s1)" by (cases "alloc v s")
    with Cons.prems OpSet have "cache_run C ops (ic_set C k a s1) = (rs, s')" "ok v" "list_all (stores_only ok) ops" by simp_all
    with view_set_alloc [OF Cons.prems(1) _ a, of k] Cons.IH show ?thesis by (fastforce simp: OpSet)
  next
    case (OpGet k)
    obtain r s1 rs1 where r: "ic_get C k s = (r, s1)" "cache_run C ops s1 = (rs1, s')" "rs = map_option (heap s1) r # rs1"
      using Cons.prems(3) OpGet by (auto split: prod.splits)
    have "view s1 = view s" "wf s1" using get_keeps_view [OF Cons.prems(1) r(1)] by simp_all
    moreover have "view s k = map_option (heap s1) r"
      using get_view [OF Cons.prems(1), of k] r(1) by (cases r) auto
    ultimately show ?thesis using Cons.IH [OF _ _ r(2)] Cons.prems(2) by (simp add: OpGet r(3))
  next
    case (OpRemove k)
    then show ?thesis
      using Cons.IH [OF wf_remove [OF Cons.prems(1)], of k rs] Cons.prems(2,3)
      by (simp add: view_remove [OF Cons.prems(1)] fun_upd_def)
  qed
qed

end



section \<open>Reading a cache key back\<close>

text \<open>A part of a key that splitting keeps together: no \<open>::\<close> inside and no \<open>:\<close> at its end.\<close>

definition key_part :: "string \<Rightarrow> bool" where
  "key_part w = (\<not> js_includes w ''::'' \<and> (w = [] \<or> last w \<noteq> CHR '':''))"

lemma key_part_safe: "key_part w \<Longrightarrow> sep_safe ''::'' w"
proof (induction w)
  case Nil
  then show ?case by simp
next
  case (Cons c w)
  then have "key_part w" by (auto simp: key_part_def split: if_splits)
  moreover have "take 2 (c # w @ ''::'') \<noteq> ''::''"
    using Cons.prems by (cases w) (auto simp: key_part_def)
  ultimately show ?case using Cons.IH by simp
qed

lemma split_toKey:
  assumes "key_part p" "key_part c" "key_part a" "\<not> js_includes sc ''::''"
  shows "split_on ''::'' (p @ ''::'' @ c @ ''::'' @ a @ ''::'' @ sc) = [p, c, a, sc]"
  using assms split_on_safe [of "''::''" p] split_on_safe [of "''::''" c] split_on_safe [of "''::''" a]
    split_on_no_sep [of sc "''::''"] by (simp add: key_part_safe)

lemma fromKey_parts:
  assumes "key_part p" "key_part c" "key_part a" "\<not> js_includes sc ''::''"
  shows "fromKey (p @ ''::'' @ c @ ''::'' @ a @ ''::'' @ sc) =
    \<lparr>ck_prefix = JStr p, ck_client_id = JStr c, ck_audience = JStr a, ck_scope = JStr sc\<rparr>"
  unfolding fromKey_def split_toKey [OF assms] by (simp add: piece_def)

lemma key_part_prefix: "key_part CACHE_KEY_PREFIX"
  by (simp add: key_part_def CACHE_KEY_PREFIX_def)

end
