(* ===== verification/Scope.thy ===== *)
theory Scope
  imports Errors
begin

text \<open>
  \<open>scope.ts\<close>: the union of scope lists. Missing scopes (\<open>undefined\<close>, \<open>null\<close>) count as empty
  text, as \<open>Array.prototype.join\<close> has it; white space is the ASCII part of \<open>\s\<close> (scope tokens
  are ASCII). \<open>getUniqueScopes_tokens\<close> relates the code to the list of distinct tokens in
  order of first occurrence.
\<close>

text \<open>\<open>s.split(/\s+/)\<close>.\<close>

function split_ws :: "string \<Rightarrow> string list" where
  "split_ws [] = [[]]"
| "split_ws (c # cs) =
     (if is_ws c then [] # split_ws (dropWhile is_ws cs) else cons_hd c (split_ws cs))"
  by pat_completeness auto
termination
  by (relation "measure length") (auto simp: length_dropWhile_le le_imp_less_Suc)

definition dedupe :: "string list \<Rightarrow> string list" where
  "dedupe arr = dedup arr"

definition join_text :: "jsval \<Rightarrow> string" where
  "join_text v = (if v = JUndef \<or> v = JNull then [] else to_string v)"

definition getUniqueScopes :: "jsval list \<Rightarrow> string" where
  "getUniqueScopes scopes =
     join '' '' (dedupe (split_ws (js_trim (join '' '' (map join_text scopes)))))"

text \<open>The tokens of a text: its maximal runs of characters that are no white space.\<close>

fun ws_pieces :: "string \<Rightarrow> string list" where
  "ws_pieces [] = [[]]"
| "ws_pieces (c # cs) = (if is_ws c then [] # ws_pieces cs else cons_hd c (ws_pieces cs))"

definition tokens :: "string \<Rightarrow> string list" where
  "tokens s = filter (\<lambda>w. w \<noteq> []) (ws_pieces s)"

section \<open>Lemmas\<close>

lemma cons_hd_append: "ws \<noteq> [] \<Longrightarrow> cons_hd c (ws @ vs) = cons_hd c ws @ vs"
  by (cases ws) auto

lemma ws_pieces_not_Nil [simp]: "ws_pieces s \<noteq> []"
  by (cases s) auto

lemma ws_pieces_append: "is_ws c \<Longrightarrow> ws_pieces (a @ c # b) = ws_pieces a @ ws_pieces b"
  by (induction a) (auto simp: cons_hd_append)

lemma tokens_sep: "is_ws c \<Longrightarrow> tokens (a @ c # b) = tokens a @ tokens b"
  by (simp add: tokens_def ws_pieces_append)

lemma tokens_Nil [simp]: "tokens [] = []"
  by (simp add: tokens_def)

lemma tokens_ws [simp]: "is_ws c \<Longrightarrow> tokens (c # s) = tokens s"
  using tokens_sep [of c "[]"] by simp

lemma space_ws [simp]: "is_ws (CHR '' '')"
  by (simp add: is_ws_def)

lemma tokens_join: "tokens (join '' '' ws) = concat (map tokens ws)"
  by (induction "'' ''" ws rule: join.induct) (simp_all add: tokens_sep)

lemma tokens_dropWhile [simp]: "tokens (dropWhile is_ws s) = tokens s"
  by (induction s) auto

lemma tokens_snoc_ws: "is_ws c \<Longrightarrow> tokens (s @ [c]) = tokens s"
  using tokens_sep [of c s "[]"] by simp

lemma tokens_rev_dropWhile: "tokens (rev (dropWhile is_ws (rev s))) = tokens s"
  by (induction s rule: rev_induct) (auto simp: tokens_snoc_ws)

lemma tokens_trim [simp]: "tokens (js_trim s) = tokens s"
  by (simp add: js_trim_def tokens_rev_dropWhile)

lemma split_ws_not_Nil [simp]: "split_ws s \<noteq> []"
  by (induction s rule: split_ws.induct) auto

lemma split_ws_pieces:
  "hd (split_ws s) = hd (ws_pieces s) \<and>
   filter (\<lambda>w. w \<noteq> []) (tl (split_ws s)) = filter (\<lambda>w. w \<noteq> []) (tl (ws_pieces s))"
proof (induction s rule: split_ws.induct)
  case 1
  show ?case by simp
next
  case (2 c cs)
  show ?case
  proof (cases "is_ws c")
    case True
    have eq: "filter (\<lambda>w. w \<noteq> []) xs = filter (\<lambda>w. w \<noteq> []) ys"
      if "xs \<noteq> []" "ys \<noteq> []" "hd xs = hd ys"
        "filter (\<lambda>w. w \<noteq> []) (tl xs) = filter (\<lambda>w. w \<noteq> []) (tl ys)" for xs ys :: "string list"
      using that by (cases xs; cases ys) auto
    have "filter (\<lambda>w. w \<noteq> []) (split_ws (dropWhile is_ws cs)) = tokens (dropWhile is_ws cs)"
      using "2.IH"(1) [OF True] unfolding tokens_def by (auto intro: eq [OF split_ws_not_Nil ws_pieces_not_Nil])
    then have "filter (\<lambda>w. w \<noteq> []) (split_ws (dropWhile is_ws cs)) = filter (\<lambda>w. w \<noteq> []) (ws_pieces cs)"
      by (simp only: tokens_dropWhile) (simp only: tokens_def)
    with True show ?thesis by simp
  next
    case False
    with "2.IH"(2) show ?thesis
      by (cases "split_ws cs"; cases "ws_pieces cs") auto
  qed
qed

lemma split_ws_solid:
  assumes "s \<noteq> []" and "\<not> is_ws (last s)"
  shows "[] \<notin> set (tl (split_ws s)) \<and> (\<not> is_ws (hd s) \<longrightarrow> hd (split_ws s) \<noteq> [])"
  using assms
proof (induction s rule: split_ws.induct)
  case 1
  then show ?case by simp
next
  case (2 c cs)
  show ?case
  proof (cases "is_ws c")
    case True
    let ?r = "dropWhile is_ws cs"
    have "?r \<noteq> []" and "\<not> is_ws (last ?r)"
      using True "2.prems" by (auto simp: dropWhile_eq_Nil_conv last_in_set split: if_splits)
        (metis dropWhile_eq_Nil_conv last_appendR last_in_set takeWhile_dropWhile_id)+
    moreover have "\<not> is_ws (hd ?r)" using \<open>?r \<noteq> []\<close> by (rule hd_dropWhile)
    ultimately have "[] \<notin> set (split_ws ?r)"
      using "2.IH"(1) [OF True] by (cases "split_ws ?r") auto
    with True show ?thesis by simp
  next
    case False
    show ?thesis
    proof (cases "cs = []")
      case True
      with False show ?thesis by simp
    next
      case c: False
      then have "[] \<notin> set (tl (split_ws cs))"
        using "2.IH"(2) [OF False] "2.prems" by simp
      with False show ?thesis by (cases "split_ws cs") auto
    qed
  qed
qed

lemma js_trim_solid:
  assumes "js_trim s \<noteq> []"
  shows "\<not> is_ws (hd (js_trim s))" and "\<not> is_ws (last (js_trim s))"
proof -
  let ?t = "dropWhile is_ws s"
  have r: "dropWhile is_ws (rev ?t) \<noteq> []" using assms by (simp add: js_trim_def)
  then show "\<not> is_ws (last (js_trim s))"
    by (simp add: js_trim_def last_rev hd_dropWhile)
  have t: "?t \<noteq> []" using r by (metis dropWhile.simps(1) rev.simps(1))
  obtain u where "rev ?t = u @ dropWhile is_ws (rev ?t)"
    by (metis takeWhile_dropWhile_id)
  then have "?t = js_trim s @ rev u"
    unfolding js_trim_def by (metis rev_append rev_rev_ident)
  then have "hd ?t = hd (js_trim s)" using assms by (metis hd_append2)
  with hd_dropWhile [OF t] show "\<not> is_ws (hd (js_trim s))" by simp
qed

lemma split_ws_trim:
  "split_ws (js_trim s) = (if tokens s = [] then [[]] else tokens s)"
proof (cases "js_trim s = []")
  case True
  then have "tokens s = []" using tokens_trim [of s] by simp
  with True show ?thesis by simp
next
  case False
  from split_ws_solid [OF False js_trim_solid(2) [OF False]] js_trim_solid(1) [OF False]
  have solid: "[] \<notin> set (split_ws (js_trim s))"
    by (cases "split_ws (js_trim s)") auto
  have "filter (\<lambda>w. w \<noteq> []) (split_ws (js_trim s)) = tokens (js_trim s)"
    using split_ws_pieces [of "js_trim s"] unfolding tokens_def
    by (cases "split_ws (js_trim s)"; cases "ws_pieces (js_trim s)") auto
  moreover have "filter (\<lambda>w. w \<noteq> []) (split_ws (js_trim s)) = split_ws (js_trim s)"
    using solid by (auto simp: filter_id_conv)
  ultimately show ?thesis by (metis split_ws_not_Nil tokens_trim)
qed

text \<open>The code computes the distinct tokens of all arguments, in order of first occurrence.\<close>

lemma getUniqueScopes_tokens:
  "getUniqueScopes scopes = join '' '' (dedup (concat (map (tokens \<circ> join_text) scopes)))"
proof -
  let ?ts = "concat (map (tokens \<circ> join_text) scopes)"
  have "tokens (join '' '' (map join_text scopes)) = ?ts"
    by (simp add: tokens_join)
  then have "getUniqueScopes scopes = join '' '' (dedup (if ?ts = [] then [[]] else ?ts))"
    by (simp only: getUniqueScopes_def dedupe_def split_ws_trim)
  then show ?thesis by (cases "?ts = []") (simp_all only: dedup_def, simp_all)
qed

lemma tokens_solid: "w \<in> set (tokens s) \<Longrightarrow> w \<noteq> [] \<and> (\<forall>c \<in> set w. \<not> is_ws c)"
proof -
  have "w \<in> set (ws_pieces s) \<Longrightarrow> c \<in> set w \<Longrightarrow> \<not> is_ws c" for c
  proof (induction s arbitrary: w)
    case (Cons d s)
    then show ?case by (cases "ws_pieces s") (fastforce split: if_splits)+
  qed simp
  then show "w \<in> set (tokens s) \<Longrightarrow> ?thesis" by (auto simp: tokens_def)
qed

lemma tokens_word: "w \<noteq> [] \<Longrightarrow> (\<And>c. c \<in> set w \<Longrightarrow> \<not> is_ws c) \<Longrightarrow> tokens w = [w]"
proof -
  have "(\<And>c. c \<in> set w \<Longrightarrow> \<not> is_ws c) \<Longrightarrow> ws_pieces w = [w]"
    by (induction w) auto
  then show "w \<noteq> [] \<Longrightarrow> (\<And>c. c \<in> set w \<Longrightarrow> \<not> is_ws c) \<Longrightarrow> ?thesis"
    by (simp add: tokens_def)
qed

lemma tokens_getUniqueScopes:
  "tokens (getUniqueScopes scopes) = dedup (concat (map (tokens \<circ> join_text) scopes))"
proof -
  let ?ts = "dedup (concat (map (tokens \<circ> join_text) scopes))"
  have "tokens w = [w]" if w: "w \<in> set ?ts" for w
  proof -
    obtain v where "w \<in> set (tokens (join_text v))" using w by auto
    then show ?thesis using tokens_solid by (intro tokens_word) blast+
  qed
  moreover have "concat (map tokens ws) = ws" if "\<And>w. w \<in> set ws \<Longrightarrow> tokens w = [w]" for ws
    using that by (induction ws) auto
  ultimately have "concat (map tokens ?ts) = ?ts" by blast
  then show ?thesis by (simp add: getUniqueScopes_tokens tokens_join)
qed

lemma join_text_Str [simp]: "join_text (JStr s) = s" "join_text JUndef = []" "join_text JNull = []"
  by (simp_all add: join_text_def)

section \<open>Properties\<close>

text \<open>
  C40: joining scopes gives their distinct words, in order of first occurrence, separated by single
  spaces; the result has no word twice, and joining it again changes nothing.
\<close>

theorem getUniqueScopes_union:
  "getUniqueScopes scopes = join '' '' (dedup (concat (map (tokens \<circ> join_text) scopes))) \<and>
   distinct (tokens (getUniqueScopes scopes)) \<and>
   getUniqueScopes [JStr (getUniqueScopes scopes)] = getUniqueScopes scopes"
proof -
  have "distinct (tokens (getUniqueScopes scopes))" by (simp add: tokens_getUniqueScopes)
  moreover have "getUniqueScopes [JStr (getUniqueScopes scopes)] = getUniqueScopes scopes"
    by (simp add: getUniqueScopes_tokens [of "[_]"] tokens_getUniqueScopes) (simp add: getUniqueScopes_tokens)
  ultimately show ?thesis using getUniqueScopes_tokens by blast
qed

end
