(* ===== verification/Cache_Manager.thy ===== *)
theory Cache_Manager
  imports Cache Scope
begin

text \<open>
  \<open>cache/key-manifest.ts\<close> and \<open>cache/cache-manager.ts\<close>. A manager owns a cache, the client id
  of its key manifest (\<open>None\<close>: no manifest) and reads the clock at most once per operation;
  that reading (milliseconds) is the argument \<open>now\<close>.
\<close>

section \<open>The key manifest\<close>

definition createManifestKeyFrom :: "string \<Rightarrow> string" where
  "createManifestKeyFrom clientId = CACHE_KEY_PREFIX @ ''::'' @ clientId"

text \<open>\<open>o?.keys\<close> of an object a cache handed out.\<close>

definition keys_of :: "nat option \<Rightarrow> 'x store \<Rightarrow> jsval" where
  "keys_of r s =
     (case r of
        None \<Rightarrow> JUndef
      | Some a \<Rightarrow> (case js_prop (heap s a) ''keys'' of Inl e \<Rightarrow> JUndef | Inr v \<Rightarrow> v))"

text \<open>The elements \<open>new Set(v)\<close> iterates over.\<close>

fun set_elems :: "jsval \<Rightarrow> js_error + jsval list" where
  "set_elems (JArr vs) = Inr (dedup vs)"
| "set_elems (JStr s) = Inr (dedup (map (\<lambda>c. JStr [c]) s))"
| "set_elems JUndef = Inr []"
| "set_elems JNull = Inr []"
| "set_elems _ = Inl TypeError"

definition write_obj :: "'x icache \<Rightarrow> string \<Rightarrow> jsval \<Rightarrow> ('x store, js_error, unit) eff" where
  "write_obj C k v = (\<lambda>s. case alloc v s of (a, s') \<Rightarrow> (Inr (), ic_set C k a s'))"

definition manifest_get :: "'x icache \<Rightarrow> string \<Rightarrow> ('x store, js_error, nat option) eff" where
  "manifest_get C clientId = stepS (ic_get C (createManifestKeyFrom clientId))"

definition manifest_add :: "'x icache \<Rightarrow> string \<Rightarrow> string \<Rightarrow> ('x store, js_error, unit) eff" where
  "manifest_add C clientId key =
     bindE (manifest_get C clientId) (\<lambda>r.
     bindE (getS (keys_of r)) (\<lambda>ks.
     bindE (liftR (set_elems (js_or ks (JArr [])))) (\<lambda>vs.
       write_obj C (createManifestKeyFrom clientId)
         (JObj [(''keys'', JArr (if JStr key \<in> set vs then vs else vs @ [JStr key]))]))))"

definition manifest_remove :: "'x icache \<Rightarrow> string \<Rightarrow> string \<Rightarrow> ('x store, js_error, unit) eff" where
  "manifest_remove C clientId key =
     bindE (manifest_get C clientId) (\<lambda>r.
     bindE (getS (\<lambda>s. case r of None \<Rightarrow> JUndef | Some a \<Rightarrow> heap s a)) (\<lambda>entry.
       if truthy entry
       then bindE (liftR (bindR (js_prop entry ''keys'') set_elems)) (\<lambda>vs.
              if removeAll (JStr key) vs \<noteq> []
              then write_obj C (createManifestKeyFrom clientId)
                     (JObj [(''keys'', JArr (removeAll (JStr key) vs))])
              else modS (ic_remove C (createManifestKeyFrom clientId)))
       else ret ()))"

definition manifest_clear :: "'x icache \<Rightarrow> string \<Rightarrow> ('x store, js_error, unit) eff" where
  "manifest_clear C clientId = modS (ic_remove C (createManifestKeyFrom clientId))"

section \<open>The cache manager\<close>

record 'x cache_manager =
  cm_cache :: "'x icache"
  cm_manifest :: "string option"

definition DEFAULT_EXPIRY_ADJUSTMENT_SECONDS :: rat where
  "DEFAULT_EXPIRY_ADJUSTMENT_SECONDS = 0"

text \<open>
  The list of keys as strings, \<open>None\<close> when it is falsy. Calling a string method on an element
  that is no string, or an array method on a value that is no array, is a \<open>TypeError\<close>.
\<close>

fun string_elems :: "jsval list \<Rightarrow> js_error + string list" where
  "string_elems [] = Inr []"
| "string_elems (v # vs) =
     (case v of JStr s \<Rightarrow> bindR (string_elems vs) (\<lambda>ss. Inr (s # ss)) | _ \<Rightarrow> Inl TypeError)"

fun key_list :: "jsval \<Rightarrow> js_error + string list option" where
  "key_list (JArr vs) = bindR (string_elems vs) (\<lambda>ss. Inr (Some ss))"
| "key_list v = (if truthy v then Inl TypeError else Inr None)"

definition getCacheKeys :: "'x cache_manager \<Rightarrow> ('x store, js_error, string list option) eff" where
  "getCacheKeys M =
     (case cm_manifest M of
        Some clientId \<Rightarrow>
          bindE (manifest_get (cm_cache M) clientId) (\<lambda>r.
          bindE (getS (keys_of r)) (\<lambda>ks. liftR (key_list ks)))
      | None \<Rightarrow>
          (case ic_allKeys (cm_cache M) of
             None \<Rightarrow> throw TypeError
           | Some f \<Rightarrow> getS (\<lambda>s. Some (f s))))"

text \<open>\<open>v.split(' ')\<close>.\<close>

definition scope_list :: "jsval \<Rightarrow> string list" where
  "scope_list v = (case v of JStr s \<Rightarrow> split_on '' '' s | _ \<Rightarrow> [])"

definition matches_key :: "cache_key \<Rightarrow> string \<Rightarrow> bool" where
  "matches_key keyToMatch key =
     (let cacheKey = fromKey key; scopeSet = scope_list (ck_scope cacheKey);
          hasAllScopes = (truthy (ck_scope cacheKey) \<and>
            list_all (\<lambda>current. current \<in> set scopeSet) (scope_list (ck_scope keyToMatch)))
      in ck_prefix cacheKey = JStr CACHE_KEY_PREFIX \<and>
         ck_client_id cacheKey = ck_client_id keyToMatch \<and>
         ck_audience cacheKey = ck_audience keyToMatch \<and> hasAllScopes)"

text \<open>
  The first matching key, \<open>undefined\<close> when there is none. \<open>keyToMatch.scope.split\<close> is evaluated
  for each key and throws when the scope asked for is no string.
\<close>

definition matchExistingCacheKey :: "cache_key \<Rightarrow> string list \<Rightarrow> js_error + string option" where
  "matchExistingCacheKey keyToMatch allKeys =
     (case ck_scope keyToMatch of
        JStr sc \<Rightarrow> Inr (List.find (matches_key keyToMatch) allKeys)
      | _ \<Rightarrow> if allKeys = [] then Inr None else Inl TypeError)"

definition deref :: "nat option \<Rightarrow> 'x store \<Rightarrow> jsval" where
  "deref r s = (case r of None \<Rightarrow> JUndef | Some a \<Rightarrow> heap s a)"

text \<open>
  The lookup of \<open>CacheManager.get\<close>: the entry under the exact key, else under the first
  matching one. \<open>cache.get(undefined)\<close> reads the key \<open>undefined\<close>.
\<close>

definition find_entry :: "'x cache_manager \<Rightarrow> cache_key \<Rightarrow> ('x store, js_error, nat option) eff" where
  "find_entry M cacheKey =
     bindE (stepS (ic_get (cm_cache M) (toKey cacheKey))) (\<lambda>r.
     bindE (getS (deref r)) (\<lambda>v.
       if truthy v then ret r
       else bindE (getCacheKeys M) (\<lambda>ks.
              case ks of
                None \<Rightarrow> ret None
              | Some keys \<Rightarrow>
                  bindE (liftR (matchExistingCacheKey cacheKey keys)) (\<lambda>matchedKey.
                    stepS (ic_get (cm_cache M)
                      (case matchedKey of None \<Rightarrow> ''undefined'' | Some k \<Rightarrow> k))))))"

definition js_floor :: "rat \<Rightarrow> rat" where
  "js_floor r = of_int \<lfloor>r\<rfloor>"

definition opt_manifest ::
  "('x icache \<Rightarrow> string \<Rightarrow> ('x store, js_error, unit) eff) \<Rightarrow> 'x cache_manager \<Rightarrow> ('x store, js_error, unit) eff" where
  "opt_manifest f M = (case cm_manifest M of None \<Rightarrow> ret () | Some c \<Rightarrow> f (cm_cache M) c)"

definition cm_get ::
  "'x cache_manager \<Rightarrow> cache_key \<Rightarrow> rat \<Rightarrow> rat \<Rightarrow> ('x store, js_error, jsval) eff" where
  "cm_get M cacheKey expiryAdjustmentSeconds now =
     bindE (find_entry M cacheKey) (\<lambda>r.
     bindE (getS (deref r)) (\<lambda>wrappedEntry.
       if \<not> truthy wrappedEntry then ret JUndef
       else
         bindE (liftR (js_prop wrappedEntry ''expiresAt'')) (\<lambda>expiresAt.
         bindE (liftR (js_prop wrappedEntry ''body'')) (\<lambda>body.
           if js_less (js_sub expiresAt (JNum expiryAdjustmentSeconds)) (JNum (js_floor (now / 1000)))
           then bindE (liftR (js_prop body ''refresh_token'')) (\<lambda>rt.
                  if truthy rt
                  then (case (r, wrappedEntry) of
                          (Some a, JObj w) \<Rightarrow>
                            bindE (modS (assign a (JObj (obj_set ''body'' (JObj [(''refresh_token'', rt)]) w)))) (\<lambda>_.
                            bindE (modS (ic_set (cm_cache M) (toKey cacheKey) a)) (\<lambda>_.
                              ret (JObj [(''refresh_token'', rt)])))
                        | _ \<Rightarrow> throw TypeError)
                  else bindE (modS (ic_remove (cm_cache M) (toKey cacheKey))) (\<lambda>_.
                       bindE (opt_manifest (\<lambda>C c. manifest_remove C c (toKey cacheKey)) M) (\<lambda>_.
                         ret JUndef)))
           else ret body))))"

definition wrapCacheEntry :: "obj \<Rightarrow> rat \<Rightarrow> js_error + jsval" where
  "wrapCacheEntry entry now =
     bindR (js_prop (obj_get entry ''decodedToken'') ''claims'') (\<lambda>claims.
     bindR (js_prop claims ''exp'') (\<lambda>exp.
       Inr (JObj [(''body'', JObj entry),
                  (''expiresAt'',
                   js_min (js_add (JNum (js_floor (now / 1000))) (obj_get entry ''expires_in'')) exp)])))"

definition cm_set :: "'x cache_manager \<Rightarrow> obj \<Rightarrow> rat \<Rightarrow> ('x store, js_error, unit) eff" where
  "cm_set M entry now =
     (let cacheKey = CacheKey (obj_get entry ''client_id'') (obj_get entry ''audience'')
                       (obj_get entry ''scope'')
      in bindE (liftR (wrapCacheEntry entry now)) (\<lambda>wrappedEntry.
         bindE (write_obj (cm_cache M) (toKey cacheKey) wrappedEntry) (\<lambda>_.
           opt_manifest (\<lambda>C c. manifest_add C c (toKey cacheKey)) M)))"

text \<open>\<open>clear(clientId)\<close> and \<open>clearSync(clientId)\<close>; an empty or missing client id selects all keys.\<close>

definition for_client :: "string option \<Rightarrow> string \<Rightarrow> bool" where
  "for_client clientId key =
     (case clientId of None \<Rightarrow> True | Some c \<Rightarrow> c = [] \<or> js_includes key c)"

definition cm_clear :: "'x cache_manager \<Rightarrow> string option \<Rightarrow> ('x store, js_error, unit) eff" where
  "cm_clear M clientId =
     bindE (getCacheKeys M) (\<lambda>ks.
       case ks of
         None \<Rightarrow> ret ()
       | Some keys \<Rightarrow>
           bindE (modS (fold (ic_remove (cm_cache M)) (filter (for_client clientId) keys))) (\<lambda>_.
             opt_manifest manifest_clear M))"

definition cm_clearSync :: "'x cache_manager \<Rightarrow> string option \<Rightarrow> ('x store, js_error, unit) eff" where
  "cm_clearSync M clientId =
     (case ic_allKeys (cm_cache M) of
        None \<Rightarrow> throw TypeError
      | Some f \<Rightarrow>
          bindE (getS f) (\<lambda>keys.
            modS (fold (ic_remove (cm_cache M)) (filter (for_client clientId) keys))))"

section \<open>Lemmas: lookups\<close>

lemma bindE_cases:
  "bindE m f s = (case m s of (Inl e, s') \<Rightarrow> (Inl e, s') | (Inr a, s') \<Rightarrow> f a s')"
  by (simp add: bindE_def)

lemma find_matches: "List.find (matches_key k) ks = Some m \<Longrightarrow> matches_key k m \<and> m \<in> set ks"
  by (auto simp: find_Some_iff)

context icache_laws
begin

lemma getCacheKeys_keeps:
  assumes "wf s" and "cm_cache M = C" and "getCacheKeys M s = (r, s')"
  shows "view s' = view s \<and> wf s'"
proof (cases "cm_manifest M")
  case None
  then show ?thesis
    using assms by (auto simp: getCacheKeys_def eff_run split: option.splits)
next
  case (Some c)
  obtain q t where q: "ic_get C (createManifestKeyFrom c) s = (q, t)" by fastforce
  have "s' = t"
    using assms(2,3) Some q
    by (auto simp: getCacheKeys_def manifest_get_def bindE_cases eff_run split: sum.splits prod.splits)
  with get_keeps_view [OF assms(1) q] show ?thesis by simp
qed

lemma find_entry_sound:
  assumes "wf s" and "cm_cache M = C" and "find_entry M k s = (Inr r, s')"
  shows "view s' = view s \<and> wf s' \<and> (truthy (deref r s') \<longrightarrow>
    (\<exists>a key. r = Some a \<and> a < next_ref s' \<and> view s key = Some (heap s' a) \<and>
       (key = toKey k \<or> matches_key k key \<or> key = ''undefined'')))"
proof -
  obtain q t where q: "ic_get C (toKey k) s = (q, t)" by fastforce
  note t = get_keeps_view [OF assms(1) q]
  show ?thesis
  proof (cases "truthy (deref q t)")
    case True
    then have "r = q \<and> s' = t"
      using assms(2,3) q by (simp add: find_entry_def bindE_cases eff_run)
    moreover obtain a where "q = Some a" using True by (auto simp: deref_def split: option.splits)
    ultimately show ?thesis using get_Some [OF assms(1)] q t by (metis)
  next
    case False
    obtain ks u where ks: "getCacheKeys M t = (ks, u)" by fastforce
    note u = getCacheKeys_keeps [OF t(2) assms(2) ks]
    have fe: "find_entry M k s = (case ks of Inl e \<Rightarrow> (Inl e, u) | Inr None \<Rightarrow> (Inr None, u)
        | Inr (Some keys) \<Rightarrow> (case matchExistingCacheKey k keys of Inl e \<Rightarrow> (Inl e, u) | Inr m \<Rightarrow>
            (case ic_get C (case m of None \<Rightarrow> ''undefined'' | Some k \<Rightarrow> k) u of (x, v) \<Rightarrow> (Inr x, v))))"
      using assms(2) q False ks
      by (auto simp: find_entry_def bindE_cases eff_run split: sum.split option.split prod.split)
    consider (none) "ks = Inr None" "r = None" "s' = u"
      | (some) keys m where "ks = Inr (Some keys)" "matchExistingCacheKey k keys = Inr m"
          "ic_get C (case m of None \<Rightarrow> ''undefined'' | Some k \<Rightarrow> k) u = (r, s')"
      using assms(3) unfolding fe by (auto split: sum.splits option.splits prod.splits)
    then show ?thesis
    proof cases
      case none
      then show ?thesis using u t by (simp add: deref_def)
    next
      case some
      let ?key = "case m of None \<Rightarrow> ''undefined'' | Some k \<Rightarrow> k"
      have key: "matches_key k ?key \<or> ?key = ''undefined''"
        using some(2) find_matches
        by (fastforce simp: matchExistingCacheKey_def split: jsval.splits if_splits option.splits)
      have k: "view s' = view s" "wf s'"
        using get_keeps_view [OF _ some(3)] u t by simp_all
      have "\<exists>a. r = Some a \<and> a < next_ref s' \<and> view s ?key = Some (heap s' a)" if tr: "truthy (deref r s')"
      proof -
        obtain a where "r = Some a" using tr by (auto simp: deref_def split: option.splits)
        then show ?thesis using get_Some [of u] some(3) u t by metis
      qed
      with key k show ?thesis by blast
    qed
  qed
qed

text \<open>A wrapped entry that is not within \<open>adj\<close> seconds of its expiry.\<close>

end

definition fresh_entry :: "jsval \<Rightarrow> rat \<Rightarrow> rat \<Rightarrow> bool" where
  "fresh_entry w adj now =
     (\<exists>e. js_prop w ''expiresAt'' = Inr e \<and>
        \<not> js_less (js_sub e (JNum adj)) (JNum (js_floor (now / 1000))))"

lemma cm_get_cases:
  assumes "find_entry M k s = (Inr r, t)" and "truthy (deref r t)" "deref r t = JObj w"
  shows "cm_get M k adj now s =
    (if fresh_entry (JObj w) adj now then (Inr (obj_get w ''body''), t)
     else case js_prop (obj_get w ''body'') ''refresh_token'' of
        Inl e \<Rightarrow> (Inl e, t)
      | Inr rt \<Rightarrow>
          if truthy rt
          then (Inr (JObj [(''refresh_token'', rt)]),
                ic_set (cm_cache M) (toKey k) (the r)
                  (assign (the r) (JObj (obj_set ''body'' (JObj [(''refresh_token'', rt)]) w)) t))
          else bindE (opt_manifest (\<lambda>C c. manifest_remove C c (toKey k)) M) (\<lambda>_. ret JUndef)
                 (ic_remove (cm_cache M) (toKey k) t))"
proof -
  have r: "r \<noteq> None" using assms(2) by (auto simp: deref_def split: option.splits)
  show ?thesis
    using r assms
    by (auto simp: cm_get_def bindE_cases eff_run fresh_entry_def split: sum.splits prod.splits)
qed

lemma cm_get_missing:
  assumes "find_entry M k s = (Inr r, t)" and "\<not> truthy (deref r t)"
  shows "cm_get M k adj now s = (Inr JUndef, t)"
  using assms by (simp add: cm_get_def bindE_cases eff_run)


text \<open>What a hit of \<open>CacheManager.get\<close> is about.\<close>

definition key_for :: "cache_key \<Rightarrow> string \<Rightarrow> bool" where
  "key_for k key = (key = toKey k \<or> matches_key k key)"

context icache_laws
begin

text \<open>
  Whatever \<open>get\<close> returns comes from an entry under the key asked for or a matching one: its body
  when the entry is fresh, its refresh token alone when it has expired.
\<close>

lemma cm_get_sound:
  assumes "wf s" and "cm_cache M = C" and "view s ''undefined'' = None"
    and "cm_get M k adj now s = (Inr v, s')" and "v \<noteq> JUndef"
  shows "\<exists>key w. key_for k key \<and> view s key = Some w \<and>
    (if fresh_entry w adj now then js_prop w ''body'' = Inr v
     else \<exists>body rt. js_prop w ''body'' = Inr body \<and> js_prop body ''refresh_token'' = Inr rt \<and>
            truthy rt \<and> v = JObj [(''refresh_token'', rt)])"
proof -
  obtain r t where fe: "find_entry M k s = (Inr r, t)"
    using assms(4) unfolding cm_get_def by (rule bindE_InrE)
  have tr: "truthy (deref r t)"
    using cm_get_missing [OF fe] assms(4,5) by (cases "truthy (deref r t)") auto
  then obtain a key where a: "r = Some a" and key: "view s key = Some (heap t a)" "key_for k key"
    using find_entry_sound [OF assms(1,2) fe] assms(3) by (auto simp: key_for_def)
  let ?w = "heap t a"
  obtain e b where eb: "js_prop ?w ''expiresAt'' = Inr e" "js_prop ?w ''body'' = Inr b"
    using js_prop_truthy tr a by (metis deref_def option.case(2))
  have "if fresh_entry ?w adj now then js_prop ?w ''body'' = Inr v
     else \<exists>body rt. js_prop ?w ''body'' = Inr body \<and> js_prop body ''refresh_token'' = Inr rt \<and>
            truthy rt \<and> v = JObj [(''refresh_token'', rt)]"
    using assms(4,5) fe tr a eb
    by (auto simp: cm_get_def bindE_cases eff_run deref_def fresh_entry_def
        split: sum.splits prod.splits if_splits jsval.splits)
  with key show ?thesis by blast
qed

text \<open>A fresh entry under the exact key is returned, and nothing changes for readers.\<close>

lemma cm_get_hit:
  assumes "wf s" and "cm_cache M = C" and "view s (toKey k) = Some (JObj w)"
    and "fresh_entry (JObj w) adj now"
  shows "\<exists>s'. cm_get M k adj now s = (Inr (obj_get w ''body''), s') \<and> view s' = view s \<and> wf s'"
proof -
  obtain q t where q: "ic_get C (toKey k) s = (q, t)" by fastforce
  then obtain a where a: "q = Some a" "heap t a = JObj w"
    using get_None [OF assms(1)] get_Some [OF assms(1)] assms(3) by (cases q) fastforce+
  have "find_entry M k s = (Inr q, t)"
    using assms(2) q a by (simp add: find_entry_def bindE_cases eff_run deref_def)
  then have "cm_get M k adj now s = (Inr (obj_get w ''body''), t)"
    using a assms(4) by (subst cm_get_cases) (auto simp: deref_def)
  with get_keeps_view [OF assms(1) q] show ?thesis by blast
qed

text \<open>An expired entry with a refresh token is cut down to the token under the key asked for.\<close>

lemma cm_get_downgrade:
  assumes "wf s" and "cm_cache M = C" and "find_entry M k s = (Inr (Some a), t)"
    and "heap t a = JObj w" and "a < next_ref t" and "wf t" and "\<not> fresh_entry (JObj w) adj now"
    and "js_prop (obj_get w ''body'') ''refresh_token'' = Inr rt" and "truthy rt"
    and "ok (JObj (obj_set ''body'' (JObj [(''refresh_token'', rt)]) w))"
  shows "\<exists>s'. cm_get M k adj now s = (Inr (JObj [(''refresh_token'', rt)]), s') \<and> wf s' \<and>
     view s' (toKey k) = Some (JObj (obj_set ''body'' (JObj [(''refresh_token'', rt)]) w)) \<and>
     (\<forall>k'. k' \<noteq> toKey k \<longrightarrow> view s' k' = view t k' \<or> view t k' = Some (JObj w) \<and>
        view s' k' = Some (JObj (obj_set ''body'' (JObj [(''refresh_token'', rt)]) w)))"
proof -
  let ?w = "JObj (obj_set ''body'' (JObj [(''refresh_token'', rt)]) w)"
  let ?t = "assign a ?w t" and ?s = "ic_set C (toKey k) a (assign a ?w t)"
  have h: "heap ?t a = ?w" "a < next_ref ?t" using assms(5) by (simp_all add: assign_def)
  have "cm_get M k adj now s = (Inr (JObj [(''refresh_token'', rt)]), ?s)"
    using assms by (subst cm_get_cases) (auto simp: deref_def)
  moreover have "wf ?s" "view ?s = (view ?t)(toKey k \<mapsto> ?w)"
    using view_set [of ?t a] wf_set [of ?t a] h wf_assign [OF assms(6)] assms(10) by simp_all
  ultimately show ?thesis using view_assign [OF assms(6,10), of a] assms(4) by auto
qed

text \<open>Storing an entry in a manager without a manifest.\<close>

lemma cm_set_view:
  assumes "wf s" and "cm_cache M = C" and "cm_manifest M = None"
    and "wrapCacheEntry entry now = Inr w" and "ok w"
  shows "\<exists>s'. cm_set M entry now s = (Inr (), s') \<and> wf s' \<and>
     view s' = (view s)(toKey (fromCacheEntry entry) \<mapsto> w)"
proof -
  obtain a t where at: "alloc w s = (a, t)" by fastforce
  have "cm_set M entry now s = (Inr (), ic_set C (toKey (fromCacheEntry entry)) a t)"
    using assms(2-4) at
    by (simp add: cm_set_def Let_def bindE_cases eff_run write_obj_def opt_manifest_def fromCacheEntry_def)
  with view_set_alloc [OF assms(1,5) at] show ?thesis by simp
qed

lemma cm_set_get:
  assumes "wf s" and "cm_cache M = C" and "cm_manifest M = None"
    and "wrapCacheEntry entry now = Inr w" and "ok w" and "fresh_entry w adj now'"
  shows "\<exists>s' s''. cm_set M entry now s = (Inr (), s') \<and>
     cm_get M (fromCacheEntry entry) adj now' s' = (Inr (JObj entry), s'')"
proof -
  obtain wo where w: "w = JObj wo" "obj_get wo ''body'' = JObj entry"
    using assms(4) by (auto simp: wrapCacheEntry_def bindR_Inr_iff obj_get_def)
  obtain s' where s': "cm_set M entry now s = (Inr (), s')" "wf s'"
      "view s' (toKey (fromCacheEntry entry)) = Some (JObj wo)"
    using cm_set_view [OF assms(1-5)] w by auto
  obtain s'' where "cm_get M (fromCacheEntry entry) adj now' s' = (Inr (JObj entry), s'')"
    using cm_get_hit [OF s'(2) assms(2) s'(3)] assms(6) w by metis
  with s'(1) show ?thesis by blast
qed

end

context icache_listing
begin

text \<open>Clearing a cache that lists its keys removes every entry of the library.\<close>

lemma cm_clear_all:
  assumes "wf s" and "cm_cache M = C" and "cm_manifest M = None"
  shows "\<exists>s'. cm_clear M None s = (Inr (), s') \<and> wf s' \<and>
     view s' = (\<lambda>k. if k \<in> set (keys s) then None else view s k)"
proof -
  have "cm_clear M None s = (Inr (), fold (ic_remove C) (keys s) s)"
    using assms(2,3) allKeys
    by (simp add: cm_clear_def getCacheKeys_def bindE_cases eff_run opt_manifest_def for_client_def)
  with view_remove_all [OF assms(1)] show ?thesis by simp
qed

lemma cm_clearSync_all:
  assumes "wf s" and "cm_cache M = C"
  shows "\<exists>s'. cm_clearSync M None s = (Inr (), s') \<and> wf s' \<and>
     view s' = (\<lambda>k. if k \<in> set (keys s) then None else view s k)"
proof -
  have "cm_clearSync M None s = (Inr (), fold (ic_remove C) (keys s) s)"
    using assms(2) allKeys by (simp add: cm_clearSync_def bindE_cases eff_run for_client_def)
  with view_remove_all [OF assms(1)] show ?thesis by simp
qed

end

section \<open>Lemmas: what a cache holds\<close>

text \<open>Every value of the cache has the property \<open>P\<close>.\<close>

definition holds_only :: "('s \<Rightarrow> string \<Rightarrow> jsval option) \<Rightarrow> (jsval \<Rightarrow> bool) \<Rightarrow> 's \<Rightarrow> bool" where
  "holds_only view P s = (\<forall>k v. view s k = Some v \<longrightarrow> P v)"

text \<open>A property of stored objects that survives the cutting down to the refresh token.\<close>

definition cut_closed :: "(jsval \<Rightarrow> bool) \<Rightarrow> bool" where
  "cut_closed P = (\<forall>v. P v \<longrightarrow> (\<exists>w. v = JObj w \<and>
     (\<forall>rt. truthy rt \<longrightarrow> P (JObj (obj_set ''body'' (JObj [(''refresh_token'', rt)]) w)))))"

context icache_laws
begin

lemma find_entry_keeps:
  assumes "cm_cache M = C"
  shows "ensures (\<lambda>s. wf s \<and> view s = V) (find_entry M k) (\<lambda>_. True)"
proof -
  have g: "ensures (\<lambda>s. wf s \<and> view s = V) (stepS (ic_get C key)) (\<lambda>_. True)" for key
    using get_keeps_view by (auto simp: ensures_def eff_run) (metis prod.collapse)+
  have c: "ensures (\<lambda>s. wf s \<and> view s = V) (getCacheKeys M) (\<lambda>_. True)"
    using getCacheKeys_keeps [OF _ assms] by (auto simp: ensures_def) (metis prod.collapse)+
  show ?thesis
    unfolding find_entry_def assms
    by (intro ensures_bind [OF g] ensures_bind [OF c] ensures_bind [OF ensures_basic(3)] ensures_bind [OF ensures_basic(4)]
        ensures_rules g) simp_all
qed

text \<open>What \<open>get\<close> does with an object it found.\<close>

lemma cm_get_found:
  assumes "cm_cache M = C" and "cm_manifest M = None" and "\<And>ob. ok (JObj ob)"
    and s: "wf s" and fe: "find_entry M k s = (Inr (Some a), t)" "a < next_ref t" "wf t" and h: "holds_only view P t"
    and w: "heap t a = JObj w" "P (JObj w)" "\<And>rt. truthy rt \<Longrightarrow> P (JObj (obj_set ''body'' (JObj [(''refresh_token'', rt)]) w))"
  shows "\<exists>x s'. cm_get M k adj now s = (x, s') \<and> wf s' \<and> holds_only view P s' \<and>
    (\<forall>v. x = Inr v \<longrightarrow> v = JUndef \<or> (\<exists>w. P (JObj w) \<and> v = obj_get w ''body''))"
proof (cases "fresh_entry (JObj w) adj now \<or> (\<forall>rt. js_prop (obj_get w ''body'') ''refresh_token'' = Inr rt \<longrightarrow> \<not> truthy rt)")
  case True
  have rm: "wf (ic_remove C (toKey k) t)" "holds_only view P (ic_remove C (toKey k) t)"
    using view_remove [OF fe(3)] wf_remove [OF fe(3)] h by (simp_all add: holds_only_def)
  have "cm_get M k adj now s = (if fresh_entry (JObj w) adj now then (Inr (obj_get w ''body''), t)
      else case js_prop (obj_get w ''body'') ''refresh_token'' of Inl e \<Rightarrow> (Inl e, t)
        | Inr rt \<Rightarrow> (Inr JUndef, ic_remove C (toKey k) t))"
    using cm_get_cases [OF fe(1), of w adj now] w(1) True assms(1,2)
    by (auto simp: deref_def opt_manifest_def eff_run split: sum.split)
  with fe(3) h w(2) rm show ?thesis by (auto split: sum.split)
next
  case False
  then obtain rt where rt: "js_prop (obj_get w ''body'') ''refresh_token'' = Inr rt" "truthy rt"
    and nf: "\<not> fresh_entry (JObj w) adj now" by blast
  let ?w = "obj_set ''body'' (JObj [(''refresh_token'', rt)]) w"
  obtain s' where s': "cm_get M k adj now s = (Inr (JObj [(''refresh_token'', rt)]), s')" "wf s'" "view s' (toKey k) = Some (JObj ?w)"
      "\<And>k'. k' \<noteq> toKey k \<Longrightarrow> view s' k' = view t k' \<or> view t k' = Some (JObj w) \<and> view s' k' = Some (JObj ?w)"
    using cm_get_downgrade [OF s assms(1) fe(1) w(1) fe(2,3) nf rt assms(3)] by blast
  have "P v" if "view s' k' = Some v" for k' v
    using that s'(3) s'(4) [of k'] h w(3) [OF rt(2)] by (cases "k' = toKey k") (auto simp: holds_only_def)
  moreover have "obj_get ?w ''body'' = JObj [(''refresh_token'', rt)]" by simp
  ultimately show ?thesis
    using s'(1,2) w(3) [OF rt(2)] by (intro exI conjI) (auto simp: holds_only_def intro!: exI [of _ ?w])
qed

lemma cm_get_ensures:
  assumes "cm_cache M = C" and "cm_manifest M = None" and "cut_closed P" and "\<And>ob. ok (JObj ob)"
  shows "ensures (\<lambda>s. wf s \<and> holds_only view P s) (cm_get M k adj now)
           (\<lambda>v. v = JUndef \<or> (\<exists>w. P (JObj w) \<and> v = obj_get w ''body''))"
proof -
  have "\<exists>x s'. cm_get M k adj now s = (x, s') \<and> wf s' \<and> holds_only view P s' \<and>
      (\<forall>v. x = Inr v \<longrightarrow> v = JUndef \<or> (\<exists>w. P (JObj w) \<and> v = obj_get w ''body''))"
    if s: "wf s" "holds_only view P s" for s
  proof -
    obtain q t where q: "find_entry M k s = (q, t)" by fastforce
    then have t: "wf t" "view t = view s"
      using find_entry_keeps [OF assms(1), of "view s" k] s(1) by (auto simp: ensures_def dest!: spec [of _ s])
    with s(2) have h: "holds_only view P t" by (simp add: holds_only_def)
    consider (err) e where "q = Inl e" | (miss) r where "q = Inr r" "\<not> truthy (deref r t)" | (hit) r where "q = Inr r" "truthy (deref r t)"
      by (cases q) auto
    then show ?thesis
    proof cases
      case err
      with q t h show ?thesis by (simp add: cm_get_def bindE_def)
    next
      case miss
      with cm_get_missing [OF q [unfolded miss(1)]] t h show ?thesis by simp
    next
      case hit
      then obtain a key where a: "r = Some a" "a < next_ref t" "view s key = Some (heap t a)"
        using find_entry_sound [OF s(1) assms(1)] q by blast
      then obtain w where "heap t a = JObj w" "P (JObj w)"
          "\<And>rt. truthy rt \<Longrightarrow> P (JObj (obj_set ''body'' (JObj [(''refresh_token'', rt)]) w))"
        using assms(3) s(2) unfolding cut_closed_def holds_only_def by metis
      then show ?thesis
        using cm_get_found [OF assms(1,2,4) s(1) _ a(2) t(1) h] q hit(1) a(1) by simp
    qed
  qed
  then show ?thesis by (fastforce simp: ensures_def)
qed

lemma cm_set_ensures:
  assumes "cm_cache M = C" and "cm_manifest M = None" and "\<And>w. wrapCacheEntry entry now = Inr w \<Longrightarrow> P w \<and> ok w"
  shows "ensures (\<lambda>s. wf s \<and> holds_only view P s) (cm_set M entry now) (\<lambda>_. True)"
proof (cases "wrapCacheEntry entry now")
  case (Inl e)
  then show ?thesis by (simp add: ensures_def cm_set_def bindE_def eff_run)
next
  case (Inr w)
  show ?thesis
    unfolding ensures_def
    using cm_set_view [OF _ assms(1,2) Inr] assms(3) [OF Inr] by (fastforce simp: holds_only_def split: if_splits)
qed

end

context icache_listing
begin

lemma cm_clearSync_ensures:
  assumes "cm_cache M = C"
  shows "ensures (\<lambda>s. wf s \<and> holds_only view P s) (cm_clearSync M None) (\<lambda>_. True)"
  unfolding ensures_def using cm_clearSync_all [OF _ assms] by (fastforce simp: holds_only_def split: if_splits)

end

section \<open>Lemmas: the manifest\<close>

lemma dedup_distinct: "distinct xs \<Longrightarrow> dedup xs = xs"
  by (simp add: dedup_def dedup_from_distinct)

text \<open>What a manifest that lists the keys \<open>ks\<close> looks like to a reader.\<close>

definition manifest_value :: "string list \<Rightarrow> jsval" where
  "manifest_value ks = JObj [(''keys'', JArr (map JStr ks))]"

definition tracks :: "(string \<Rightarrow> jsval option) \<Rightarrow> string \<Rightarrow> string list \<Rightarrow> bool" where
  "tracks V c ks = (distinct ks \<and>
     V (createManifestKeyFrom c) = (if ks = [] then None else Some (manifest_value ks)))"

definition add_key :: "string \<Rightarrow> string list \<Rightarrow> string list" where
  "add_key key ks = (if key \<in> set ks then ks else ks @ [key])"

lemma set_elems_strs: "distinct ks \<Longrightarrow> set_elems (JArr (map JStr ks)) = Inr (map JStr ks)"
  by (simp add: dedup_distinct distinct_map inj_on_def)

lemma string_elems_strs: "string_elems (map JStr ks) = Inr ks"
  by (induction ks) auto

lemma toKey_not_manifest:
  "ck_prefix k = JStr CACHE_KEY_PREFIX \<Longrightarrow> ck_client_id k = JStr c \<Longrightarrow> toKey k \<noteq> createManifestKeyFrom c"
  by (simp add: toKey_def createManifestKeyFrom_def)

lemma removeAll_map_JStr: "removeAll (JStr key) (map JStr ks) = map JStr (removeAll key ks)"
  by (induction ks) auto

context icache_laws
begin

lemma manifest_read:
  assumes "wf s" and "tracks (view s) c ks"
  obtains r t where "ic_get C (createManifestKeyFrom c) s = (r, t)" "view t = view s" "wf t"
    "keys_of r t = (if ks = [] then JUndef else JArr (map JStr ks))"
    "deref r t = (if ks = [] then JUndef else manifest_value ks)"
proof -
  obtain r t where rt: "ic_get C (createManifestKeyFrom c) s = (r, t)" by fastforce
  have v: "view s (createManifestKeyFrom c) = (if ks = [] then None else Some (manifest_value ks))"
    using assms(2) by (simp add: tracks_def)
  have "if ks = [] then r = None else (\<exists>a. r = Some a \<and> heap t a = manifest_value ks)"
    using v get_None [OF assms(1), of "createManifestKeyFrom c" t]
      get_Some [OF assms(1), of "createManifestKeyFrom c" _ t] rt by (cases r) (auto split: if_splits)
  then have "keys_of r t = (if ks = [] then JUndef else JArr (map JStr ks))"
    "deref r t = (if ks = [] then JUndef else manifest_value ks)"
    by (auto simp: keys_of_def deref_def manifest_value_def obj_get_def split: if_splits)
  with rt get_keeps_view [OF assms(1) rt] that show thesis by blast
qed

lemma manifest_add_tracks:
  assumes "wf s" and "tracks (view s) c ks" and "ok (manifest_value (add_key key ks))"
  shows "\<exists>s'. manifest_add C c key s = (Inr (), s') \<and> wf s' \<and>
    view s' = (view s)(createManifestKeyFrom c \<mapsto> manifest_value (add_key key ks))"
proof -
  obtain r t where t: "ic_get C (createManifestKeyFrom c) s = (r, t)" "view t = view s" "wf t"
    "keys_of r t = (if ks = [] then JUndef else JArr (map JStr ks))"
    using manifest_read [OF assms(1,2)] by metis
  have el: "set_elems (js_or (keys_of r t) (JArr [])) = Inr (map JStr ks)"
    using t(4) assms(2) set_elems_strs [of ks] by (auto simp: js_or_def tracks_def simp del: set_elems.simps)
  obtain a u where au: "alloc (manifest_value (add_key key ks)) t = (a, u)" by fastforce
  have "manifest_add C c key s = (Inr (), ic_set C (createManifestKeyFrom c) a u)"
    using t(1) el au
    by (auto simp: manifest_add_def manifest_get_def bindE_cases eff_run write_obj_def
        manifest_value_def add_key_def image_iff split: prod.splits)
  with view_set_alloc [OF t(3) assms(3) au] t(2) show ?thesis by simp
qed

lemma manifest_remove_tracks:
  assumes "wf s" and "tracks (view s) c ks" and "\<And>ls. ok (manifest_value ls)"
  shows "\<exists>s'. manifest_remove C c key s = (Inr (), s') \<and> wf s' \<and>
    tracks (view s') c (removeAll key ks) \<and> (\<forall>k. k \<noteq> createManifestKeyFrom c \<longrightarrow> view s' k = view s k)"
proof -
  obtain r t where t: "ic_get C (createManifestKeyFrom c) s = (r, t)" "view t = view s" "wf t"
    "deref r t = (if ks = [] then JUndef else manifest_value ks)"
    using manifest_read [OF assms(1,2)] by metis
  have ks: "distinct ks" using assms(2) by (simp add: tracks_def)
  show ?thesis
  proof (cases "ks = []")
    case True
    then have "manifest_remove C c key s = (Inr (), t)"
      using t by (auto simp: manifest_remove_def manifest_get_def bindE_cases eff_run deref_def)
    with t assms(2) True show ?thesis by (auto simp: tracks_def)
  next
    case False
    obtain a u where au: "alloc (manifest_value (removeAll key ks)) t = (a, u)" by fastforce
    have "manifest_remove C c key s =
        (Inr (), if removeAll key ks = [] then ic_remove C (createManifestKeyFrom c) t
                 else ic_set C (createManifestKeyFrom c) a u)"
      using t(1,4) False au set_elems_strs [OF ks]
      by (auto simp: manifest_remove_def manifest_get_def bindE_cases eff_run write_obj_def deref_def
          manifest_value_def obj_get_def removeAll_map_JStr split: prod.splits simp del: set_elems.simps(1))
    then show ?thesis
      using view_set_alloc [OF t(3) assms(3) au] view_remove [OF t(3)] wf_remove [OF t(3)] t(2) distinct_removeAll [OF ks]
      by (auto simp: tracks_def)
  qed
qed

lemma getCacheKeys_tracks:
  assumes "wf s" and "cm_cache M = C" and "cm_manifest M = Some c" and "tracks (view s) c ks"
  shows "\<exists>t. getCacheKeys M s = (Inr (if ks = [] then None else Some ks), t) \<and> view t = view s \<and> wf t"
proof -
  obtain r t where t: "ic_get C (createManifestKeyFrom c) s = (r, t)" "view t = view s" "wf t"
    "keys_of r t = (if ks = [] then JUndef else JArr (map JStr ks))"
    using manifest_read [OF assms(1,4)] by metis
  have "key_list (keys_of r t) = Inr (if ks = [] then None else Some ks)"
    unfolding t(4) by (simp add: string_elems_strs)
  then have "getCacheKeys M s = (Inr (if ks = [] then None else Some ks), t)"
    using assms(2,3) t(1) by (simp add: getCacheKeys_def manifest_get_def bindE_cases eff_run)
  with t show ?thesis by blast
qed

lemma cm_set_tracks:
  assumes "wf s" and "cm_cache M = C" and "cm_manifest M = Some c" and "tracks (view s) c ks"
    and "wrapCacheEntry entry now = Inr w" and "ok w" and "\<And>ls. ok (manifest_value ls)"
    and "obj_get entry ''client_id'' = JStr c"
  shows "\<exists>s'. cm_set M entry now s = (Inr (), s') \<and> wf s' \<and>
     tracks (view s') c (add_key (toKey (fromCacheEntry entry)) ks) \<and>
     view s' (toKey (fromCacheEntry entry)) = Some w \<and>
     (\<forall>k. k \<noteq> toKey (fromCacheEntry entry) \<longrightarrow> k \<noteq> createManifestKeyFrom c \<longrightarrow> view s' k = view s k)"
proof -
  let ?k = "toKey (fromCacheEntry entry)"
  have km: "?k \<noteq> createManifestKeyFrom c"
    using assms(8) by (intro toKey_not_manifest) (simp_all add: fromCacheEntry_def CacheKey_def)
  obtain a t where at: "alloc w s = (a, t)" by fastforce
  note u = view_set_alloc [OF assms(1,6) at, of ?k]
  have "tracks (view (ic_set C ?k a t)) c ks"
    using assms(4) km u(1) by (simp add: tracks_def)
  then obtain s' where s': "manifest_add C c ?k (ic_set C ?k a t) = (Inr (), s')" "wf s'"
      "view s' = (view (ic_set C ?k a t))(createManifestKeyFrom c \<mapsto> manifest_value (add_key ?k ks))"
    using manifest_add_tracks [OF u(2) _ assms(7)] by blast
  have "cm_set M entry now s = (Inr (), s')"
    using assms(2,3,5) at s'(1)
    by (simp add: cm_set_def Let_def bindE_cases eff_run write_obj_def opt_manifest_def fromCacheEntry_def)
  moreover have "tracks (view s') c (add_key ?k ks)"
    using assms(4) s'(3) by (auto simp: tracks_def add_key_def)
  ultimately show ?thesis using s' u km by auto
qed

lemma cm_clear_tracks:
  assumes "wf s" and "cm_cache M = C" and "cm_manifest M = Some c" and "tracks (view s) c ks"
    and "ks \<noteq> []"
  shows "\<exists>s'. cm_clear M None s = (Inr (), s') \<and> wf s' \<and>
     view s' = (\<lambda>k. if k \<in> set ks \<or> k = createManifestKeyFrom c then None else view s k)"
proof -
  obtain t where t: "getCacheKeys M s = (Inr (Some ks), t)" "view t = view s" "wf t"
    using getCacheKeys_tracks [OF assms(1-4)] assms(5) by auto
  let ?u = "fold (ic_remove C) ks t"
  have u: "wf ?u" "view ?u = (\<lambda>k. if k \<in> set ks then None else view t k)"
    using view_remove_all [OF t(3)] by blast+
  have "cm_clear M None s = (Inr (), ic_remove C (createManifestKeyFrom c) ?u)"
    using assms(2,3) t(1)
    by (simp add: cm_clear_def bindE_cases eff_run opt_manifest_def manifest_clear_def for_client_def)
  moreover have "view (ic_remove C (createManifestKeyFrom c) ?u) =
      (\<lambda>k. if k \<in> set ks \<or> k = createManifestKeyFrom c then None else view s k)"
    by (auto simp: view_remove [OF u(1)] u(2) t(2))
  ultimately show ?thesis using wf_remove [OF u(1)] by blast
qed

text \<open>
  An expired entry found through a matching key leaves its refresh token under the key asked
  for, which the manifest does not list: clearing the cache does not remove it.
\<close>

lemma downgrade_untracked:
  assumes "wf s" and "cm_cache M = C" and "cm_manifest M = Some c" and "tracks (view s) c ks"
    and "ck_scope k = JStr sc" and "view s (toKey k) = None" and "toKey k \<notin> set ks"
    and "toKey k \<noteq> createManifestKeyFrom c"
    and "List.find (matches_key k) ks = Some key" and "view s key = Some (JObj w)"
    and "\<not> fresh_entry (JObj w) adj now"
    and "js_prop (obj_get w ''body'') ''refresh_token'' = Inr rt" and "truthy rt"
    and "ok (JObj (obj_set ''body'' (JObj [(''refresh_token'', rt)]) w))"
  shows "\<exists>s1 s2. cm_get M k adj now s = (Inr (JObj [(''refresh_token'', rt)]), s1) \<and>
     cm_clear M None s1 = (Inr (), s2) \<and>
     view s2 (toKey k) = Some (JObj (obj_set ''body'' (JObj [(''refresh_token'', rt)]) w))"
proof -
  have g0: "ic_get C (toKey k) s = (None, s)"
    using get_None [OF assms(1)] get_Some [OF assms(1)] assms(6)
    by (cases "ic_get C (toKey k) s"; cases "fst (ic_get C (toKey k) s)") fastforce+
  have ks: "ks \<noteq> []" using assms(9) by auto
  obtain t where t: "getCacheKeys M s = (Inr (Some ks), t)" "view t = view s" "wf t"
    using getCacheKeys_tracks [OF assms(1-4)] ks by auto
  obtain r u where ru: "ic_get C key t = (r, u)" by fastforce
  then obtain a where a: "r = Some a" "heap u a = JObj w" "view u = view s" "wf u" "a < next_ref u"
    using get_None [OF t(3)] get_Some [OF t(3)] assms(10) t(2) by (cases r) fastforce+
  have "find_entry M k s = (Inr (Some a), u)"
    using assms(2,5,9) g0 t(1) ru a(1)
    by (simp add: find_entry_def bindE_cases eff_run deref_def matchExistingCacheKey_def)
  then obtain s1 where s1: "cm_get M k adj now s = (Inr (JObj [(''refresh_token'', rt)]), s1)" "wf s1"
    "view s1 (toKey k) = Some (JObj (obj_set ''body'' (JObj [(''refresh_token'', rt)]) w))"
    "\<forall>k'. k' \<noteq> toKey k \<longrightarrow> view s1 k' = view u k' \<or> view u k' = Some (JObj w) \<and>
        view s1 k' = Some (JObj (obj_set ''body'' (JObj [(''refresh_token'', rt)]) w))"
    using cm_get_downgrade [OF assms(1,2) _ a(2,5,4) assms(11-14)] by blast
  have "JObj w \<noteq> manifest_value ks"
    using assms(12) by (auto simp: manifest_value_def obj_get_def js_prop_def)
  then have "tracks (view s1) c ks"
    using assms(4,8) s1(4) [rule_format, of "createManifestKeyFrom c"] a(3) ks by (auto simp: tracks_def)
  then obtain s2 where "cm_clear M None s1 = (Inr (), s2)"
     "view s2 = (\<lambda>k. if k \<in> set ks \<or> k = createManifestKeyFrom c then None else view s1 k)"
    using cm_clear_tracks [OF s1(2) assms(2,3) _ ks] by blast
  with s1 assms(7,8) show ?thesis by auto
qed

end

section \<open>Properties of the cache manager\<close>

text \<open>The state of a page that has stored nothing yet.\<close>

definition empty_store :: "'x \<Rightarrow> 'x store" where
  "empty_store x = \<lparr>heap = (\<lambda>_. JUndef), next_ref = 0, mem = [], localStorage = [], custom = x\<rparr>"

text \<open>An entry as the client builds it: numeric lifetimes, a decoded token with its claims.\<close>

definition token_entry :: "obj \<Rightarrow> rat \<Rightarrow> rat \<Rightarrow> bool" where
  "token_entry entry e x = (obj_get entry ''expires_in'' = JNum e \<and>
     (\<exists>d cl. obj_get entry ''decodedToken'' = JObj d \<and> obj_get d ''claims'' = JObj cl \<and>
        obj_get cl ''exp'' = JNum x))"

text \<open>The moment, in seconds, after which a stored entry counts as expired.\<close>

definition expiry :: "rat \<Rightarrow> rat \<Rightarrow> rat \<Rightarrow> rat" where
  "expiry now e x = min (js_floor (now / 1000) + e) x"

definition wrapped :: "obj \<Rightarrow> rat \<Rightarrow> jsval" where
  "wrapped entry t = JObj [(''body'', JObj entry), (''expiresAt'', JNum t)]"

lemma wrap_token_entry:
  "token_entry entry e x \<Longrightarrow> wrapCacheEntry entry now = Inr (wrapped entry (expiry now e x))"
  by (auto simp: token_entry_def wrapCacheEntry_def wrapped_def expiry_def js_min_def js_add_def)

lemma fresh_wrapped:
  "fresh_entry (wrapped entry t) adj now \<longleftrightarrow> js_floor (now / 1000) \<le> t - adj"
  by (auto simp: fresh_entry_def wrapped_def obj_get_def js_less_def js_sub_def)

definition manager :: "'x icache \<Rightarrow> 'x cache_manager" where
  "manager C = \<lparr>cm_cache = C, cm_manifest = None\<rparr>"

text \<open>
  An entry stored in the in-memory cache is read back, whole, under its own key until
  \<open>adj\<close> seconds before it expires, which is at the earlier of the response's lifetime and the
  expiry of the ID token.
\<close>

theorem memory_set_get:
  assumes "wf_store s" and "token_entry entry e x"
    and "js_floor (now' / 1000) \<le> expiry now e x - adj"
  shows "\<exists>s' s''. cm_set (manager InMemoryCache) entry now s = (Inr (), s') \<and>
     cm_get (manager InMemoryCache) (fromCacheEntry entry) adj now' s' = (Inr (JObj entry), s'')"
  by (rule memory.cm_set_get [OF assms(1) _ _ wrap_token_entry [OF assms(2)]])
    (use assms(3) in \<open>simp_all add: manager_def fresh_wrapped\<close>, simp add: wrapped_def)

text \<open>
  The same for the local-storage cache, for entries whose values JSON can represent.
\<close>

theorem local_set_get:
  assumes "wf_store s" and "token_entry entry e x" and "json_ok (JObj entry)"
    and "is_decimal (expiry now e x)"
    and "js_floor (now' / 1000) \<le> expiry now e x - adj"
  shows "\<exists>s' s''. cm_set (manager LocalStorageCache) entry now s = (Inr (), s') \<and>
     cm_get (manager LocalStorageCache) (fromCacheEntry entry) adj now' s' = (Inr (JObj entry), s'')"
  by (rule local.cm_set_get [OF assms(1) _ _ wrap_token_entry [OF assms(2)]])
    (use assms(3-5) in \<open>simp_all add: manager_def fresh_wrapped\<close>, simp add: wrapped_def)

definition sample_entry :: obj where
  "sample_entry =
     [(''id_token'', JStr ''idt''), (''access_token'', JStr ''at''), (''expires_in'', JNum 86400),
      (''refresh_token'', JStr ''rt''),
      (''decodedToken'', JObj [(''claims'', JObj [(''exp'', JNum 1700003600)]), (''user'', JObj [])]),
      (''audience'', JStr ''default''), (''scope'', JStr ''openid profile''),
      (''client_id'', JStr ''cid'')]"

lemma sample_token_entry: "token_entry sample_entry 86400 1700003600"
  by (simp add: token_entry_def sample_entry_def obj_get_def)

lemma empty_wf: "wf_store (empty_store x)"
  by (simp add: empty_store_def wf_store_def)

theorem memory_set_get_witness:
  "wf_store (empty_store ()) \<and> token_entry sample_entry 86400 1700003600 \<and>
   (\<exists>s' s''. cm_set (manager InMemoryCache) sample_entry 1700000000000 (empty_store ()) = (Inr (), s') \<and>
     cm_get (manager InMemoryCache) (fromCacheEntry sample_entry) 60 1700001000000 s' =
       (Inr (JObj sample_entry), s''))"
proof -
  have "js_floor (1700001000000 / 1000) \<le> expiry 1700000000000 86400 1700003600 - 60"
    by (simp add: js_floor_def expiry_def)
  from memory_set_get [OF empty_wf [of "()"] sample_token_entry this] show ?thesis
    by (simp add: empty_wf sample_token_entry)
qed

lemma sample_json_ok: "json_ok (JObj sample_entry)"
  by (simp add: sample_entry_def)

theorem local_set_get_witness:
  "json_ok (JObj sample_entry) \<and> is_decimal (expiry 1700000000000 86400 1700003600) \<and>
   (\<exists>s' s''. cm_set (manager LocalStorageCache) sample_entry 1700000000000 (empty_store ()) = (Inr (), s') \<and>
     cm_get (manager LocalStorageCache) (fromCacheEntry sample_entry) 60 1700001000000 s' =
       (Inr (JObj sample_entry), s''))"
proof -
  have d: "is_decimal (expiry 1700000000000 86400 1700003600)"
    by (simp add: expiry_def js_floor_def)
  have "js_floor (1700001000000 / 1000) \<le> expiry 1700000000000 86400 1700003600 - 60"
    by (simp add: js_floor_def expiry_def)
  from local_set_get [OF empty_wf [of "()"] sample_token_entry sample_json_ok d this] show ?thesis
    using sample_json_ok d by blast
qed

text \<open>
  C31: a stored key matches a request exactly when client and audience agree and the scopes asked for
  are among the scopes of the key, provided no part of the key holds the separator.
\<close>

theorem matches_key_toKey:
  assumes "key_part c0" "key_part a0" "\<not> js_includes sc0 ''::''" "sc0 \<noteq> []"
  shows "matches_key (CacheKey (JStr c) (JStr a) (JStr sc)) (toKey (CacheKey (JStr c0) (JStr a0) (JStr sc0))) \<longleftrightarrow>
    c = c0 \<and> a = a0 \<and> set (split_on '' '' sc) \<subseteq> set (split_on '' '' sc0)"
  using assms fromKey_parts [OF key_part_prefix assms(1-3)]
  by (auto simp: matches_key_def CacheKey_def toKey_def scope_list_def list_all_iff Let_def)

theorem matches_key_toKey_witness:
  "key_part ''cid'' \<and> key_part ''https://api/'' \<and> \<not> js_includes ''openid read:x write:x'' ''::'' \<and>
   matches_key (CacheKey (JStr ''cid'') (JStr ''https://api/'') (JStr ''write:x openid''))
     (toKey (CacheKey (JStr ''cid'') (JStr ''https://api/'') (JStr ''openid read:x write:x'')))"
proof -
  have k: "key_part ''cid''" "key_part ''https://api/''" "\<not> js_includes ''openid read:x write:x'' ''::''"
    "''openid read:x write:x'' \<noteq> []"
    by (simp_all add: key_part_def)
  show ?thesis
    using k matches_key_toKey [OF k, of "''cid''" "''https://api/''" "''write:x openid''"] by simp
qed

lemma access_token_fresh:
  assumes "\<exists>key w. key_for k key \<and> V key = Some w \<and>
    (if fresh_entry w adj now then js_prop w ''body'' = Inr v
     else \<exists>body rt. js_prop w ''body'' = Inr body \<and> js_prop body ''refresh_token'' = Inr rt \<and>
            truthy rt \<and> v = JObj [(''refresh_token'', rt)])"
    and "js_prop v ''access_token'' = Inr tok" and "truthy tok"
  shows "\<exists>key w. key_for k key \<and> V key = Some w \<and> fresh_entry w adj now \<and> js_prop w ''body'' = Inr v"
  using assms by (fastforce simp: obj_get_def split: if_splits)

text \<open>
  C9: an entry with an access token that a lookup in the in-memory cache returns is the body of a
  stored entry whose key is the one asked for, or matches it, and that has not expired (not even
  within the adjustment).
\<close>

theorem memory_get_fresh:
  assumes "wf_store s" and "mem_view s ''undefined'' = None"
    and "cm_get (manager InMemoryCache) k adj now s = (Inr v, s')"
    and "js_prop v ''access_token'' = Inr tok" and "truthy tok"
  shows "\<exists>key w. key_for k key \<and> mem_view s key = Some w \<and> fresh_entry w adj now \<and> js_prop w ''body'' = Inr v"
proof -
  have "v \<noteq> JUndef" using assms(4) by (auto simp: js_prop_def)
  from memory.cm_get_sound [OF assms(1) _ assms(2,3) this] show ?thesis
    by (intro access_token_fresh [OF _ assms(4,5)]) (simp_all add: manager_def)
qed

text \<open>The same for lookups in the local-storage cache.\<close>

theorem local_get_fresh:
  assumes "wf_store s" and "local_view s ''undefined'' = None"
    and "cm_get (manager LocalStorageCache) k adj now s = (Inr v, s')"
    and "js_prop v ''access_token'' = Inr tok" and "truthy tok"
  shows "\<exists>key w. key_for k key \<and> local_view s key = Some w \<and> fresh_entry w adj now \<and> js_prop w ''body'' = Inr v"
proof -
  have "v \<noteq> JUndef" using assms(4) by (auto simp: js_prop_def)
  from local.cm_get_sound [OF assms(1) _ assms(2,3) this] show ?thesis
    by (intro access_token_fresh [OF _ assms(4,5)]) (simp_all add: manager_def)
qed

lemma local_removeS: "localStorage (fold local_remove ks s) = filter (\<lambda>(k, v). k \<notin> set ks) (localStorage s)"
proof (induction ks arbitrary: s)
  case Nil
  then show ?case by simp
next
  case (Cons k ks)
  have "localStorage (local_remove k s) = AList.delete k (localStorage s)"
    by (simp add: local_remove_def)
  then have "localStorage (fold local_remove (k # ks) s) = filter (\<lambda>(k, v). k \<notin> set ks) (AList.delete k (localStorage s))"
    using Cons.IH [of "local_remove k s"] by simp
  then show ?case by (auto simp: AList.delete_eq intro!: filter_cong)
qed

text \<open>
  Clearing the local-storage cache removes the items of the library and no others.
\<close>

theorem local_clear_exact:
  "\<exists>s'. cm_clear (manager LocalStorageCache) None s = (Inr (), s') \<and>
     localStorage s' = filter (\<lambda>(k, v). \<not> js_startsWith k CACHE_KEY_PREFIX) (localStorage s) \<and>
     mem s' = mem s"
proof -
  let ?s = "fold local_remove (local_allKeys s) s"
  have "cm_clear (manager LocalStorageCache) None s = (Inr (), ?s)"
    by (simp add: manager_def LocalStorageCache_def cm_clear_def getCacheKeys_def bindE_cases eff_run
        opt_manifest_def for_client_def)
  moreover have "localStorage ?s = filter (\<lambda>(k, v). \<not> js_startsWith k CACHE_KEY_PREFIX) (localStorage s)"
    unfolding local_removeS by (rule filter_cong) (force simp: local_allKeys_def)+
  moreover have "mem (fold local_remove ks s) = mem s" for ks
    by (induction ks arbitrary: s) (simp_all add: local_remove_def)
  ultimately show ?thesis by blast
qed

text \<open>
  The synchronous clear that \<open>logout\<close> runs empties the in-memory cache and leaves the local
  storage alone.
\<close>

theorem memory_clearSync_empty:
  assumes "wf_store s"
  shows "\<exists>s'. cm_clearSync (manager InMemoryCache) None s = (Inr (), s') \<and> mem s' = [] \<and>
     localStorage s' = localStorage s"
proof -
  have m: "mem (fold mem_remove ks s) = filter (\<lambda>(k, v). k \<notin> set ks) (mem s) \<and>
      localStorage (fold mem_remove ks s) = localStorage s" for ks
  proof (induction ks arbitrary: s)
    case (Cons k ks)
    then show ?case by (auto simp: mem_remove_def AList.delete_eq intro!: filter_cong)
  qed simp
  have "cm_clearSync (manager InMemoryCache) None s = (Inr (), fold mem_remove (mem_allKeys s) s)"
    by (simp add: manager_def InMemoryCache_def cm_clearSync_def bindE_cases eff_run for_client_def)
  moreover have "filter (\<lambda>(k, v). k \<notin> set (mem_allKeys s)) (mem s) = []"
    by (force simp: mem_allKeys_def filter_empty_conv)
  ultimately show ?thesis using m by metis
qed

text \<open>
  A cache key written as text is read back with the same parts.
\<close>

theorem fromKey_toKey:
  assumes "key_part c" "key_part a" "\<not> js_includes sc ''::''"
  shows "fromKey (toKey (CacheKey (JStr c) (JStr a) (JStr sc))) = CacheKey (JStr c) (JStr a) (JStr sc)"
  using fromKey_parts [OF key_part_prefix assms] by (simp add: toKey_def CacheKey_def)

theorem fromKey_toKey_witness:
  "key_part ''cid'' \<and> key_part ''https://api/'' \<and>
   fromKey (toKey (CacheKey (JStr ''cid'') (JStr ''https://api/'') (JStr ''openid read:x''))) =
     CacheKey (JStr ''cid'') (JStr ''https://api/'') (JStr ''openid read:x'')"
proof -
  have k: "key_part ''cid''" "key_part ''https://api/''" "\<not> js_includes ''openid read:x'' ''::''"
    by (simp_all add: key_part_def)
  with fromKey_toKey [OF k] show ?thesis by blast
qed

definition sample_memory :: "unit store" where
  "sample_memory = snd (cm_set (manager InMemoryCache) sample_entry 1700000000000 (empty_store ()))"

lemma wrap_sample: "wrapCacheEntry sample_entry 1700000000000 = Inr (wrapped sample_entry 1700003600)"
  using wrap_token_entry [OF sample_token_entry, of 1700000000000]
  by (simp add: expiry_def js_floor_def)

lemma sample_memory_wf: "wf_store sample_memory \<and>
   mem_view sample_memory = (\<lambda>_. None)(toKey (fromCacheEntry sample_entry) \<mapsto> wrapped sample_entry 1700003600)"
proof -
  obtain s' where s': "cm_set (manager InMemoryCache) sample_entry 1700000000000 (empty_store ()) = (Inr (), s')"
    "wf_store s'"
    "mem_view s' = (mem_view (empty_store ()))(toKey (fromCacheEntry sample_entry) \<mapsto> wrapped sample_entry 1700003600)"
    using memory.cm_set_view [OF empty_wf [of "()"] _ _ wrap_sample, of "manager InMemoryCache"]
    by (auto simp: manager_def wrapped_def)
  moreover have "mem_view (empty_store ()) = (\<lambda>_. None)"
    by (simp add: fun_eq_iff mem_view_def empty_store_def)
  ultimately show ?thesis by (simp add: sample_memory_def)
qed


theorem memory_get_fresh_witness:
  "wf_store sample_memory \<and> mem_view sample_memory ''undefined'' = None \<and>
   (\<exists>key w. key_for (fromCacheEntry sample_entry) key \<and> mem_view sample_memory key = Some w \<and>
      fresh_entry w 60 1700001000000 \<and> js_prop w ''body'' = Inr (JObj sample_entry))"
proof -
  let ?k = "fromCacheEntry sample_entry"
  have f: "fresh_entry (wrapped sample_entry 1700003600) 60 1700001000000"
    by (simp add: fresh_wrapped js_floor_def)
  have u: "mem_view sample_memory ''undefined'' = None"
    using sample_memory_wf
    by (simp add: toKey_def fromCacheEntry_def CacheKey_def CACHE_KEY_PREFIX_def)
  obtain s' where "cm_get (manager InMemoryCache) ?k 60 1700001000000 sample_memory = (Inr (JObj sample_entry), s')"
    using memory.cm_get_hit [of sample_memory "manager InMemoryCache" ?k] f sample_memory_wf
    by (fastforce simp: manager_def wrapped_def obj_get_def)
  from memory_get_fresh [OF _ u this, of "JStr ''at''"] sample_memory_wf u show ?thesis
    by (simp add: sample_entry_def obj_get_def)
qed

definition sample_local :: "unit store" where
  "sample_local = snd (cm_set (manager LocalStorageCache) sample_entry 1700000000000 (empty_store ()))"

lemma sample_local_wf: "wf_store sample_local \<and>
   local_view sample_local = (\<lambda>_. None)(toKey (fromCacheEntry sample_entry) \<mapsto> wrapped sample_entry 1700003600)"
proof -
  have "json_ok (wrapped sample_entry 1700003600)"
    using sample_json_ok by (simp add: wrapped_def)
  then obtain s' where s': "cm_set (manager LocalStorageCache) sample_entry 1700000000000 (empty_store ()) = (Inr (), s')"
    "wf_store s'"
    "local_view s' = (local_view (empty_store ()))(toKey (fromCacheEntry sample_entry) \<mapsto> wrapped sample_entry 1700003600)"
    using local.cm_set_view [OF empty_wf [of "()"] _ _ wrap_sample, of "manager LocalStorageCache"]
    by (auto simp: manager_def)
  moreover have "local_view (empty_store ()) = (\<lambda>_. None)"
    by (simp add: fun_eq_iff local_view_def empty_store_def)
  ultimately show ?thesis by (simp add: sample_local_def)
qed

theorem local_get_fresh_witness:
  "wf_store sample_local \<and> local_view sample_local ''undefined'' = None \<and>
   (\<exists>key w. key_for (fromCacheEntry sample_entry) key \<and> local_view sample_local key = Some w \<and>
      fresh_entry w 60 1700001000000 \<and> js_prop w ''body'' = Inr (JObj sample_entry))"
proof -
  let ?k = "fromCacheEntry sample_entry"
  have f: "fresh_entry (wrapped sample_entry 1700003600) 60 1700001000000"
    by (simp add: fresh_wrapped js_floor_def)
  have u: "local_view sample_local ''undefined'' = None"
    using sample_local_wf
    by (simp add: toKey_def fromCacheEntry_def CacheKey_def CACHE_KEY_PREFIX_def)
  obtain s' where "cm_get (manager LocalStorageCache) ?k 60 1700001000000 sample_local = (Inr (JObj sample_entry), s')"
    using local.cm_get_hit [of sample_local "manager LocalStorageCache" ?k] f sample_local_wf
    by (fastforce simp: manager_def wrapped_def obj_get_def)
  from local_get_fresh [OF _ u this, of "JStr ''at''"] sample_local_wf u show ?thesis
    by (simp add: sample_entry_def obj_get_def)
qed

theorem memory_clearSync_empty_witness:
  "\<exists>s'. cm_clearSync (manager InMemoryCache) None sample_memory = (Inr (), s') \<and> mem s' = [] \<and>
     localStorage s' = localStorage sample_memory"
  using memory_clearSync_empty [OF conjunct1 [OF sample_memory_wf]] .

text \<open>A custom cache that does not list its keys, tracked in the manifest of a client.\<close>

definition tracked :: "string \<Rightarrow> 'x cache_manager" where
  "tracked c = \<lparr>cm_cache = PlainMemoryCache, cm_manifest = Some c\<rparr>"

text \<open>
  Storing an entry in a custom cache lists its key in the manifest of the client, beside the
  keys already listed.
\<close>

theorem tracked_set:
  assumes "wf_store s" and "tracks (mem_view s) c ks" and "token_entry entry e x"
    and "obj_get entry ''client_id'' = JStr c"
  shows "\<exists>s'. cm_set (tracked c) entry now s = (Inr (), s') \<and> wf_store s' \<and>
     tracks (mem_view s') c (add_key (toKey (fromCacheEntry entry)) ks) \<and>
     mem_view s' (toKey (fromCacheEntry entry)) = Some (wrapped entry (expiry now e x))"
  using plain.cm_set_tracks [OF assms(1) _ _ assms(2) wrap_token_entry [OF assms(3)] _ _ assms(4), of "tracked c"]
  by (fastforce simp: tracked_def wrapped_def manifest_value_def)

lemma empty_tracks: "tracks (mem_view (empty_store x)) c []"
  by (simp add: tracks_def mem_view_def empty_store_def)

theorem tracked_set_witness:
  "tracks (mem_view (empty_store ())) ''cid'' [] \<and>
   (\<exists>s'. cm_set (tracked ''cid'') sample_entry 1700000000000 (empty_store ()) = (Inr (), s') \<and> wf_store s' \<and>
     tracks (mem_view s') ''cid'' (add_key (toKey (fromCacheEntry sample_entry)) []) \<and>
     mem_view s' (toKey (fromCacheEntry sample_entry)) =
       Some (wrapped sample_entry (expiry 1700000000000 86400 1700003600)))"
  using tracked_set [OF empty_wf [of "()"] empty_tracks sample_token_entry, of "''cid''"]
  by (simp add: empty_tracks) (simp add: sample_entry_def obj_get_def)

text \<open>
  Clearing a custom cache removes every entry the manifest lists, and the manifest itself.
\<close>

theorem tracked_clear:
  assumes "wf_store s" and "tracks (mem_view s) c ks" and "ks \<noteq> []"
  shows "\<exists>s'. cm_clear (tracked c) None s = (Inr (), s') \<and> wf_store s' \<and>
     mem_view s' = (\<lambda>k. if k \<in> set ks \<or> k = createManifestKeyFrom c then None else mem_view s k)"
  using plain.cm_clear_tracks [OF assms(1) _ _ assms(2,3), of "tracked c"] by (simp add: tracked_def)

definition sample_tracked :: "unit store" where
  "sample_tracked = snd (cm_set (tracked ''cid'') sample_entry 1700000000000 (empty_store ()))"

lemma sample_tracked_wf: "wf_store sample_tracked \<and>
   tracks (mem_view sample_tracked) ''cid'' [toKey (fromCacheEntry sample_entry)] \<and>
   mem_view sample_tracked (toKey (fromCacheEntry sample_entry)) = Some (wrapped sample_entry 1700003600) \<and>
   (\<forall>k. k \<noteq> toKey (fromCacheEntry sample_entry) \<longrightarrow> k \<noteq> createManifestKeyFrom ''cid'' \<longrightarrow>
      mem_view sample_tracked k = None)"
proof -
  have c: "obj_get sample_entry ''client_id'' = JStr ''cid''" by (simp add: sample_entry_def obj_get_def)
  have e: "mem_view (empty_store ()) k = None" for k by (simp add: mem_view_def empty_store_def)
  show ?thesis
    using plain.cm_set_tracks [OF empty_wf [of "()"] _ _ empty_tracks wrap_sample _ _ c, of "tracked ''cid''"] e
    by (auto simp: tracked_def wrapped_def manifest_value_def sample_tracked_def add_key_def)
qed

theorem tracked_clear_witness:
  "\<exists>s'. cm_clear (tracked ''cid'') None sample_tracked = (Inr (), s') \<and> wf_store s' \<and>
     mem_view s' = (\<lambda>k. if k \<in> set [toKey (fromCacheEntry sample_entry)] \<or> k = createManifestKeyFrom ''cid''
       then None else mem_view sample_tracked k)"
  using tracked_clear [of sample_tracked "''cid''" "[toKey (fromCacheEntry sample_entry)]"] sample_tracked_wf by blast


end
