(* ===== verification/Encoding.thy ===== *)
theory Encoding
  imports Errors "HOL-Library.Word"
begin

text \<open>
  The pure part of \<open>utils.ts\<close>: percent encoding, base64 and its URL variant, query strings and
  the random strings of the authorization request, with their round trips.

  Binary strings (what \<open>btoa\<close> takes and \<open>atob\<close> returns) are lists of bytes; \<open>latin1\<close> converts a
  text whose code units are all below 256 into one.
\<close>

section \<open>Percent encoding\<close>

definition is_alnum :: "char \<Rightarrow> bool" where
  "is_alnum c =
     (let n = (of_char c :: nat)
      in 48 \<le> n \<and> n \<le> 57 \<or> 65 \<le> n \<and> n \<le> 90 \<or> 97 \<le> n \<and> n \<le> 122)"

definition uri_unreserved :: "char \<Rightarrow> bool" where
  "uri_unreserved c = (is_alnum c \<or> c \<in> set ''-_.!~*()'' \<or> c = CHR 0x27)"

definition hex_upper :: "nat \<Rightarrow> char" where
  "hex_upper n = (if n < 10 then char_of (48 + n) else char_of (55 + n))"

definition pct_enc :: "char \<Rightarrow> string" where
  "pct_enc c =
     (if uri_unreserved c then [c]
      else [CHR ''%'', hex_upper (of_char c div 16), hex_upper (of_char c mod 16)])"

definition encodeURIComponent :: "string \<Rightarrow> string" where
  "encodeURIComponent s = concat (map pct_enc s)"

fun pct_decode :: "string \<Rightarrow> string option" where
  "pct_decode [] = Some []"
| "pct_decode (c # cs) =
     (if c = CHR ''%''
      then (case cs of
              a # b # r \<Rightarrow>
                (case (hex_val a, hex_val b) of
                   (Some x, Some y) \<Rightarrow> map_option ((#) (char_of (16 * x + y))) (pct_decode r)
                 | _ \<Rightarrow> None)
            | _ \<Rightarrow> None)
      else map_option ((#) c) (pct_decode cs))"

text \<open>Well-formed UTF-8 (no overlong forms, no surrogates, nothing above U+10FFFF).\<close>

definition in_range :: "nat \<Rightarrow> nat \<Rightarrow> char \<Rightarrow> bool" where
  "in_range lo hi c = (lo \<le> of_char c \<and> of_char c \<le> hi)"

fun utf8_valid :: "string \<Rightarrow> bool" where
  "utf8_valid [] = True"
| "utf8_valid (c # cs) =
     (if in_range 0 127 c then utf8_valid cs
      else if in_range 194 223 c
        then (case cs of a # r \<Rightarrow> in_range 128 191 a \<and> utf8_valid r | _ \<Rightarrow> False)
      else if in_range 224 239 c
        then (case cs of
                a # b # r \<Rightarrow>
                  in_range (if in_range 224 224 c then 160 else 128)
                           (if in_range 237 237 c then 159 else 191) a \<and>
                  in_range 128 191 b \<and> utf8_valid r
              | _ \<Rightarrow> False)
      else if in_range 240 244 c
        then (case cs of
                a # b # d # r \<Rightarrow>
                  in_range (if in_range 240 240 c then 144 else 128)
                           (if in_range 244 244 c then 143 else 191) a \<and>
                  in_range 128 191 b \<and> in_range 128 191 d \<and> utf8_valid r
              | _ \<Rightarrow> False)
      else False)"

text \<open>
  Decoding copies plain characters and reads each run of escapes as UTF-8. On a well-formed
  text the runs are well-formed exactly when the whole result is.
\<close>

definition decodeURIComponent :: "string \<Rightarrow> js_error + string" where
  "decodeURIComponent s =
     (case pct_decode s of
        None \<Rightarrow> Inl URIError
      | Some t \<Rightarrow> if utf8_valid t then Inr t else Inl URIError)"

section \<open>Base64\<close>

definition b64_char :: "nat \<Rightarrow> char" where
  "b64_char n =
     (if n < 26 then char_of (65 + n) else if n < 52 then char_of (71 + n)
      else if n < 62 then char_of (n - 4) else if n = 62 then CHR ''+'' else CHR ''/'')"

definition b64_val :: "char \<Rightarrow> nat option" where
  "b64_val c =
     (let n = (of_char c :: nat)
      in if 65 \<le> n \<and> n \<le> 90 then Some (n - 65)
         else if 97 \<le> n \<and> n \<le> 122 then Some (n - 71)
         else if 48 \<le> n \<and> n \<le> 57 then Some (n + 4)
         else if c = CHR ''+'' then Some 62
         else if c = CHR ''/'' then Some 63 else None)"

fun btoa_bytes :: "string \<Rightarrow> string" where
  "btoa_bytes [] = []"
| "btoa_bytes [a] =
     [b64_char (of_char a div 4), b64_char (of_char a mod 4 * 16), CHR ''='', CHR ''='']"
| "btoa_bytes [a, b] =
     [b64_char (of_char a div 4), b64_char (of_char a mod 4 * 16 + of_char b div 16),
      b64_char (of_char b mod 16 * 4), CHR ''='']"
| "btoa_bytes (a # b # c # r) =
     b64_char (of_char a div 4) # b64_char (of_char a mod 4 * 16 + of_char b div 16) #
     b64_char (of_char b mod 16 * 4 + of_char c div 64) # b64_char (of_char c mod 64) #
     btoa_bytes r"

text \<open>The code units of a text, when all are below 256.\<close>

fun latin1 :: "string \<Rightarrow> string option" where
  "latin1 [] = Some []"
| "latin1 (c # cs) =
     (if in_range 0 127 c then map_option ((#) c) (latin1 cs)
      else if in_range 194 195 c
        then (case cs of
                d # r \<Rightarrow>
                  if in_range 128 191 d
                  then map_option ((#) (char_of ((of_char c - 192) * 64 + (of_char d - 128 :: nat))))
                         (latin1 r)
                  else None
              | _ \<Rightarrow> None)
      else None)"

definition btoa :: "string \<Rightarrow> js_error + string" where
  "btoa s = (case latin1 s of None \<Rightarrow> Inl InvalidCharacterError | Some bs \<Rightarrow> Inr (btoa_bytes bs))"

fun b64_group :: "nat \<Rightarrow> nat \<Rightarrow> nat \<Rightarrow> nat \<Rightarrow> string" where
  "b64_group w x y z =
     [char_of (w * 4 + x div 16), char_of (x mod 16 * 16 + y div 4), char_of (y mod 4 * 64 + z)]"

fun b64_decode :: "nat list \<Rightarrow> string" where
  "b64_decode (w # x # y # z # r) = b64_group w x y z @ b64_decode r"
| "b64_decode [w, x, y] = take 2 (b64_group w x y 0)"
| "b64_decode [w, x] = take 1 (b64_group w x 0 0)"
| "b64_decode _ = []"

text \<open>
  \<open>atob\<close>: white space is dropped, up to two \<open>=\<close> are dropped from the end of a text of length
  \<open>0 mod 4\<close>; a length of \<open>1 mod 4\<close> or a foreign character is an error; left-over bits are
  discarded.
\<close>

definition strip_pad :: "string \<Rightarrow> string" where
  "strip_pad s =
     (if length s mod 4 = 0
      then (if drop (length s - 2) s = ''=='' then take (length s - 2) s
            else if drop (length s - 1) s = ''='' then take (length s - 1) s else s)
      else s)"

definition b64_ws :: "char \<Rightarrow> bool" where
  "b64_ws c = ((of_char c :: nat) \<in> {9, 10, 12, 13, 32})"

definition atob :: "string \<Rightarrow> js_error + string" where
  "atob s =
     (let t = strip_pad (filter (\<lambda>c. \<not> b64_ws c) s)
      in if length t mod 4 = 1 \<or> \<not> list_all (\<lambda>c. b64_val c \<noteq> None) t
         then Inl InvalidCharacterError
         else Inr (b64_decode (map (\<lambda>c. the (b64_val c)) t)))"

text \<open>\<open>urlEncodeB64\<close>, \<open>decodeB64\<close>, \<open>urlDecodeB64\<close> and \<open>bufferToBase64UrlEncoded\<close>.\<close>

definition b64url_char :: "char \<Rightarrow> string" where
  "b64url_char c =
     (if c = CHR ''+'' then ''-'' else if c = CHR ''/'' then ''_''
      else if c = CHR ''='' then [] else [c])"

definition urlEncodeB64 :: "string \<Rightarrow> string" where
  "urlEncodeB64 input = concat (map b64url_char input)"

definition pct_byte :: "char \<Rightarrow> string" where
  "pct_byte c = [CHR ''%'', hex_char (of_char c div 16), hex_char (of_char c mod 16)]"

definition decodeB64 :: "string \<Rightarrow> js_error + string" where
  "decodeB64 input = bindR (atob input) (\<lambda>bs. decodeURIComponent (concat (map pct_byte bs)))"

definition urlDecodeB64 :: "string \<Rightarrow> js_error + string" where
  "urlDecodeB64 input =
     decodeB64 (map (\<lambda>c. if c = CHR ''_'' then CHR ''/'' else if c = CHR ''-'' then CHR ''+'' else c) input)"

definition bufferToBase64UrlEncoded :: "string \<Rightarrow> string" where
  "bufferToBase64UrlEncoded input = urlEncodeB64 (btoa_bytes input)"

section \<open>Random strings\<close>

definition charset :: string where
  "charset = ''0123456789ABCDEFGHIJKLMNOPQRSTUVWXYZabcdefghijklmnopqrstuvwxyz-_~.''"

text \<open>The argument is what \<open>getRandomValues(new Uint8Array(43))\<close> filled in.\<close>

definition createRandomString :: "8 word list \<Rightarrow> string" where
  "createRandomString randomValues = map (\<lambda>v. charset ! (unat v mod length charset)) randomValues"

section \<open>Query strings\<close>

definition query_pair :: "string \<times> jsval \<Rightarrow> string" where
  "query_pair kv = encodeURIComponent (fst kv) @ ''='' @ encodeURIComponent (to_string (snd kv))"

definition createQueryParams :: "obj \<Rightarrow> string" where
  "createQueryParams params =
     join ''&'' (map query_pair (filter (\<lambda>kv. snd kv \<noteq> JUndef) params))"

text \<open>
  One \<open>key=value\<close> piece: text after a second \<open>=\<close> is dropped, a missing value is the text
  \<open>undefined\<close>, and the key is taken as it stands.
\<close>

definition parse_pair :: "string \<Rightarrow> obj \<Rightarrow> js_error + obj" where
  "parse_pair qp ob =
     (case split_on ''='' qp of
        key # val # _ \<Rightarrow>
          bindR (decodeURIComponent val) (\<lambda>v. Inr (obj_set key (JStr v) ob))
      | key # [] \<Rightarrow> bindR (decodeURIComponent ''undefined'') (\<lambda>v. Inr (obj_set key (JStr v) ob))
      | [] \<Rightarrow> Inr ob)"

fun parse_pairs :: "string list \<Rightarrow> obj \<Rightarrow> js_error + obj" where
  "parse_pairs [] ob = Inr ob"
| "parse_pairs (qp # qps) ob = bindR (parse_pair qp ob) (parse_pairs qps)"

definition parseQueryResult :: "string \<Rightarrow> js_error + obj" where
  "parseQueryResult queryString =
     bindR (parse_pairs (split_on ''&'' (before_char (CHR ''#'') queryString)) [])
       (\<lambda>q. if truthy (obj_get q ''expires_in'')
            then Inr (obj_set ''expires_in'' (parse_int (to_string (obj_get q ''expires_in''))) q)
            else Inr q)"

section \<open>Lemmas: percent encoding\<close>

lemma hex_val_upper [simp]: "k < 16 \<Longrightarrow> hex_val (hex_upper k) = Some k"
  by (auto simp: hex_val_def hex_upper_def Let_def)

lemma byte_split: "char_of (16 * (of_char c div 16) + of_char c mod (16 :: nat)) = c"
  by (metis mult.commute div_mult_mod_eq char_of_char)

lemma nibbles [simp]: "of_char c div 16 < (16 :: nat)" "of_char c mod 16 < (16 :: nat)"
  using nat_of_char_less_256 [of c] by (simp_all add: div_less_iff_less_mult)

lemma pct_decode_enc: "pct_decode (pct_enc c @ t) = map_option ((#) c) (pct_decode t)"
proof (cases "uri_unreserved c")
  case True
  then have "c \<noteq> CHR ''%''" by (auto simp: uri_unreserved_def is_alnum_def)
  with True show ?thesis by (simp add: pct_enc_def)
next
  case False
  then show ?thesis by (simp add: pct_enc_def byte_split)
qed

lemma pct_decode_encode: "pct_decode (encodeURIComponent s) = Some s"
  by (induction s) (simp_all add: encodeURIComponent_def pct_decode_enc)

lemma pct_decode_bytes: "pct_decode (concat (map pct_byte bs)) = Some bs"
  by (induction bs) (simp_all add: pct_byte_def byte_split)

theorem decode_encodeURIComponent:
  "utf8_valid s \<Longrightarrow> decodeURIComponent (encodeURIComponent s) = Inr s"
  by (simp add: decodeURIComponent_def pct_decode_encode)

text \<open>Encoded text holds unreserved characters, percent signs and hex digits only.\<close>

lemma hex_upper_alnum: "k < 16 \<Longrightarrow> is_alnum (hex_upper k)"
  by (auto simp: is_alnum_def hex_upper_def Let_def)

lemma encodeURIComponent_chars:
  "c \<in> set (encodeURIComponent s) \<Longrightarrow> uri_unreserved c \<or> c = CHR ''%''"
  by (auto simp: encodeURIComponent_def pct_enc_def uri_unreserved_def hex_upper_alnum split: if_splits)

lemma encodeURIComponent_id:
  "list_all uri_unreserved s \<Longrightarrow> encodeURIComponent s = s"
  by (induction s) (simp_all add: encodeURIComponent_def pct_enc_def)

lemma encoded_no_delim [simp]:
  "CHR ''&'' \<notin> set (encodeURIComponent s)" "CHR ''='' \<notin> set (encodeURIComponent s)"
  "CHR ''#'' \<notin> set (encodeURIComponent s)" "CHR ''?'' \<notin> set (encodeURIComponent s)"
  using encodeURIComponent_chars [of _ s] by (force simp: uri_unreserved_def is_alnum_def)+

section \<open>Lemmas: base64\<close>

lemma b64_val_char [simp]: "n < 64 \<Longrightarrow> b64_val (b64_char n) = Some n"
  by (auto simp: b64_val_def b64_char_def Let_def)

lemma b64_char_code:
  "n < 64 \<Longrightarrow> of_char (b64_char n) = (if n < 26 then 65 + n else if n < 52 then 71 + n
     else if n < 62 then n - 4 else if n = 62 then 43 else (47 :: nat))"
  by (simp add: b64_char_def)

lemma b64_char_not_special [simp]: "n < 64 \<Longrightarrow> b64_char n \<noteq> CHR ''=''" "n < 64 \<Longrightarrow> \<not> b64_ws (b64_char n)"
proof -
  assume n: "n < 64"
  have "of_char (b64_char n) \<noteq> (61 :: nat)" using n by (auto simp: b64_char_code)
  then show "b64_char n \<noteq> CHR ''=''" by auto
  show "\<not> b64_ws (b64_char n)" using n by (auto simp: b64_ws_def b64_char_code)
qed

lemma sextets [simp]:
  "of_char a div 4 < (64 :: nat)" "of_char c mod 64 < (64 :: nat)"
  "of_char a mod 4 * 16 + of_char b div 16 < (64 :: nat)"
  "of_char b mod 16 * 4 + of_char c div 64 < (64 :: nat)"
  "of_char a mod 4 * 16 < (64 :: nat)" "of_char b mod 16 * 4 < (64 :: nat)"
proof -
  have "of_char a mod 4 < (4 :: nat)" "of_char b mod 16 < (16 :: nat)" "of_char c div 64 < (4 :: nat)"
    using nat_of_char_less_256 [of c] by (simp_all add: div_less_iff_less_mult)
  moreover have "of_char b div 16 < (16 :: nat)" by simp
  ultimately show "of_char a mod 4 * 16 + of_char b div 16 < (64 :: nat)"
    "of_char b mod 16 * 4 + of_char c div 64 < (64 :: nat)"
    "of_char a mod 4 * 16 < (64 :: nat)" "of_char b mod 16 * 4 < (64 :: nat)" by linarith+
qed (use nat_of_char_less_256 [of a] in \<open>simp_all add: div_less_iff_less_mult\<close>)

lemma b64_bytes:
  assumes "a < 256" "b < 256" "c < (256 :: nat)"
  shows "a div 4 * 4 + (a mod 4 * 16 + b div 16) div 16 = a"
    and "(a mod 4 * 16 + b div 16) mod 16 * 16 + (b mod 16 * 4 + c div 64) div 4 = b"
    and "(b mod 16 * 4 + c div 64) mod 4 * 64 + c mod 64 = c"
proof -
  have "(a mod 4 * 16 + b div 16) div 16 = a mod 4" "(a mod 4 * 16 + b div 16) mod 16 = b div 16"
    "(b mod 16 * 4 + c div 64) div 4 = b mod 16" "(b mod 16 * 4 + c div 64) mod 4 = c div 64"
    using assms by (simp_all add: div_mult2_eq [symmetric] mod_mult_self3)
  then show "a div 4 * 4 + (a mod 4 * 16 + b div 16) div 16 = a"
    and "(a mod 4 * 16 + b div 16) mod 16 * 16 + (b mod 16 * 4 + c div 64) div 4 = b"
    and "(b mod 16 * 4 + c div 64) mod 4 * 64 + c mod 64 = c"
    by simp_all
qed

lemma b64_group_inv:
  "b64_group (of_char a div 4) (of_char a mod 4 * 16 + of_char b div 16)
     (of_char b mod 16 * 4 + of_char c div 64) (of_char c mod 64) = [a, b, c]"
  using b64_bytes [of "of_char a" "of_char b" "of_char c"] by simp

lemma b64_group_inv2:
  "take 2 (b64_group (of_char a div 4) (of_char a mod 4 * 16 + of_char b div 16) (of_char b mod 16 * 4) 0) = [a, b]"
  using b64_bytes [of "of_char a" "of_char b" 0] by simp

lemma b64_group_inv1:
  "take 1 (b64_group (of_char a div 4) (of_char a mod 4 * 16) 0 0) = [a]"
  using b64_bytes [of "of_char a" 0 0] by simp

lemma length_btoa: "length (btoa_bytes s) mod 4 = 0"
  by (induction s rule: btoa_bytes.induct) auto

text \<open>The sextets of an encoded text, its padding, and what decoding makes of them.\<close>

fun b64_sextets :: "string \<Rightarrow> nat list" where
  "b64_sextets [] = []"
| "b64_sextets [a] = [of_char a div 4, of_char a mod 4 * 16]"
| "b64_sextets [a, b] =
     [of_char a div 4, of_char a mod 4 * 16 + of_char b div 16, of_char b mod 16 * 4]"
| "b64_sextets (a # b # c # r) =
     of_char a div 4 # (of_char a mod 4 * 16 + of_char b div 16) #
     (of_char b mod 16 * 4 + of_char c div 64) # (of_char c mod 64) # b64_sextets r"

lemma b64_sextets_bound: "n \<in> set (b64_sextets s) \<Longrightarrow> n < 64"
  by (induction s rule: b64_sextets.induct) auto

lemma b64_decode_sextets: "b64_decode (b64_sextets s) = s"
proof (induction s rule: b64_sextets.induct)
  case (4 a b c r)
  then show ?case by (simp add: b64_group_inv del: b64_group.simps)
qed (simp_all add: b64_group_inv2 b64_group_inv1 [unfolded One_nat_def] del: b64_group.simps)

lemma b64_sextets_mod: "length (b64_sextets s) mod 4 \<noteq> Suc 0"
  by (induction s rule: b64_sextets.induct) auto

lemma btoa_sextets:
  "\<exists>k \<le> 2. btoa_bytes s = map b64_char (b64_sextets s) @ replicate k (CHR ''='') \<and>
     (k = 0 \<or> length (b64_sextets s) mod 4 \<noteq> 0) "
proof (induction s rule: b64_sextets.induct)
  case (4 a b c r)
  then show ?case by auto
qed (auto intro: exI [of _ 0] exI [of _ 1] exI [of _ 2] simp: numeral_2_eq_2)

lemma strip_pad_encoded:
  assumes "CHR ''='' \<notin> set w" and "k \<le> 2" and "k = 0 \<or> (length w + k) mod 4 = 0"
  shows "strip_pad (w @ replicate k (CHR ''='')) = w"
proof -
  have last: "drop n w \<noteq> CHR ''='' # u" for n u
    using assms(1) by (metis in_set_dropD list.set_intros(1))
  consider "k = 0" | "k = 1" | "k = 2" using assms(2) by linarith
  then show ?thesis
  proof cases
    case 1
    then show ?thesis by (simp add: strip_pad_def last)
  next
    case 2
    then have "3 \<le> length w" using assms(3) by simp presburger
    then have "drop (length w - 1) w = [last w]" by (cases w rule: rev_cases) auto
    moreover have "w \<noteq> []" "last w \<noteq> CHR ''=''"
      using \<open>3 \<le> length w\<close> assms(1) last_in_set [of w] by fastforce+
    ultimately show ?thesis using 2 assms(3) by (simp add: strip_pad_def)
  next
    case 3
    then show ?thesis using assms(3) by (simp add: strip_pad_def numeral_2_eq_2)
  qed
qed

lemma atob_sextets:
  assumes "\<And>n. n \<in> set xs \<Longrightarrow> n < 64" and "length xs mod 4 \<noteq> 1"
    and "k \<le> 2" and "k = 0 \<or> (length xs + k) mod 4 = 0"
  shows "atob (map b64_char xs @ replicate k (CHR ''='')) = Inr (b64_decode xs)"
proof -
  have "filter (\<lambda>c. \<not> b64_ws c) (map b64_char xs @ replicate k (CHR ''='')) = map b64_char xs @ replicate k (CHR ''='')"
    using assms(1) by (auto simp: filter_id_conv) (simp add: b64_ws_def)
  moreover have "strip_pad (map b64_char xs @ replicate k (CHR ''='')) = map b64_char xs"
  proof (rule strip_pad_encoded)
    show "CHR ''='' \<notin> set (map b64_char xs)"
      unfolding set_map using assms(1) b64_char_not_special(1) by (metis imageE)
  qed (use assms in auto)
  moreover have "map ((\<lambda>c. the (b64_val c)) \<circ> b64_char) xs = xs"
    using assms(1) by (induction xs) auto
  ultimately show ?thesis
    using assms(1,2) by (simp add: atob_def list_all_iff)
qed

theorem atob_btoa: "atob (btoa_bytes bs) = Inr bs"
proof -
  obtain k where k: "k \<le> 2" "btoa_bytes bs = map b64_char (b64_sextets bs) @ replicate k (CHR ''='')"
    using btoa_sextets by blast
  then have "(length (b64_sextets bs) + k) mod 4 = 0"
    using length_btoa [of bs] by simp
  then show ?thesis
    unfolding k(2) using k(1)
    by (subst atob_sextets) (auto simp: b64_sextets_bound b64_sextets_mod b64_decode_sextets)
qed

lemma b64url_sextet:
  assumes "n < 64"
  shows "map (\<lambda>c. if c = CHR ''_'' then CHR ''/'' else if c = CHR ''-'' then CHR ''+'' else c)
           (b64url_char (b64_char n)) = [b64_char n]"
proof -
  have "b64_char n \<notin> {CHR ''_'', CHR ''-''}" "b64_char n \<noteq> CHR ''=''"
    using assms b64_char_code [OF assms] by (auto split: if_splits)
  then show ?thesis by (auto simp: b64url_char_def)
qed

lemma urlDecodeB64_buffer:
  "urlDecodeB64 (bufferToBase64UrlEncoded bs) = (if utf8_valid bs then Inr bs else Inl URIError)"
proof -
  let ?r = "map (\<lambda>c. if c = CHR ''_'' then CHR ''/'' else if c = CHR ''-'' then CHR ''+'' else c)"
  obtain k where k: "btoa_bytes bs = map b64_char (b64_sextets bs) @ replicate k (CHR ''='')"
    using btoa_sextets by blast
  have pad: "concat (map b64url_char (replicate k (CHR ''=''))) = []"
    by (induction k) (simp_all add: b64url_char_def)
  have "?r (concat (map b64url_char (map b64_char xs))) = map b64_char xs"
    if "\<And>n. n \<in> set xs \<Longrightarrow> n < 64" for xs
    using that by (induction xs) (simp_all add: b64url_sextet)
  then have "?r (bufferToBase64UrlEncoded bs) = map b64_char (b64_sextets bs)"
    using pad by (simp add: bufferToBase64UrlEncoded_def urlEncodeB64_def k b64_sextets_bound)
  moreover have "atob (map b64_char (b64_sextets bs)) = Inr bs"
    using atob_sextets [of "b64_sextets bs" 0] by (simp add: b64_sextets_bound b64_sextets_mod b64_decode_sextets)
  ultimately show ?thesis
    by (simp add: urlDecodeB64_def decodeB64_def decodeURIComponent_def pct_decode_bytes)
qed

section \<open>Lemmas: random strings\<close>

lemma length_charset: "length charset = 66"
  by (simp add: charset_def)

lemma charset_unreserved: "c \<in> set charset \<Longrightarrow> uri_unreserved c \<and> in_range 0 127 c"
proof -
  have "list_all (\<lambda>c. uri_unreserved c \<and> in_range 0 127 c) charset" by code_simp
  then show "c \<in> set charset \<Longrightarrow> ?thesis" by (simp add: list_all_iff)
qed

lemma createRandomString_chars: "c \<in> set (createRandomString rs) \<Longrightarrow> c \<in> set charset"
  by (auto simp: createRandomString_def length_charset intro!: nth_mem)

lemma createRandomString_onto:
  assumes "c \<in> set charset"
  shows "\<exists>v. createRandomString [v] = [c]"
proof -
  obtain i where i: "i < 66" "charset ! i = c"
    using assms by (metis in_set_conv_nth length_charset)
  then have "createRandomString [word_of_nat i] = [c]"
    by (simp add: createRandomString_def length_charset unat_of_nat)
  then show ?thesis by blast
qed

lemma latin1_ascii: "list_all (in_range 0 127) s \<Longrightarrow> latin1 s = Some s"
  by (induction s) auto

lemma utf8_ascii: "list_all (in_range 0 127) s \<Longrightarrow> utf8_valid s"
  by (induction s) auto

section \<open>Lemmas: ASCII values print as ASCII text\<close>

abbreviation ascii :: "string \<Rightarrow> bool" where
  "ascii s \<equiv> list_all (in_range 0 127) s"

fun ascii_val :: "jsval \<Rightarrow> bool" where
  "ascii_val (JStr s) = ascii s"
| "ascii_val (JArr vs) = list_all ascii_val vs"
| "ascii_val (JObj kvs) = list_all (\<lambda>(k, v). ascii k \<and> ascii_val v) kvs"
| "ascii_val (JFun src) = False"
| "ascii_val _ = True"

lemma ascii_join: "ascii sep \<Longrightarrow> list_all ascii ws \<Longrightarrow> ascii (join sep ws)"
  by (induction sep ws rule: join.induct) auto

lemma ascii_digits: "(\<And>c. c \<in> set s \<Longrightarrow> is_digit c) \<Longrightarrow> ascii s"
  by (fastforce simp: list_all_iff is_digit_def in_range_def)

lemma ascii_num: "ascii (num_to_string r)"
proof -
  have "ascii (show_nat n)" for n by (rule ascii_digits [OF show_nat_digits])
  moreover have "ascii (pad_left k (show_nat n))" for k n
    by (rule ascii_digits [OF pad_left_digits [OF show_nat_digits]])
  ultimately show ?thesis by (simp add: num_to_string_text dec_text_def in_range_def)
qed

lemma ascii_esc: "in_range 0 127 c \<Longrightarrow> ascii (json_esc c)"
proof -
  assume c: "in_range 0 127 c"
  have "in_range 0 127 (hex_char n)" if "n < 16" for n
    using that by (simp add: hex_char_def in_range_def)
  then show ?thesis using c by (simp add: json_esc_def Let_def in_range_def)
qed

lemma ascii_quote: "ascii s \<Longrightarrow> ascii (json_quote s)"
proof -
  assume "ascii s"
  then have "ascii (concat (map json_esc s))"
    by (induction s) (simp_all add: ascii_esc)
  then show ?thesis by (simp add: json_quote_def in_range_def)
qed

lemma ascii_stringify: "ascii_val v \<Longrightarrow> stringify v = Some t \<Longrightarrow> ascii t"
proof (induction v arbitrary: t)
  case (JArr vs)
  have "list_all ascii (map (\<lambda>v. case stringify v of None \<Rightarrow> ''null'' | Some t \<Rightarrow> t) vs)"
    using JArr.IH JArr.prems(1) by (auto simp: list_all_iff in_range_def split: option.split)
  from ascii_join [OF _ this, of "'',''"] JArr.prems(2) show ?case by (auto simp: in_range_def [abs_def])
next
  case (JObj kvs)
  have "ascii w" if w: "w \<in> set (concat (map (\<lambda>(k, v). case stringify v of None \<Rightarrow> [] | Some t \<Rightarrow> [json_quote k @ '':'' @ t]) kvs))" for w
  proof -
    obtain k v u where kv: "(k, v) \<in> set kvs" "stringify v = Some u" "w = json_quote k @ '':'' @ u"
      using w by (fastforce split: option.splits)
    then have "ascii k" "ascii_val v" using JObj.prems(1) by (auto simp: list_all_iff)
    then have "ascii (json_quote k)" "ascii u" using JObj.IH [OF kv(1)] kv(2) ascii_quote by auto
    then show ?thesis by (simp add: kv(3) in_range_def)
  qed
  then have "list_all ascii (concat (map (\<lambda>(k, v). case stringify v of None \<Rightarrow> [] | Some t \<Rightarrow> [json_quote k @ '':'' @ t]) kvs))"
    by (simp only: list_all_iff) blast
  from ascii_join [OF _ this, of "'',''"] JObj.prems(2) show ?case by (auto simp: in_range_def [abs_def])
qed (auto simp: ascii_num ascii_quote in_range_def)

section \<open>Lemmas: query strings\<close>

definition plain_params :: "obj \<Rightarrow> bool" where
  "plain_params ob = (wf_obj ob \<and>
     list_all (\<lambda>(k, v). list_all uri_unreserved k \<and> (\<exists>s. v = JStr s \<and> utf8_valid s)) ob)"

lemma parse_pair_query:
  assumes "list_all uri_unreserved k" and "utf8_valid s"
  shows "parse_pair (query_pair (k, JStr s)) ob = Inr (obj_set k (JStr s) ob)"
proof -
  have "split_on ''='' (query_pair (k, JStr s)) = [encodeURIComponent k, encodeURIComponent s]"
    using split_on_safe [of "''=''" "encodeURIComponent k" "encodeURIComponent s"]
    by (simp add: query_pair_def sep_safe_no_sep split_on_no_sep)
  then show ?thesis
    using assms by (simp add: parse_pair_def encodeURIComponent_id decode_encodeURIComponent)
qed

lemma parse_pairs_query:
  assumes "plain_params ob" and "set (obj_keys acc) \<inter> set (obj_keys ob) = {}"
  shows "parse_pairs (map query_pair ob) acc = Inr (acc @ ob)"
  using assms
proof (induction ob arbitrary: acc)
  case Nil
  then show ?case by simp
next
  case (Cons kv ob)
  obtain k s where kv: "kv = (k, JStr s)" "list_all uri_unreserved k" "utf8_valid s"
    using Cons.prems(1) by (cases kv) (auto simp: plain_params_def)
  have "obj_set k (JStr s) acc = acc @ [kv]"
    using Cons.prems(2) kv by (subst obj_set_new) (auto simp: obj_keys_def)
  moreover have "parse_pairs (map query_pair ob) (acc @ [kv]) = Inr ((acc @ [kv]) @ ob)"
    using Cons.prems kv by (intro Cons.IH) (auto simp: plain_params_def wf_obj_def obj_keys_def)
  ultimately show ?case using kv by (simp add: parse_pair_query)
qed

lemma query_pair_chars [simp]:
  "CHR ''&'' \<notin> set (query_pair kv)" "CHR ''#'' \<notin> set (query_pair kv)" "CHR ''?'' \<notin> set (query_pair kv)"
  by (simp_all add: query_pair_def)

lemma join_chars: "c \<in> set (join sep ws) \<Longrightarrow> c \<in> set sep \<or> (\<exists>w \<in> set ws. c \<in> set w)"
  by (induction sep ws rule: join.induct) auto

lemma createQueryParams_chars:
  "CHR ''#'' \<notin> set (createQueryParams ob)" "CHR ''?'' \<notin> set (createQueryParams ob)"
  unfolding createQueryParams_def by (auto dest!: join_chars)

lemma before_char_stop: "c \<notin> set w \<Longrightarrow> before_char c (w @ c # t) = w"
  unfolding before_char_def by (induction w) auto

lemma before_char_none: "c \<notin> set w \<Longrightarrow> before_char c w = w"
  unfolding before_char_def by (induction w) auto

lemma parseQueryResult_params:
  assumes "plain_params ob" "ob \<noteq> []" "''expires_in'' \<notin> set (obj_keys ob)"
    and "before_char (CHR ''#'') q = createQueryParams ob"
  shows "parseQueryResult q = Inr ob"
proof -
  have "filter (\<lambda>kv. snd kv \<noteq> JUndef) ob = ob"
    using assms(1) by (auto simp: filter_id_conv plain_params_def list_all_iff)
  then have "split_on ''&'' (createQueryParams ob) = map query_pair ob"
    unfolding createQueryParams_def using assms(2) by (subst split_on_char_join) auto
  then have "parse_pairs (split_on ''&'' (before_char (CHR ''#'') q)) [] = Inr ob"
    using parse_pairs_query [OF assms(1), of "[]"] assms(4) by (simp add: obj_keys_def)
  moreover have "obj_get ob ''expires_in'' = JUndef"
    using assms(3) by (auto simp: obj_get_def obj_keys_def dest!: map_of_SomeD split: option.splits intro: rev_image_eqI)
  ultimately show ?thesis by (simp add: parseQueryResult_def)
qed

section \<open>Properties\<close>



text \<open>
  Base64url text made from bytes decodes to those bytes when they are well-formed UTF-8, and is
  refused otherwise.
\<close>

theorem base64url_roundtrip:
  "urlDecodeB64 (bufferToBase64UrlEncoded bs) = (if utf8_valid bs then Inr bs else Inl URIError)"
  by (rule urlDecodeB64_buffer)

lemma card_residue:
  fixes i :: nat
  assumes "i < 66"
  shows "card {n. n < 256 \<and> n mod 66 = i} = (if i < 58 then 4 else (3 :: nat))"
proof -
  let ?K = "if i < 58 then {0, 1, 2, 3} else {0, 1, 2 :: nat}"
  have "{n. n < 256 \<and> n mod 66 = i} = (\<lambda>k. i + 66 * k) ` ?K"
  proof (intro set_eqI iffI)
    fix n assume "n \<in> {n. n < 256 \<and> n mod 66 = i}"
    then have n: "n < 256" "n mod 66 = i" by simp_all
    obtain q where q: "n = i + 66 * q" using n(2) by (metis add.commute mult_div_mod_eq)
    have "q = 0 \<or> q = 1 \<or> q = 2 \<or> q = 3 \<and> i < 58" using n(1) unfolding q by linarith
    then have "q \<in> ?K" by auto
    with q show "n \<in> (\<lambda>k. i + 66 * k) ` ?K" by blast
  next
    fix n assume "n \<in> (\<lambda>k. i + 66 * k) ` ?K"
    then obtain q where q: "n = i + 66 * q" "q \<in> ?K" by blast
    then have "n < 256" using assms by (auto split: if_splits)
    moreover have "n mod 66 = i" using assms unfolding q(1) by simp
    ultimately show "n \<in> {n. n < 256 \<and> n mod 66 = i}" by simp
  qed
  moreover have "inj_on (\<lambda>k. i + 66 * k) ?K" by (auto simp: inj_on_def)
  ultimately show ?thesis by (simp add: card_image)
qed

text \<open>
  One random byte gives every character of the alphabet, each for three or four of the 256 bytes: the
  first 58 characters are slightly more likely than the last 8, and no other character appears.
\<close>

theorem random_char_count:
  assumes "i < length charset"
  shows "card {v. createRandomString [v] = [charset ! i]} = (if i < 58 then 4 else 3)"
proof -
  have d: "distinct charset" by code_simp
  have b: "unat v < 2 ^ LENGTH(8)" for v :: "8 word" by (rule unsigned_less)
  have "createRandomString [v] = [charset ! i] \<longleftrightarrow> unat v mod 66 = i" for v
    using assms d by (simp add: createRandomString_def length_charset nth_eq_iff_index_eq)
  then have iff: "{v. createRandomString [v] = [charset ! i]} = {v. unat v mod 66 = i}" by blast
  have img: "unat ` {v. createRandomString [v] = [charset ! i]} = {n. n < 256 \<and> n mod 66 = i}"
    unfolding iff
  proof (intro set_eqI iffI)
    fix n assume "n \<in> {n. n < 256 \<and> n mod 66 = i}"
    then have "n = unat (word_of_nat n :: 8 word)" "n mod 66 = i" by (simp_all add: unat_of_nat)
    then show "n \<in> unat ` {v :: 8 word. unat v mod 66 = i}" by (metis (mono_tags, lifting) imageI mem_Collect_eq)
  next
    fix n assume "n \<in> unat ` {v :: 8 word. unat v mod 66 = i}"
    then obtain v :: "8 word" where "n = unat v" "unat v mod 66 = i" by blast
    then show "n \<in> {n. n < 256 \<and> n mod 66 = i}" using b [of v] by simp
  qed
  have inj: "inj_on unat {v :: 8 word. createRandomString [v] = [charset ! i]}"
    by (auto simp: inj_on_def unsigned_word_eqI)
  have "card {v. createRandomString [v] = [charset ! i]} = card {n. n < 256 \<and> n mod 66 = i}"
    using card_image [OF inj] unfolding img by (rule sym)
  also have "\<dots> = (if i < 58 then 4 else 3)"
    using card_residue assms by (simp only: length_charset)
  finally show ?thesis .
qed

theorem random_char_count_witness:
  "card {v. createRandomString [v] = ''0''} = 4 \<and> card {v. createRandomString [v] = ''.''} = 3"
  using random_char_count [of 0] random_char_count [of 65] by (simp add: charset_def)

end
