(* ===== verification/Jwt.thy ===== *)
theory Jwt
  imports Encoding
begin

text \<open>
  \<open>jwt.ts\<close>: decoding an ID token and checking its claims. The library does not verify the
  signature; it checks that the header names \<open>RS256\<close>.

  A \<open>Date\<close> is its time value: whole milliseconds within the range ECMAScript allows, or
  \<open>None\<close> for an invalid date, with which every comparison is false. How a date prints in an
  error message depends on engine and time zone and is the parameter \<open>showDate\<close>; the reading of
  the system clock is \<open>Date_now\<close>. The claim name \<open>__proto__\<close>, which an assignment treats
  specially, is not represented.
\<close>

section \<open>Values\<close>

text \<open>\<open>a === b\<close> for values of different origin: two objects are never the same one.\<close>

fun js_same :: "jsval \<Rightarrow> jsval \<Rightarrow> bool" where
  "js_same (JStr a) (JStr b) = (a = b)"
| "js_same (JNum a) (JNum b) = (a = b)"
| "js_same (JBool a) (JBool b) = (a = b)"
| "js_same JUndef JUndef = True"
| "js_same JNull JNull = True"
| "js_same _ _ = False"

text \<open>
  \<open>parseInt(v)\<close> on a value: it reads the printed form, which for numbers of \<open>1e21\<close> and more, or
  below \<open>1e-6\<close>, is in exponent notation, so that only the leading digit is read.
\<close>

definition leading_digit :: "rat \<Rightarrow> rat" where
  "leading_digit r =
     of_nat (digit_val (hd (show_nat (nat \<lfloor>\<bar>r\<bar> * 10 ^ dec_places \<bar>r\<bar>\<rfloor>))))"

definition js_parseInt :: "jsval \<Rightarrow> jsval" where
  "js_parseInt v =
     (case v of
        JNum r \<Rightarrow>
          if 10 ^ 21 \<le> \<bar>r\<bar> \<or> r \<noteq> 0 \<and> \<bar>r\<bar> < 1 / 10 ^ 6
          then JNum (if r < 0 then - leading_digit r else leading_digit r)
          else parse_int (to_string v)
      | _ \<Rightarrow> parse_int (to_string v))"

section \<open>Dates\<close>

type_synonym date = "rat option"

definition js_trunc :: "rat \<Rightarrow> rat" where
  "js_trunc r = (if 0 \<le> r then of_int \<lfloor>r\<rfloor> else of_int \<lceil>r\<rceil>)"

definition TimeClip :: "rat \<Rightarrow> date" where
  "TimeClip t = (if \<bar>t\<bar> \<le> 8640000000000000 then Some (js_trunc t) else None)"

definition new_Date :: "jsval \<Rightarrow> date" where
  "new_Date v = (case v of JNum t \<Rightarrow> TimeClip t | _ \<Rightarrow> None)"

text \<open>\<open>d = new Date(0); d.setUTCSeconds(v)\<close>.\<close>

definition setUTCSeconds :: "jsval \<Rightarrow> date" where
  "setUTCSeconds v = (case to_number v of JNum s \<Rightarrow> TimeClip (1000 * js_trunc s) | _ \<Rightarrow> None)"

fun date_less :: "date \<Rightarrow> date \<Rightarrow> bool" where
  "date_less (Some a) (Some b) = (a < b)"
| "date_less _ _ = False"

section \<open>Decoding\<close>

definition idTokendecoded :: "string list" where
  "idTokendecoded =
     [''iss'', ''aud'', ''exp'', ''nbf'', ''iat'', ''jti'', ''azp'', ''nonce'', ''auth_time'',
      ''at_hash'', ''c_hash'', ''acr'', ''amr'', ''sub_jwk'', ''cnf'', ''sip_from_tag'',
      ''sip_date'', ''sip_callid'', ''sip_cseq_num'', ''sip_via_branch'', ''orig'', ''dest'',
      ''mky'', ''events'', ''toe'', ''txn'', ''rph'', ''sid'', ''vot'', ''vtm'']"

record decoded =
  encoded :: obj
  header :: jsval
  claims :: obj
  user :: obj

text \<open>The body of the \<open>forEach\<close>: both objects grow together.\<close>

definition add_claim :: "string \<times> jsval \<Rightarrow> obj \<times> obj \<Rightarrow> obj \<times> obj" where
  "add_claim kv cu =
     (obj_set (fst kv) (snd kv) (fst cu),
      if fst kv \<in> set idTokendecoded then snd cu else obj_set (fst kv) (snd kv) (snd cu))"

definition decode :: "string \<Rightarrow> js_error + decoded" where
  "decode token =
     (case split_on ''.'' token of
        [hdr, payload, signature] \<Rightarrow>
          if hdr = [] \<or> payload = [] \<or> signature = []
          then Inl (Error ''ID token could not be decoded'')
          else
            bindR (bindR (urlDecodeB64 payload) JSON_parse) (\<lambda>payloadJSON.
            bindR (own_entries payloadJSON) (\<lambda>kvs.
              (let (cl, us) = fold add_claim kvs ([(''__raw'', JStr token)], [])
               in bindR (bindR (urlDecodeB64 hdr) JSON_parse) (\<lambda>h.
                    Inr \<lparr>encoded = [(''header'', JStr hdr), (''payload'', JStr payload),
                                    (''signature'', JStr signature)],
                         header = h, claims = cl, user = us\<rparr>))))
      | _ \<Rightarrow> Inl (Error ''ID token could not be decoded''))"

text \<open>The decoded token as the object the client caches.\<close>

definition decoded_obj :: "decoded \<Rightarrow> jsval" where
  "decoded_obj d =
     JObj [(''encoded'', JObj (encoded d)), (''header'', header d), (''claims'', JObj (claims d)),
           (''user'', JObj (user d))]"

section \<open>Verification\<close>

record jwt_options =
  jo_iss :: jsval
  jo_aud :: jsval
  jo_id_token :: jsval
  jo_nonce :: jsval
  jo_leeway :: jsval
  jo_max_age :: jsval
  jo_organizationId :: jsval
  jo_now :: jsval

definition claim :: "decoded \<Rightarrow> string \<Rightarrow> jsval" where
  "claim d k = obj_get (claims d) k"

definition check_iss :: "jwt_options \<Rightarrow> decoded \<Rightarrow> js_error + unit" where
  "check_iss opts d =
     (if \<not> truthy (claim d ''iss'')
      then Inl (Error ''Issuer (iss) claim must be a string present in the ID token'')
      else if \<not> js_same (claim d ''iss'') (jo_iss opts)
      then Inl (Error (''Issuer (iss) claim mismatch in the ID token; expected \"'' @ to_string (jo_iss opts) @
             ''\", found \"'' @ to_string (claim d ''iss'') @ ''\"''))
      else Inr ())"

definition check_sub_alg :: "decoded \<Rightarrow> js_error + unit" where
  "check_sub_alg d =
     (if \<not> truthy (obj_get (user d) ''sub'')
      then Inl (Error ''Subject (sub) claim must be a string present in the ID token'')
      else bindR (js_prop (header d) ''alg'') (\<lambda>alg.
        if \<not> js_same alg (JStr ''RS256'')
        then Inl (Error (''Signature algorithm of \"'' @ to_string alg @
               ''\" is not supported. Expected the ID token to be signed with \"RS256\".''))
        else Inr ()))"

definition check_aud :: "jwt_options \<Rightarrow> decoded \<Rightarrow> js_error + unit" where
  "check_aud opts d =
     (case claim d ''aud'' of
        JArr vs \<Rightarrow>
          if \<not> list_ex (\<lambda>v. js_same v (jo_aud opts)) vs
          then Inl (Error (''Audience (aud) claim mismatch in the ID token; expected \"'' @
                 to_string (jo_aud opts) @ ''\" but was not one of \"'' @
                 join '', '' (map (\<lambda>v. if v = JUndef \<or> v = JNull then [] else to_string v) vs) @ ''\"''))
          else if 1 < length vs \<and> \<not> truthy (claim d ''azp'')
          then Inl (Error ''Authorized Party (azp) claim must be a string present in the ID token when Audience (aud) claim has multiple values'')
          else if 1 < length vs \<and> \<not> js_same (claim d ''azp'') (jo_aud opts)
          then Inl (Error (''Authorized Party (azp) claim mismatch in the ID token; expected \"'' @
                 to_string (jo_aud opts) @ ''\", found \"'' @ to_string (claim d ''azp'') @ ''\"''))
          else Inr ()
      | JStr s \<Rightarrow>
          if s = []
          then Inl (Error ''Audience (aud) claim must be a string or array of strings present in the ID token'')
          else if \<not> js_same (JStr s) (jo_aud opts)
          then Inl (Error (''Audience (aud) claim mismatch in the ID token; expected \"'' @
                 to_string (jo_aud opts) @ ''\" but found \"'' @ s @ ''\"''))
          else Inr ()
      | _ \<Rightarrow> Inl (Error ''Audience (aud) claim must be a string or array of strings present in the ID token''))"

definition check_nonce :: "jwt_options \<Rightarrow> decoded \<Rightarrow> js_error + unit" where
  "check_nonce opts d =
     (if \<not> truthy (jo_nonce opts) then Inr ()
      else if \<not> truthy (claim d ''nonce'')
      then Inl (Error ''Nonce (nonce) claim must be a string present in the ID token'')
      else if \<not> js_same (claim d ''nonce'') (jo_nonce opts)
      then Inl (Error (''Nonce (nonce) claim mismatch in the ID token; expected \"'' @ to_string (jo_nonce opts) @
             ''\", found \"'' @ to_string (claim d ''nonce'') @ ''\"''))
      else Inr ())"

definition check_numbers :: "jwt_options \<Rightarrow> decoded \<Rightarrow> js_error + unit" where
  "check_numbers opts d =
     (if truthy (jo_max_age opts) \<and> \<not> isNumber (claim d ''auth_time'')
      then Inl (Error ''Authentication Time (auth_time) claim must be a number present in the ID token when Max Age (max_age) is specified'')
      else if \<not> isNumber (claim d ''exp'')
      then Inl (Error ''Expiration Time (exp) claim must be a number present in the ID token'')
      else if \<not> isNumber (claim d ''iat'')
      then Inl (Error ''Issued At (iat) claim must be a number present in the ID token'')
      else Inr ())"

definition check_times :: "(date \<Rightarrow> string) \<Rightarrow> rat \<Rightarrow> jwt_options \<Rightarrow> decoded \<Rightarrow> js_error + unit" where
  "check_times showDate Date_now opts d =
     (let leeway = js_or (jo_leeway opts) (JNum 60);
          now = new_Date (js_or (jo_now opts) (JNum Date_now));
          authTimeDate = setUTCSeconds
            (js_add (js_add (js_parseInt (claim d ''auth_time'')) (jo_max_age opts)) leeway);
          expDate = setUTCSeconds (js_add (claim d ''exp'') leeway);
          nbfDate = setUTCSeconds (js_sub (claim d ''nbf'') leeway)
      in if date_less expDate now
         then Inl (Error (''Expiration Time (exp) claim error in the ID token; current time ('' @ showDate now @
                ('') is after expiration time ('' @ showDate expDate @ '')'')))
         else if isNumber (claim d ''nbf'') \<and> date_less now nbfDate
         then Inl (Error (''Not Before time (nbf) claim in the ID token indicates that this token can't be used just yet. Currrent time ('' @
                showDate now @ '') is before '' @ showDate nbfDate))
         else if isNumber (claim d ''auth_time'') \<and> date_less authTimeDate now
         then Inl (Error (''Authentication Time (auth_time) claim in the ID token indicates that too much time has passed since the last end-user authentication. Currrent time ('' @
                showDate now @ '') is after last auth at '' @ showDate authTimeDate))
         else Inr ())"

definition check_org :: "jwt_options \<Rightarrow> decoded \<Rightarrow> js_error + unit" where
  "check_org opts d =
     (if \<not> truthy (jo_organizationId opts) then Inr ()
      else if \<not> truthy (claim d ''org_id'')
      then Inl (Error ''Organization ID (org_id) claim must be a string present in the ID token'')
      else if \<not> js_same (jo_organizationId opts) (claim d ''org_id'')
      then Inl (Error (''Organization ID (org_id) claim mismatch in the ID token; expected \"'' @
             to_string (jo_organizationId opts) @ ''\", found \"'' @ to_string (claim d ''org_id'') @ ''\"''))
      else Inr ())"

text \<open>\<open>verify(options)\<close>: the checks in the order of the code, the first failure wins.\<close>

definition verify :: "(date \<Rightarrow> string) \<Rightarrow> rat \<Rightarrow> jwt_options \<Rightarrow> js_error + decoded" where
  "verify showDate Date_now opts =
     (if \<not> truthy (jo_id_token opts) then Inl (Error ''ID token is required but missing'')
      else
        bindR (case jo_id_token opts of JStr t \<Rightarrow> decode t | _ \<Rightarrow> Inl TypeError) (\<lambda>d.
        bindR (check_iss opts d) (\<lambda>_.
        bindR (check_sub_alg d) (\<lambda>_.
        bindR (check_aud opts d) (\<lambda>_.
        bindR (check_nonce opts d) (\<lambda>_.
        bindR (check_numbers opts d) (\<lambda>_.
        bindR (check_times showDate Date_now opts d) (\<lambda>_.
        bindR (check_org opts d) (\<lambda>_. Inr d)))))))))"


section \<open>What an acceptable token is\<close>

definition audience_ok :: "string \<Rightarrow> decoded \<Rightarrow> bool" where
  "audience_ok aud d =
     (case claim d ''aud'' of
        JStr s \<Rightarrow> s \<noteq> [] \<and> s = aud
      | JArr vs \<Rightarrow> JStr aud \<in> set vs \<and> (length vs \<le> 1 \<or> aud \<noteq> [] \<and> claim d ''azp'' = JStr aud)
      | _ \<Rightarrow> False)"

text \<open>An optional expectation: when there is one, the claim must be exactly it.\<close>

definition expects :: "jsval \<Rightarrow> jsval \<Rightarrow> bool" where
  "expects expected found = (\<not> truthy expected \<or> js_same found expected)"

text \<open>The seconds that \<open>Date\<close> can represent.\<close>

definition in_dates :: "rat \<Rightarrow> bool" where
  "in_dates s = (\<bar>1000 * js_trunc s\<bar> \<le> 8640000000000000)"

definition times_ok :: "rat \<Rightarrow> rat \<Rightarrow> jsval \<Rightarrow> decoded \<Rightarrow> bool" where
  "times_ok now lee max_age d =
     (isNumber (claim d ''exp'') \<and> isNumber (claim d ''iat'') \<and>
      (truthy max_age \<longrightarrow> isNumber (claim d ''auth_time'')) \<and>
      (\<forall>e. claim d ''exp'' = JNum e \<and> in_dates (e + lee) \<longrightarrow> now \<le> 1000 * js_trunc (e + lee)) \<and>
      (\<forall>n. claim d ''nbf'' = JNum n \<and> in_dates (n - lee) \<longrightarrow> 1000 * js_trunc (n - lee) \<le> now) \<and>
      (\<forall>a m. isNumber (claim d ''auth_time'') \<and> js_parseInt (claim d ''auth_time'') = JNum a \<and>
         max_age = JNum m \<and> in_dates (a + m + lee) \<longrightarrow> now \<le> 1000 * js_trunc (a + m + lee)))"

section \<open>Lemmas: the checks\<close>

lemma js_same_Str [simp]: "js_same v (JStr s) \<longleftrightarrow> v = JStr s" "js_same (JStr s) v \<longleftrightarrow> v = JStr s"
  by (cases v; auto)+

lemma js_same_sym: "js_same a b = js_same b a"
  by (cases a; cases b) auto

lemma js_same_truthy: "js_same a b \<Longrightarrow> truthy a = truthy b"
  by (cases a; cases b) auto

lemma check_iss_iff:
  "jo_iss opts = JStr iss \<Longrightarrow> check_iss opts d = Inr () \<longleftrightarrow> iss \<noteq> [] \<and> claim d ''iss'' = JStr iss"
  by (auto simp: check_iss_def)

lemma check_sub_alg_iff:
  "check_sub_alg d = Inr () \<longleftrightarrow>
     truthy (obj_get (user d) ''sub'') \<and> js_prop (header d) ''alg'' = Inr (JStr ''RS256'')"
  by (auto simp: check_sub_alg_def bindR_Inr_iff split: if_splits)

lemma check_aud_iff: "jo_aud opts = JStr aud \<Longrightarrow> check_aud opts d = Inr () \<longleftrightarrow> audience_ok aud d"
  by (auto simp: check_aud_def audience_ok_def list_ex_iff not_less split: jsval.split)

lemma check_nonce_iff: "check_nonce opts d = Inr () \<longleftrightarrow> expects (jo_nonce opts) (claim d ''nonce'')"
  using js_same_truthy [of "claim d ''nonce''" "jo_nonce opts"] by (auto simp: check_nonce_def expects_def)

lemma check_org_iff: "check_org opts d = Inr () \<longleftrightarrow> expects (jo_organizationId opts) (claim d ''org_id'')"
  using js_same_truthy [of "claim d ''org_id''" "jo_organizationId opts"]
    js_same_sym [of "claim d ''org_id''" "jo_organizationId opts"]
  by (auto simp: check_org_def expects_def)

lemma js_trunc_int [simp]: "js_trunc (of_int i) = of_int i"
  by (simp add: js_trunc_def)

lemma setUTCSeconds_num:
  "setUTCSeconds (JNum s) = (if in_dates s then Some (1000 * js_trunc s) else None)"
proof -
  have "js_trunc (1000 * js_trunc s) = 1000 * js_trunc s"
  proof -
    obtain i where i: "js_trunc s = of_int i" unfolding js_trunc_def by (metis (full_types))
    have "1000 * js_trunc s = of_int (1000 * i)" by (simp add: i)
    then show ?thesis by (metis js_trunc_int)
  qed
  then show ?thesis by (simp add: setUTCSeconds_def TimeClip_def in_dates_def)
qed

lemma setUTCSeconds_NaN: "setUTCSeconds JNaN = None"
  by (simp add: setUTCSeconds_def)

lemma js_add_num [simp]:
  "js_add (JNum a) (JNum b) = JNum (a + b)" "js_add JNaN (JNum b) = JNaN" "js_add (JNum a) JUndef = JNaN"
  "js_add JNaN JUndef = JNaN" "js_sub (JNum a) (JNum b) = JNum (a - b)" "js_sub JNaN (JNum b) = JNaN"
  by (simp_all add: js_add_def js_sub_def)

lemma parse_int_number: "(\<exists>a. js_parseInt v = JNum a) \<or> js_parseInt v = JNaN"
proof -
  have n: "(\<exists>a. parse_int s = JNum a) \<or> parse_int s = JNaN" for s
    by (cases "scan_sign (dropWhile is_ws s)") (simp add: parse_int_def parse_int10_def Let_def)
  show ?thesis
  proof (cases v)
    case (JNum r)
    then show ?thesis using n [of "num_to_string r"] by (simp add: js_parseInt_def)
  qed (simp_all add: js_parseInt_def n)
qed

lemma date_less_num:
  "date_less (setUTCSeconds (JNum s)) (Some now) \<longleftrightarrow> in_dates s \<and> 1000 * js_trunc s < now"
  "date_less (Some now) (setUTCSeconds (JNum s)) \<longleftrightarrow> in_dates s \<and> now < 1000 * js_trunc s"
  "\<not> date_less (setUTCSeconds JNaN) (Some now)" "\<not> date_less (Some now) (setUTCSeconds JNaN)"
  by (simp_all add: setUTCSeconds_num setUTCSeconds_NaN)

lemma date_checks:
  assumes "isNumber v"
  shows "\<not> date_less (setUTCSeconds (js_add v (JNum lee))) (Some now) \<longleftrightarrow>
      (\<forall>e. v = JNum e \<and> in_dates (e + lee) \<longrightarrow> now \<le> 1000 * js_trunc (e + lee))"
    "\<not> date_less (Some now) (setUTCSeconds (js_sub v (JNum lee))) \<longleftrightarrow>
      (\<forall>n. v = JNum n \<and> in_dates (n - lee) \<longrightarrow> 1000 * js_trunc (n - lee) \<le> now)"
  using assms by (cases v; auto simp: date_less_num not_less)+

lemma auth_date_check:
  assumes "max_age = JUndef \<or> (\<exists>m. max_age = JNum m)"
  shows "\<not> date_less (setUTCSeconds (js_add (js_add (js_parseInt v) max_age) (JNum lee))) (Some now) \<longleftrightarrow>
    (\<forall>a m. js_parseInt v = JNum a \<and> max_age = JNum m \<and> in_dates (a + m + lee) \<longrightarrow> now \<le> 1000 * js_trunc (a + m + lee))"
  using assms parse_int_number [of v] by (auto simp: date_less_num not_less)

lemma check_times_iff:
  assumes "js_or (jo_now opts) (JNum dn) = JNum now" "0 \<le> now" "now \<le> 8640000000000000" "is_int now"
    and "js_or (jo_leeway opts) (JNum 60) = JNum lee"
    and "jo_max_age opts = JUndef \<or> (\<exists>m. jo_max_age opts = JNum m)"
  shows "check_numbers opts d = Inr () \<and> check_times sd dn opts d = Inr () \<longleftrightarrow> times_ok now lee (jo_max_age opts) d"
proof -
  have "new_Date (JNum now) = Some now"
    using assms(2-4) by (simp add: new_Date_def TimeClip_def js_trunc_def is_int_def)
  then have t: "check_times sd dn opts d = Inr () \<longleftrightarrow>
      \<not> date_less (setUTCSeconds (js_add (claim d ''exp'') (JNum lee))) (Some now) \<and>
      \<not> (isNumber (claim d ''nbf'') \<and> date_less (Some now) (setUTCSeconds (js_sub (claim d ''nbf'') (JNum lee)))) \<and>
      \<not> (isNumber (claim d ''auth_time'') \<and> date_less (setUTCSeconds
          (js_add (js_add (js_parseInt (claim d ''auth_time'')) (jo_max_age opts)) (JNum lee))) (Some now))"
    by (simp add: check_times_def Let_def assms(1,5))
  have n: "check_numbers opts d = Inr () \<longleftrightarrow> isNumber (claim d ''exp'') \<and> isNumber (claim d ''iat'') \<and>
      (truthy (jo_max_age opts) \<longrightarrow> isNumber (claim d ''auth_time''))"
    by (auto simp: check_numbers_def)
  have nbf: "\<not> (isNumber v \<and> date_less (Some now) (setUTCSeconds (js_sub v (JNum lee)))) \<longleftrightarrow>
      (\<forall>n. v = JNum n \<and> in_dates (n - lee) \<longrightarrow> 1000 * js_trunc (n - lee) \<le> now)" for v
    using date_checks(2) [of v] by (cases "isNumber v") auto
  show ?thesis
    unfolding t n times_ok_def nbf using date_checks(1) [of "claim d ''exp''" lee now] auth_date_check [OF assms(6)]
    by meson
qed

section \<open>Lemmas: decoding\<close>

lemma b64_alphabet: "n < 64 \<Longrightarrow> is_alnum (b64_char n) \<or> b64_char n = CHR ''+'' \<or> b64_char n = CHR ''/''"
proof -
  assume n: "n < 64"
  consider "n = 62" | "n = 63" | "n < 62" using n by linarith
  then show ?thesis
  proof cases
    case 3
    then have "is_alnum (b64_char n)"
      using b64_char_code [OF n] by (auto simp: is_alnum_def Let_def)
    then show ?thesis ..
  qed (simp_all add: b64_char_def)
qed

lemma b64url_chars:
  "c \<in> set (bufferToBase64UrlEncoded bs) \<Longrightarrow> is_alnum c \<or> c = CHR ''-'' \<or> c = CHR ''_''"
proof -
  assume c: "c \<in> set (bufferToBase64UrlEncoded bs)"
  obtain k where k: "btoa_bytes bs = map b64_char (b64_sextets bs) @ replicate k (CHR ''='')"
    using btoa_sextets by blast
  obtain x where x: "x \<in> set (btoa_bytes bs)" "c \<in> set (b64url_char x)"
    using c unfolding bufferToBase64UrlEncoded_def urlEncodeB64_def set_concat set_map by blast
  then consider "x = CHR ''=''" | n where "n < 64" "x = b64_char n"
    unfolding k set_append set_map set_replicate_conv_if using b64_sextets_bound by (auto split: if_splits)
  then show ?thesis
  proof cases
    case 1
    with x(2) show ?thesis by (simp add: b64url_char_def)
  next
    case 2
    then have "is_alnum x \<or> x = CHR ''+'' \<or> x = CHR ''/''"
      using b64_alphabet by blast
    with x(2) show ?thesis by (auto simp: b64url_char_def split: if_splits)
  qed
qed

lemma b64url_no_dot: "CHR ''.'' \<notin> set (bufferToBase64UrlEncoded bs)"
  using b64url_chars [of "CHR ''.''" bs] by (auto simp: is_alnum_def)

lemma b64url_not_Nil: "bs \<noteq> [] \<Longrightarrow> bufferToBase64UrlEncoded bs \<noteq> []"
proof -
  assume "bs \<noteq> []"
  then obtain n r where "n < 64" "btoa_bytes bs = b64_char n # r"
    by (cases bs rule: btoa_bytes.cases) (auto intro!: that [OF sextets(1)])
  moreover have "b64url_char (b64_char n) \<noteq> []" if "n < 64" for n
    using b64_char_not_special(1) [OF that] by (simp add: b64url_char_def)
  ultimately show ?thesis by (simp add: bufferToBase64UrlEncoded_def urlEncodeB64_def)
qed

lemma obj_get_absent: "k \<notin> set (obj_keys ob) \<Longrightarrow> obj_get ob k = JUndef"
  unfolding obj_get_def obj_keys_def by (metis list.set_map map_of_eq_None_iff option.case(1))

lemma obj_get_single: "obj_get [(k, v)] k' = (if k' = k then v else JUndef)"
  by (simp add: obj_get_def)

lemma add_claims:
  assumes "distinct (map fst kvs)" "set (map fst us) \<inter> set (map fst kvs) = {}"
  shows "fold add_claim kvs (cl, us) = (obj_spread cl kvs, us @ obj_omit idTokendecoded kvs)"
  using assms
proof (induction kvs arbitrary: cl us)
  case Nil
  then show ?case by (simp add: obj_spread_def obj_omit_def)
next
  case (Cons kv kvs)
  obtain k v where kv: "kv = (k, v)" by (cases kv)
  have "obj_set k v us = us @ [(k, v)]"
    using Cons.prems(2) kv by (subst obj_set_new) auto
  then have "add_claim kv (cl, us) = (obj_set k v cl, if k \<in> set idTokendecoded then us else us @ [(k, v)])"
    by (simp add: add_claim_def kv)
  moreover have "set (map fst (if k \<in> set idTokendecoded then us else us @ [(k, v)])) \<inter> set (map fst kvs) = {}"
    using Cons.prems kv by auto
  ultimately show ?case
    using Cons.IH Cons.prems(1) by (simp add: obj_spread_def obj_omit_def kv)
qed

text \<open>The token an issuer builds from a header, a payload and a signature.\<close>

definition mk_token :: "obj \<Rightarrow> obj \<Rightarrow> string \<Rightarrow> string" where
  "mk_token h p sig =
     bufferToBase64UrlEncoded (json_text (JObj h)) @ ''.'' @
     bufferToBase64UrlEncoded (json_text (JObj p)) @ ''.'' @ sig"

definition json_obj :: "obj \<Rightarrow> bool" where
  "json_obj ob = (json_ok (JObj ob) \<and> utf8_valid (json_text (JObj ob)))"

lemma decode_part:
  assumes "json_obj ob"
  shows "bindR (urlDecodeB64 (bufferToBase64UrlEncoded (json_text (JObj ob)))) JSON_parse = Inr (JObj ob)"
    and "bufferToBase64UrlEncoded (json_text (JObj ob)) \<noteq> []"
proof -
  obtain t where t: "stringify (JObj ob) = Some t" "json_parse t = Some (JObj ob)"
    using json_parse_stringify assms unfolding json_obj_def by blast
  then show "bindR (urlDecodeB64 (bufferToBase64UrlEncoded (json_text (JObj ob)))) JSON_parse = Inr (JObj ob)"
    using assms by (simp add: urlDecodeB64_buffer json_obj_def JSON_parse_def del: stringify.simps)
  show "bufferToBase64UrlEncoded (json_text (JObj ob)) \<noteq> []"
    by (rule b64url_not_Nil) simp
qed

lemma decode_mk_token:
  assumes "json_obj h" "json_obj p" "sig \<noteq> []" "CHR ''.'' \<notin> set sig"
  shows "decode (mk_token h p sig) = Inr
    \<lparr>encoded = [(''header'', JStr (bufferToBase64UrlEncoded (json_text (JObj h)))),
       (''payload'', JStr (bufferToBase64UrlEncoded (json_text (JObj p)))), (''signature'', JStr sig)],
     header = JObj h, claims = obj_spread [(''__raw'', JStr (mk_token h p sig))] p,
     user = obj_omit idTokendecoded p\<rparr>"
proof -
  let ?h = "bufferToBase64UrlEncoded (json_text (JObj h))" and ?p = "bufferToBase64UrlEncoded (json_text (JObj p))"
  have s: "split_on ''.'' (mk_token h p sig) = [?h, ?p, sig]"
    using split_on_char_join [of "[?h, ?p, sig]" "CHR ''.''"] assms(4) b64url_no_dot
    by (auto simp: mk_token_def)
  have "distinct (map fst p)" using assms(2) by (simp add: json_obj_def)
  then have "fold add_claim p (cl, []) = (obj_spread cl p, obj_omit idTokendecoded p)" for cl
    using add_claims [of p "[]" cl] by simp
  then show ?thesis
    using assms(3) decode_part [OF assms(1)] decode_part [OF assms(2)]
    unfolding decode_def s by (simp del: stringify.simps)
qed

lemma verify_checks:
  "verify sd dn opts = Inr d \<longleftrightarrow> (\<exists>t. jo_id_token opts = JStr t \<and> decode t = Inr d) \<and>
    check_iss opts d = Inr () \<and> check_sub_alg d = Inr () \<and> check_aud opts d = Inr () \<and>
    check_nonce opts d = Inr () \<and> (check_numbers opts d = Inr () \<and> check_times sd dn opts d = Inr ()) \<and>
    check_org opts d = Inr ()"
proof -
  have "(if truthy (jo_id_token opts) then case jo_id_token opts of JStr t \<Rightarrow> decode t | _ \<Rightarrow> Inl TypeError
         else Inl (Error [])) = Inr d \<longleftrightarrow> (\<exists>t. jo_id_token opts = JStr t \<and> decode t = Inr d)"
    by (cases "jo_id_token opts") (auto simp: decode_def)
  then show ?thesis by (auto simp: verify_def bindR_Inr_iff split: if_splits)
qed

section \<open>Properties of the token checks\<close>

text \<open>
  C30: decoding a token an issuer built gives the issuer's header; its claims are the payload with the
  raw token beside them, and the user profile is the payload without the protocol claims.
\<close>

theorem decode_token:
  assumes "json_obj h" "json_obj p" "''__raw'' \<notin> set (obj_keys p)" "sig \<noteq> []" "CHR ''.'' \<notin> set sig"
  shows "\<exists>d. decode (mk_token h p sig) = Inr d \<and> header d = JObj h \<and>
     (\<forall>k. claim d k = (if k = ''__raw'' then JStr (mk_token h p sig) else obj_get p k)) \<and>
     user d = filter (\<lambda>(k, v). k \<notin> set idTokendecoded) p"
proof -
  have "wf_obj p" using assms(2) by (simp add: json_obj_def wf_obj_def)
  then have "obj_get (obj_spread [(''__raw'', JStr (mk_token h p sig))] p) k =
      (if k = ''__raw'' then JStr (mk_token h p sig) else obj_get p k)" for k
    using assms(3) obj_get_absent [of k p] by (auto simp: obj_get_spread obj_get_single)
  then show ?thesis
    using decode_mk_token [OF assms(1,2,4,5)] by (simp add: claim_def obj_omit_def)
qed

text \<open>
  C6: \<open>verify\<close> accepts a token exactly when it decodes, names the expected issuer, a subject and
  \<open>RS256\<close>, is for the expected audience (and authorised party), carries the expected nonce and
  organization, and the clock lies within its times give or take the leeway.
\<close>

theorem verify_iff:
  assumes "jo_iss opts = JStr iss" and "jo_aud opts = JStr aud"
    and "js_or (jo_now opts) (JNum dn) = JNum now" "0 \<le> now" "now \<le> 8640000000000000" "is_int now"
    and "js_or (jo_leeway opts) (JNum 60) = JNum lee"
    and "jo_max_age opts = JUndef \<or> (\<exists>m. jo_max_age opts = JNum m)"
  shows "verify sd dn opts = Inr d \<longleftrightarrow>
    (\<exists>t. jo_id_token opts = JStr t \<and> decode t = Inr d) \<and> iss \<noteq> [] \<and> claim d ''iss'' = JStr iss \<and>
    truthy (obj_get (user d) ''sub'') \<and> js_prop (header d) ''alg'' = Inr (JStr ''RS256'') \<and>
    audience_ok aud d \<and> expects (jo_nonce opts) (claim d ''nonce'') \<and>
    times_ok now lee (jo_max_age opts) d \<and> expects (jo_organizationId opts) (claim d ''org_id'')"
  unfolding verify_checks check_iss_iff [OF assms(1)] check_sub_alg_iff check_aud_iff [OF assms(2)] check_nonce_iff
      check_org_iff check_times_iff [OF assms(3-8)] by simp

definition sample_header :: obj where
  "sample_header = [(''alg'', JStr ''RS256''), (''typ'', JStr ''JWT'')]"

definition sample_payload :: "string \<Rightarrow> rat \<Rightarrow> obj" where
  "sample_payload n nbf =
     [(''iss'', JStr ''https://t.cn/''), (''sub'', JStr ''u1''), (''aud'', JArr [JStr ''cid'', JStr ''api'']),
      (''azp'', JStr ''cid''), (''exp'', JNum 1700003600), (''iat'', JNum 1700000000), (''nbf'', JNum nbf),
      (''nonce'', JStr n)]"

definition sample_options :: "string \<Rightarrow> rat \<Rightarrow> jwt_options" where
  "sample_options n nbf =
     \<lparr>jo_iss = JStr ''https://t.cn/'', jo_aud = JStr ''cid'',
      jo_id_token = JStr (mk_token sample_header (sample_payload n nbf) ''sig''), jo_nonce = JStr n,
      jo_leeway = JUndef, jo_max_age = JUndef, jo_organizationId = JUndef, jo_now = JNum 1700000000000\<rparr>"

lemma json_objI: "json_ok (JObj ob) \<Longrightarrow> ascii_val (JObj ob) \<Longrightarrow> json_obj ob"
  using json_parse_stringify [of "JObj ob"] ascii_stringify [of "JObj ob"]
  by (auto simp: json_obj_def utf8_ascii simp del: stringify.simps json_ok.simps ascii_val.simps)

lemma sample_header_ok: "json_obj sample_header"
  by (rule json_objI) (simp_all add: sample_header_def in_range_def)

lemma sample_payload_ok: "is_decimal nbf \<Longrightarrow> ascii n \<Longrightarrow> json_obj (sample_payload n nbf)"
  by (rule json_objI) (simp_all add: sample_payload_def in_range_def [abs_def])

theorem decode_token_witness:
  "json_obj sample_header \<and> json_obj (sample_payload ''n'' 1700000000) \<and>
   (\<exists>d. decode (mk_token sample_header (sample_payload ''n'' 1700000000) ''sig'') = Inr d \<and>
     header d = JObj sample_header \<and> claim d ''nonce'' = JStr ''n'' \<and> user d = [(''sub'', JStr ''u1'')])"
proof -
  have p: "json_obj (sample_payload ''n'' 1700000000)" by (rule sample_payload_ok) (simp_all add: in_range_def)
  have r: "''__raw'' \<notin> set (obj_keys (sample_payload ''n'' 1700000000))" "''sig'' \<noteq> []" "CHR ''.'' \<notin> set ''sig''"
    by (simp_all add: sample_payload_def obj_keys_def)
  have "filter (\<lambda>(k, v). k \<notin> set idTokendecoded) (sample_payload ''n'' 1700000000) = [(''sub'', JStr ''u1'')]"
    "obj_get (sample_payload ''n'' 1700000000) ''nonce'' = JStr ''n''"
    by (simp_all add: sample_payload_def idTokendecoded_def obj_get_def)
  with decode_token [OF sample_header_ok p r] sample_header_ok p show ?thesis by force
qed

lemma sample_decoded:
  assumes "is_decimal nbf" and "ascii n"
  obtains d where "decode (mk_token sample_header (sample_payload n nbf) ''sig'') = Inr d"
    "header d = JObj sample_header" "user d = [(''sub'', JStr ''u1'')]"
    "\<And>k. k \<noteq> ''__raw'' \<Longrightarrow> claim d k = obj_get (sample_payload n nbf) k"
proof -
  let ?p = "sample_payload n nbf"
  have "wf_obj ?p" "''__raw'' \<notin> set (obj_keys ?p)"
    by (simp_all add: sample_payload_def wf_obj_def obj_keys_def)
  then have "obj_get (obj_spread [(''__raw'', r)] ?p) k = obj_get ?p k" if "k \<noteq> ''__raw''" for k r
    using that obj_get_absent [of k ?p] by (auto simp: obj_get_spread obj_get_single)
  moreover have "obj_omit idTokendecoded ?p = [(''sub'', JStr ''u1'')]"
    by (simp add: sample_payload_def idTokendecoded_def obj_omit_def)
  ultimately show thesis
    using decode_mk_token [OF sample_header_ok sample_payload_ok [OF assms], of "''sig''"]
    by (intro that) (auto simp: claim_def)
qed

lemma sample_accepted:
  assumes "is_decimal nbf" and "in_dates (nbf - 60) \<Longrightarrow> 1000 * js_trunc (nbf - 60) \<le> 1700000000000"
    and "ascii n" "n \<noteq> []"
  obtains d where "decode (mk_token sample_header (sample_payload n nbf) ''sig'') = Inr d"
    "claim d ''iss'' = JStr ''https://t.cn/''" "truthy (obj_get (user d) ''sub'')"
    "js_prop (header d) ''alg'' = Inr (JStr ''RS256'')" "audience_ok ''cid'' d"
    "expects (JStr n) (claim d ''nonce'')" "times_ok 1700000000000 60 JUndef d" "claim d ''nbf'' = JNum nbf"
    "claim d ''exp'' = JNum 1700003600"
proof -
  obtain d where d: "decode (mk_token sample_header (sample_payload n nbf) ''sig'') = Inr d"
    "header d = JObj sample_header" "user d = [(''sub'', JStr ''u1'')]"
    "\<And>k. k \<noteq> ''__raw'' \<Longrightarrow> claim d k = obj_get (sample_payload n nbf) k"
    using sample_decoded [OF assms(1,3)] by blast
  have "times_ok 1700000000000 60 JUndef d"
    using assms(2) by (simp add: times_ok_def d(4) sample_payload_def obj_get_def js_trunc_def)
  moreover have "claim d ''iss'' = JStr ''https://t.cn/''" "claim d ''aud'' = JArr [JStr ''cid'', JStr ''api'']"
    "claim d ''azp'' = JStr ''cid''" "claim d ''nonce'' = JStr n" "claim d ''nbf'' = JNum nbf"
    "claim d ''exp'' = JNum 1700003600"
    by (simp_all add: d(4) sample_payload_def obj_get_def)
  ultimately show thesis
    using d(1-3) assms(4) by (intro that) (simp_all add: sample_header_def obj_get_def audience_ok_def expects_def)
qed

lemma sample_verified:
  assumes "is_decimal nbf" and "in_dates (nbf - 60) \<Longrightarrow> 1000 * js_trunc (nbf - 60) \<le> 1700000000000"
    and "ascii n" "n \<noteq> []"
  obtains d where "verify sd dn (sample_options n nbf) = Inr d" "claim d ''iss'' = JStr ''https://t.cn/''"
    "claim d ''nbf'' = JNum nbf" "claim d ''exp'' = JNum 1700003600"
proof -
  let ?opts = "sample_options n nbf"
  obtain d where d: "decode (mk_token sample_header (sample_payload n nbf) ''sig'') = Inr d"
    "claim d ''iss'' = JStr ''https://t.cn/''" "truthy (obj_get (user d) ''sub'')"
    "js_prop (header d) ''alg'' = Inr (JStr ''RS256'')" "audience_ok ''cid'' d"
    "expects (JStr n) (claim d ''nonce'')" "times_ok 1700000000000 60 JUndef d" "claim d ''nbf'' = JNum nbf"
    "claim d ''exp'' = JNum 1700003600"
    using sample_accepted [OF assms] by blast
  have o: "jo_iss ?opts = JStr ''https://t.cn/''" "jo_aud ?opts = JStr ''cid''"
    by (simp_all add: sample_options_def)
  have "check_numbers ?opts d = Inr () \<and> check_times sd dn ?opts d = Inr ()"
    using d(7) by (subst check_times_iff [where now = 1700000000000 and lee = 60]) (simp_all add: sample_options_def js_or_def)
  moreover have "expects (jo_nonce ?opts) (claim d ''nonce'')" "expects (jo_organizationId ?opts) (claim d ''org_id'')"
    "jo_id_token ?opts = JStr (mk_token sample_header (sample_payload n nbf) ''sig'')"
    using d(6) by (simp_all add: sample_options_def expects_def)
  ultimately have "verify sd dn ?opts = Inr d"
    using d(1-5) by (simp add: verify_checks check_iss_iff [OF o(1)] check_sub_alg_iff check_aud_iff [OF o(2)]
        check_nonce_iff check_org_iff)
  with d show thesis by (intro that)
qed

theorem verify_iff_witness:
  "\<exists>d. verify (\<lambda>_. []) 0 (sample_options ''n'' 1700000000) = Inr d \<and> claim d ''iss'' = JStr ''https://t.cn/''"
proof -
  have n: "js_trunc 1699999940 = 1699999940" by (simp add: js_trunc_def)
  obtain d where d: "decode (mk_token sample_header (sample_payload ''n'' 1700000000) ''sig'') = Inr d"
    "claim d ''iss'' = JStr ''https://t.cn/''" "truthy (obj_get (user d) ''sub'')"
    "js_prop (header d) ''alg'' = Inr (JStr ''RS256'')" "audience_ok ''cid'' d"
    "expects (JStr ''n'') (claim d ''nonce'')" "times_ok 1700000000000 60 JUndef d"
    using sample_accepted [of 1700000000 "''n''"] n by (auto simp: in_range_def)
  then have "verify (\<lambda>_. []) 0 (sample_options ''n'' 1700000000) = Inr d"
    by (subst verify_iff [where iss = "''https://t.cn/''" and aud = "''cid''" and now = 1700000000000 and lee = 60])
      (simp_all add: sample_options_def js_or_def, simp add: expects_def)
  with d(2) show ?thesis by blast
qed

text \<open>
  A token whose \<open>nbf\<close> lies in the far future is accepted: seconds beyond the range of \<open>Date\<close> make
  an invalid date, and every comparison with it is false.
\<close>

theorem verify_accepts_distant_nbf:
  "\<exists>d. verify (\<lambda>_. []) 0 (sample_options ''n'' 10000000000000) = Inr d \<and> claim d ''nbf'' = JNum 10000000000000"
proof -
  have ascii_n: "ascii ''n''" by (simp add: in_range_def)
  have "\<not> in_dates (10000000000000 - 60)" by (simp add: in_dates_def js_trunc_def)
  then obtain d where "verify (\<lambda>_. []) 0 (sample_options ''n'' 10000000000000) = Inr d" "claim d ''nbf'' = JNum 10000000000000"
    using sample_verified [of 10000000000000 "''n''" "\<lambda>_. []" 0] ascii_n by auto
  then show ?thesis by blast
qed

end
