(* ===== verification/Storage.thy ===== *)
theory Storage
  imports Errors
begin

text \<open>
  \<open>storage.ts\<close> (cookies, cookies for legacy browsers, session storage) and
  \<open>transaction-manager.ts\<close>.

  Cookies are read and written with the package \<open>es-cookie\<close>: its three functions are the
  parameter \<open>'c cookie_lib\<close> over a jar of type \<open>'c\<close>, and what the library relies on is the
  locale \<open>cookie_laws\<close>: a cookie that was set is read back, a removed one is gone, other cookies
  stay. The contract of \<open>ClientStorage\<close> is the locale \<open>storage_laws\<close>; it is proved for the two
  cookie storages from \<open>cookie_laws\<close> and for the session storage, and the transaction manager is
  verified against it once.

  Expiry of cookies, refused cookies and storage quota are not represented.
\<close>

section \<open>The page's storages\<close>

record 'c cookie_lib =
  Cookies_get :: "string \<Rightarrow> 'c \<Rightarrow> string option"
  Cookies_set :: "string \<Rightarrow> string option \<Rightarrow> obj \<Rightarrow> 'c \<Rightarrow> 'c"
  Cookies_remove :: "string \<Rightarrow> 'c \<Rightarrow> 'c"

record 'c site =
  jar :: 'c
  sessionStorage :: "(string \<times> string) list"
  protocol :: string

text \<open>\<open>ClientStorage\<close>; the third argument of \<open>cs_save\<close> is \<open>options?.daysUntilExpire\<close>.\<close>

record 'c client_storage =
  cs_get :: "string \<Rightarrow> 'c site \<Rightarrow> js_error + jsval"
  cs_save :: "string \<Rightarrow> jsval \<Rightarrow> jsval \<Rightarrow> 'c site \<Rightarrow> 'c site"
  cs_remove :: "string \<Rightarrow> 'c site \<Rightarrow> 'c site"

section \<open>Cookie storage\<close>

definition cookie_get :: "'c cookie_lib \<Rightarrow> string \<Rightarrow> 'c site \<Rightarrow> js_error + jsval" where
  "cookie_get L key s =
     (case Cookies_get L key (jar s) of None \<Rightarrow> Inr JUndef | Some value \<Rightarrow> JSON_parse value)"

definition with_expiry :: "jsval \<Rightarrow> obj \<Rightarrow> obj" where
  "with_expiry days attrs = (if truthy days then obj_set ''expires'' days attrs else attrs)"

definition cookie_save :: "'c cookie_lib \<Rightarrow> string \<Rightarrow> jsval \<Rightarrow> jsval \<Rightarrow> 'c site \<Rightarrow> 'c site" where
  "cookie_save L key value days s =
     (let cookieAttributes =
            (if protocol s = ''https:'' then [(''secure'', JBool True), (''sameSite'', JStr ''none'')] else [])
      in s\<lparr>jar := Cookies_set L key (stringify value) (with_expiry days cookieAttributes) (jar s)\<rparr>)"

definition cookie_remove :: "'c cookie_lib \<Rightarrow> string \<Rightarrow> 'c site \<Rightarrow> 'c site" where
  "cookie_remove L key s = s\<lparr>jar := Cookies_remove L key (jar s)\<rparr>"

definition CookieStorage :: "'c cookie_lib \<Rightarrow> 'c client_storage" where
  "CookieStorage L = \<lparr>cs_get = cookie_get L, cs_save = cookie_save L, cs_remove = cookie_remove L\<rparr>"

section \<open>Cookie storage for legacy browsers\<close>

definition LEGACY_PREFIX :: string where
  "LEGACY_PREFIX = ''_legacy_''"

definition legacy_get :: "'c cookie_lib \<Rightarrow> string \<Rightarrow> 'c site \<Rightarrow> js_error + jsval" where
  "legacy_get L key s =
     bindR (cookie_get L key s) (\<lambda>value.
       if truthy value then Inr value else cookie_get L (LEGACY_PREFIX @ key) s)"

definition legacy_save :: "'c cookie_lib \<Rightarrow> string \<Rightarrow> jsval \<Rightarrow> jsval \<Rightarrow> 'c site \<Rightarrow> 'c site" where
  "legacy_save L key value days s =
     (let cookieAttributes = (if protocol s = ''https:'' then [(''secure'', JBool True)] else [])
      in cookie_save L key value days
           (s\<lparr>jar := Cookies_set L (LEGACY_PREFIX @ key) (stringify value)
                      (with_expiry days cookieAttributes) (jar s)\<rparr>))"

definition legacy_remove :: "'c cookie_lib \<Rightarrow> string \<Rightarrow> 'c site \<Rightarrow> 'c site" where
  "legacy_remove L key s = cookie_remove L (LEGACY_PREFIX @ key) (cookie_remove L key s)"

definition CookieStorageWithLegacySameSite :: "'c cookie_lib \<Rightarrow> 'c client_storage" where
  "CookieStorageWithLegacySameSite L =
     \<lparr>cs_get = legacy_get L, cs_save = legacy_save L, cs_remove = legacy_remove L\<rparr>"

section \<open>Session storage\<close>

text \<open>
  \<open>getItem\<close> gives \<open>null\<close> for a missing item, which is not \<open>undefined\<close>, and \<open>JSON.parse(null)\<close> is
  \<open>null\<close>. \<open>setItem\<close> turns its value into text.
\<close>

definition session_get :: "string \<Rightarrow> 'c site \<Rightarrow> js_error + jsval" where
  "session_get key s =
     (case map_of (sessionStorage s) key of None \<Rightarrow> Inr JNull | Some value \<Rightarrow> JSON_parse value)"

definition session_save :: "string \<Rightarrow> jsval \<Rightarrow> jsval \<Rightarrow> 'c site \<Rightarrow> 'c site" where
  "session_save key value days s =
     s\<lparr>sessionStorage := AList.update key
        (case stringify value of None \<Rightarrow> ''undefined'' | Some t \<Rightarrow> t) (sessionStorage s)\<rparr>"

definition session_remove :: "string \<Rightarrow> 'c site \<Rightarrow> 'c site" where
  "session_remove key s = s\<lparr>sessionStorage := AList.delete key (sessionStorage s)\<rparr>"

definition SessionStorage :: "'c client_storage" where
  "SessionStorage = \<lparr>cs_get = session_get, cs_save = session_save, cs_remove = session_remove\<rparr>"

section \<open>The transaction manager\<close>

definition TRANSACTION_STORAGE_KEY_PREFIX :: string where
  "TRANSACTION_STORAGE_KEY_PREFIX = ''a0.spajs.txs''"

record 'c transaction_manager =
  tm_storage :: "'c client_storage"
  tm_storageKey :: string
  tm_transaction :: jsval

definition new_TransactionManager ::
  "'c client_storage \<Rightarrow> string \<Rightarrow> 'c site \<Rightarrow> js_error + 'c transaction_manager" where
  "new_TransactionManager storage clientId s =
     (let storageKey = TRANSACTION_STORAGE_KEY_PREFIX @ ''.'' @ clientId
      in bindR (cs_get storage storageKey s) (\<lambda>t.
           Inr \<lparr>tm_storage = storage, tm_storageKey = storageKey, tm_transaction = t\<rparr>))"

definition tm_create ::
  "obj \<Rightarrow> 'c transaction_manager \<Rightarrow> 'c site \<Rightarrow> 'c transaction_manager \<times> 'c site" where
  "tm_create transaction tm s =
     (tm\<lparr>tm_transaction := JObj transaction\<rparr>,
      cs_save (tm_storage tm) (tm_storageKey tm) (JObj transaction) (JNum 1) s)"

definition tm_get :: "'c transaction_manager \<Rightarrow> jsval" where
  "tm_get tm = tm_transaction tm"

definition tm_remove :: "'c transaction_manager \<Rightarrow> 'c site \<Rightarrow> 'c transaction_manager \<times> 'c site" where
  "tm_remove tm s =
     (tm\<lparr>tm_transaction := JUndef\<rparr>, cs_remove (tm_storage tm) (tm_storageKey tm) s)"

section \<open>The contracts\<close>

locale cookie_laws =
  fixes L :: "'c cookie_lib"
  assumes get_set: "Cookies_get L k (Cookies_set L k' (Some t) attrs c) = (if k = k' then Some t else Cookies_get L k c)"
    and get_remove: "Cookies_get L k (Cookies_remove L k' c) = (if k = k' then None else Cookies_get L k c)"

text \<open>Two keys that no storage mixes up, not even through the legacy prefix.\<close>

definition apart :: "string \<Rightarrow> string \<Rightarrow> bool" where
  "apart k k' = (k \<noteq> k' \<and> k' \<noteq> LEGACY_PREFIX @ k \<and> k \<noteq> LEGACY_PREFIX @ k')"

text \<open>
  What a \<open>ClientStorage\<close> promises: the text of a saved value is what a reader parses, a removed key
  reads as a falsy value, and other keys are not touched.
\<close>

locale storage_laws =
  fixes St :: "'c client_storage"
  assumes save_get: "stringify v = Some t \<Longrightarrow> cs_get St k (cs_save St k v days s) = JSON_parse t"
    and remove_get: "\<exists>v. cs_get St k (cs_remove St k s) = Inr v \<and> \<not> truthy v"
    and save_other: "stringify v \<noteq> None \<Longrightarrow> apart k k' \<Longrightarrow> cs_get St k' (cs_save St k v days s) = cs_get St k' s"
    and remove_other: "apart k k' \<Longrightarrow> cs_get St k' (cs_remove St k s) = cs_get St k' s"

context storage_laws
begin

text \<open>
  A transaction is found again by a manager built later for the same client, as after a page
  load.
\<close>

lemma create_then_new:
  assumes "new_TransactionManager St c s = Inr tm" and "json_ok (JObj (defined_props tr))"
    and "tm_create tr tm s = (tm', s')"
  shows "tm_get tm' = JObj tr \<and>
    (\<exists>tm''. new_TransactionManager St c s' = Inr tm'' \<and> tm_get tm'' = JObj (defined_props tr))"
proof -
  have tm: "tm_storage tm = St" "tm_storageKey tm = TRANSACTION_STORAGE_KEY_PREFIX @ ''.'' @ c"
    using assms(1) by (auto simp: new_TransactionManager_def Let_def bindR_Inr_iff)
  obtain t where t: "stringify (JObj tr) = Some t" "JSON_parse t = Inr (JObj (defined_props tr))"
    using parse_defined [OF assms(2)] .
  show ?thesis
    using assms(3) save_get [OF t(1)] t(2) tm
    by (auto simp: tm_create_def tm_get_def new_TransactionManager_def Let_def simp del: stringify.simps)
qed

text \<open>A removed transaction is gone, for this manager and for every later one.\<close>

lemma remove_then_new:
  assumes "new_TransactionManager St c s = Inr tm" and "tm_remove tm s' = (tm', s'')"
  shows "\<not> truthy (tm_get tm') \<and>
    (\<exists>tm''. new_TransactionManager St c s'' = Inr tm'' \<and> \<not> truthy (tm_get tm''))"
proof -
  have tm: "tm_storage tm = St" "tm_storageKey tm = TRANSACTION_STORAGE_KEY_PREFIX @ ''.'' @ c"
    using assms(1) by (auto simp: new_TransactionManager_def Let_def bindR_Inr_iff)
  show ?thesis
    using remove_get [of "tm_storageKey tm" s'] assms(2) tm
    by (auto simp: tm_remove_def tm_get_def new_TransactionManager_def)
qed

end

section \<open>The storages fulfil the contract\<close>

lemmas storage_defs = CookieStorage_def cookie_get_def cookie_save_def cookie_remove_def
  CookieStorageWithLegacySameSite_def legacy_get_def legacy_save_def legacy_remove_def Let_def

lemma legacy_key [simp]: "LEGACY_PREFIX @ k \<noteq> k" "k \<noteq> LEGACY_PREFIX @ k"
  by (simp_all add: LEGACY_PREFIX_def)

sublocale cookie_laws < cookie: storage_laws "CookieStorage L"
proof (unfold_locales, goal_cases)
  case (3 v k k' days s)
  then show ?case by (auto simp: storage_defs get_set apart_def)
next
  case (4 k k' s)
  then show ?case by (auto simp: storage_defs get_remove apart_def)
qed (simp_all add: storage_defs get_set get_remove)

lemma legacy_get_same:
  assumes "Cookies_get L k (jar s') = Cookies_get L k (jar s)"
    and "Cookies_get L (LEGACY_PREFIX @ k) (jar s') = Cookies_get L (LEGACY_PREFIX @ k) (jar s)"
  shows "legacy_get L k s' = legacy_get L k s"
  unfolding legacy_get_def cookie_get_def assms ..

sublocale cookie_laws < legacy: storage_laws "CookieStorageWithLegacySameSite L"
proof (unfold_locales, goal_cases)
  case (1 v t k days s)
  then show ?case by (cases "JSON_parse t") (simp_all add: storage_defs get_set)
next
  case (2 k s)
  then show ?case by (simp add: storage_defs get_remove)
next
  case (3 v k k' days s)
  then have "legacy_get L k' (legacy_save L k v days s) = legacy_get L k' s"
    by (intro legacy_get_same) (auto simp: storage_defs get_set apart_def)
  then show ?case by (simp add: CookieStorageWithLegacySameSite_def)
next
  case (4 k k' s)
  then have "legacy_get L k' (legacy_remove L k s) = legacy_get L k' s"
    by (intro legacy_get_same) (auto simp: storage_defs get_remove apart_def)
  then show ?case by (simp add: CookieStorageWithLegacySameSite_def)
qed

context cookie_laws
begin

lemma cookie_storage: "storage_laws (CookieStorage L)" ..

lemma legacy_storage: "storage_laws (CookieStorageWithLegacySameSite L)" ..

end

interpretation session: storage_laws SessionStorage
proof (unfold_locales, goal_cases)
  case (1 v t k days s)
  then show ?case by (simp add: SessionStorage_def session_get_def session_save_def AList.update_conv')
next
  case (2 k s)
  then show ?case by (simp add: SessionStorage_def session_get_def session_remove_def AList.delete_conv')
next
  case (3 v k k' days s)
  then show ?case by (auto simp: SessionStorage_def session_get_def session_save_def AList.update_conv' apart_def)
next
  case (4 k k' s)
  then show ?case by (auto simp: SessionStorage_def session_get_def session_remove_def AList.delete_conv' apart_def)
qed

text \<open>A jar that keeps every cookie it is given: the cookies of one page, none of which expires.\<close>

definition page_cookies :: "(string \<times> string) list cookie_lib" where
  "page_cookies =
     \<lparr>Cookies_get = (\<lambda>k c. map_of c k),
      Cookies_set = (\<lambda>k v attrs c. case v of None \<Rightarrow> c | Some t \<Rightarrow> AList.update k t c),
      Cookies_remove = (\<lambda>k c. AList.delete k c)\<rparr>"

interpretation page: cookie_laws page_cookies
  by unfold_locales (simp_all add: page_cookies_def AList.update_conv' AList.delete_conv')

section \<open>Properties of the transaction manager\<close>

text \<open>The storages a client may keep its transactions in.\<close>

definition transaction_storages :: "'c cookie_lib \<Rightarrow> 'c client_storage set" where
  "transaction_storages L = {CookieStorage L, CookieStorageWithLegacySameSite L, SessionStorage}"

lemma transaction_storage_laws:
  assumes "cookie_laws L" and "St \<in> transaction_storages L"
  shows "storage_laws St"
  using assms cookie_laws.cookie_storage cookie_laws.legacy_storage session.storage_laws_axioms
  by (auto simp: transaction_storages_def)

text \<open>
  C23: a transaction created before a redirect is found by the manager the page builds when it comes
  back, in every storage the client can be configured with; properties without a JSON form are lost.
\<close>

theorem transaction_survives_reload:
  assumes "cookie_laws L" and "St \<in> transaction_storages L"
    and "new_TransactionManager St c s = Inr tm" and "json_ok (JObj (defined_props tr))"
    and "tm_create tr tm s = (tm', s')"
  shows "tm_get tm' = JObj tr \<and>
    (\<exists>tm''. new_TransactionManager St c s' = Inr tm'' \<and> tm_get tm'' = JObj (defined_props tr))"
  using storage_laws.create_then_new [OF transaction_storage_laws [OF assms(1,2)] assms(3-5)] .

text \<open>
  A transaction that was removed is gone for this manager and for every manager built later, so a
  callback cannot be replayed.
\<close>

theorem transaction_removed_once:
  assumes "cookie_laws L" and "St \<in> transaction_storages L"
    and "new_TransactionManager St c s = Inr tm" and "tm_remove tm s' = (tm', s'')"
  shows "\<not> truthy (tm_get tm') \<and>
    (\<exists>tm''. new_TransactionManager St c s'' = Inr tm'' \<and> \<not> truthy (tm_get tm''))"
  using storage_laws.remove_then_new [OF transaction_storage_laws [OF assms(1,2)] assms(3,4)] .

definition empty_site :: "(string \<times> string) list site" where
  "empty_site = \<lparr>jar = [], sessionStorage = [], protocol = ''https:''\<rparr>"

definition sample_transaction :: obj where
  "sample_transaction =
     [(''nonce'', JStr ''n''), (''code_verifier'', JStr ''v''), (''appState'', JUndef), (''state'', JStr ''s'')]"

lemma sample_storage: "CookieStorageWithLegacySameSite page_cookies \<in> transaction_storages page_cookies"
  by (simp add: transaction_storages_def)

lemma sample_new:
  "\<exists>tm. new_TransactionManager (CookieStorageWithLegacySameSite page_cookies) ''cid'' empty_site = Inr tm"
  by (simp add: new_TransactionManager_def storage_defs page_cookies_def empty_site_def)

lemma sample_defined:
  "defined_props sample_transaction =
     [(''nonce'', JStr ''n''), (''code_verifier'', JStr ''v''), (''state'', JStr ''s'')]"
  by (simp add: defined_props_def sample_transaction_def)

theorem transaction_survives_reload_witness:
  "\<exists>tm tm' s' tm''. tm_create sample_transaction tm empty_site = (tm', s') \<and>
     new_TransactionManager (CookieStorageWithLegacySameSite page_cookies) ''cid'' s' = Inr tm'' \<and>
     tm_get tm'' = JObj [(''nonce'', JStr ''n''), (''code_verifier'', JStr ''v''), (''state'', JStr ''s'')]"
proof -
  obtain tm where tm: "new_TransactionManager (CookieStorageWithLegacySameSite page_cookies) ''cid'' empty_site = Inr tm"
    using sample_new by blast
  obtain tm' s' where c: "tm_create sample_transaction tm empty_site = (tm', s')" by fastforce
  from transaction_survives_reload [OF page.cookie_laws_axioms sample_storage tm _ c] c show ?thesis
    by (auto simp: sample_defined)
qed

theorem transaction_removed_once_witness:
  "\<exists>tm tm' s'. tm_remove tm empty_site = (tm', s') \<and> \<not> truthy (tm_get tm') \<and>
     (\<exists>tm''. new_TransactionManager (CookieStorageWithLegacySameSite page_cookies) ''cid'' s' = Inr tm'' \<and>
        \<not> truthy (tm_get tm''))"
proof -
  obtain tm where tm: "new_TransactionManager (CookieStorageWithLegacySameSite page_cookies) ''cid'' empty_site = Inr tm"
    using sample_new by blast
  obtain tm' s' where r: "tm_remove tm empty_site = (tm', s')" by fastforce
  from transaction_removed_once [OF page.cookie_laws_axioms sample_storage tm r] r show ?thesis by blast
qed

end
