(* ===== verification/Http.thy ===== *)
theory Http
  imports Encoding
begin

text \<open>
  \<open>http.ts\<close>, \<open>api.ts\<close> and the token worker (\<open>worker/token.worker.ts\<close>, \<open>worker/worker.utils.ts\<close>).

  The network is a parameter: a function from a request and the state \<open>'w\<close> of the outside world to
  what becomes of the request before its timeout (a response, a network error, nothing) and the new
  state. Every request is logged. The worker is a state of its own (its refresh tokens) that is
  reached by messages only; a message is copied, so what the worker changes in a request is not
  seen by the page. Aborting a request that timed out has no effect inside the page.

  Request bodies are well-formed UTF-8, so the lenient decoding of \<open>URLSearchParams\<close> never
  has to replace a malformed byte sequence.
\<close>

section \<open>Requests and the network\<close>

record fetch_options =
  fo_method :: string
  fo_body :: string
  fo_headers :: obj

record request =
  rq_url :: string
  rq_options :: fetch_options
  rq_timeout :: jsval

datatype reply = Response bool string | NetworkError string | NoReply

type_synonym 'w network = "request \<Rightarrow> 'w \<Rightarrow> reply \<times> 'w"

record 'w http =
  outside :: 'w
  requests :: "request list"
  refreshTokens :: obj

definition send :: "'w network \<Rightarrow> request \<Rightarrow> ('w http, js_error, reply) eff" where
  "send net rq =
     (\<lambda>h. case net rq (outside h) of (r, w) \<Rightarrow> (Inr r, h\<lparr>outside := w, requests := requests h @ [rq]\<rparr>))"

definition fetch_timeout_message :: string where
  "fetch_timeout_message = ''Timeout when executing '' @ [CHR 0x27] @ ''fetch'' @ [CHR 0x27]"

section \<open>Fetching in the page\<close>

definition fetch_result :: "bool \<Rightarrow> jsval \<Rightarrow> jsval" where
  "fetch_result ok json = JObj [(''ok'', JBool ok), (''json'', json)]"

text \<open>\<open>dofetch\<close> raced against the timeout.\<close>

definition fetchWithoutWorker ::
  "'w network \<Rightarrow> string \<Rightarrow> fetch_options \<Rightarrow> jsval \<Rightarrow> ('w http, js_error, jsval) eff" where
  "fetchWithoutWorker net fetchUrl fetchOptions timeout =
     bindE (send net \<lparr>rq_url = fetchUrl, rq_options = fetchOptions, rq_timeout = timeout\<rparr>) (\<lambda>r.
       case r of
         Response ok text \<Rightarrow> bindE (liftR (JSON_parse text)) (\<lambda>json. ret (fetch_result ok json))
       | NetworkError m \<Rightarrow> throw (FetchFailure m)
       | NoReply \<Rightarrow> throw (Error fetch_timeout_message))"

section \<open>Form data\<close>

text \<open>\<open>new URLSearchParams(text)\<close>: percent sequences that are not well formed stay as they are.\<close>

fun form_decode :: "string \<Rightarrow> string" where
  "form_decode [] = []"
| "form_decode (c # cs) =
     (if c = CHR ''+'' then CHR '' '' # form_decode cs
      else if c = CHR ''%''
      then (case cs of
              a # b # r \<Rightarrow>
                (case (hex_val a, hex_val b) of
                   (Some x, Some y) \<Rightarrow> char_of (16 * x + y) # form_decode r
                 | _ \<Rightarrow> c # form_decode cs)
            | _ \<Rightarrow> c # form_decode cs)
      else c # form_decode cs)"

definition form_pair :: "string \<Rightarrow> string \<times> string" where
  "form_pair seg =
     (form_decode (takeWhile (\<lambda>c. c \<noteq> CHR ''='') seg),
      form_decode (tl (dropWhile (\<lambda>c. c \<noteq> CHR ''='') seg)))"

definition formDataToObject :: "string \<Rightarrow> obj" where
  "formDataToObject formData =
     fold (\<lambda>seg parsedQuery. case form_pair seg of (key, val) \<Rightarrow> obj_set key (JStr val) parsedQuery)
       (filter (\<lambda>seg. seg \<noteq> []) (split_on ''&'' formData)) []"

text \<open>\<open>new URLSearchParams(o).toString()\<close>.\<close>

definition form_char :: "char \<Rightarrow> string" where
  "form_char c =
     (if c = CHR '' '' then ''+''
      else if is_alnum c \<or> c \<in> set ''*-._'' then [c]
      else [CHR ''%'', hex_upper (of_char c div 16), hex_upper (of_char c mod 16)])"

definition form_encode :: "string \<Rightarrow> string" where
  "form_encode s = concat (map form_char s)"

definition form_data :: "obj \<Rightarrow> string" where
  "form_data ob = join ''&'' (map (\<lambda>(k, v). form_encode k @ ''='' @ form_encode (to_string v)) ob)"

section \<open>The worker\<close>

definition cacheKey :: "jsval \<Rightarrow> jsval \<Rightarrow> string" where
  "cacheKey audience scope = to_string audience @ ''|'' @ to_string scope"

definition getRefreshToken :: "jsval \<Rightarrow> jsval \<Rightarrow> 'w http \<Rightarrow> jsval" where
  "getRefreshToken audience scope h = obj_get (refreshTokens h) (cacheKey audience scope)"

definition setRefreshToken :: "jsval \<Rightarrow> jsval \<Rightarrow> jsval \<Rightarrow> 'w http \<Rightarrow> 'w http" where
  "setRefreshToken refreshToken audience scope h =
     h\<lparr>refreshTokens := obj_set (cacheKey audience scope) refreshToken (refreshTokens h)\<rparr>"

definition deleteRefreshToken :: "jsval \<Rightarrow> jsval \<Rightarrow> 'w http \<Rightarrow> 'w http" where
  "deleteRefreshToken audience scope h =
     h\<lparr>refreshTokens := obj_omit [cacheKey audience scope] (refreshTokens h)\<rparr>"

definition error_post :: "string \<Rightarrow> jsval" where
  "error_post m = JObj [(''error'', JStr m)]"

definition failure_post :: "js_error \<Rightarrow> jsval" where
  "failure_post e =
     JObj [(''ok'', JBool False), (''json'', JObj [(''error_description'', JStr (err_message e))])]"

text \<open>The message: \<open>auth\<close> is always sent with both fields.\<close>

record worker_message =
  wm_timeout :: jsval
  wm_audience :: jsval
  wm_scope :: jsval
  wm_fetchUrl :: string
  wm_fetchOptions :: fetch_options
  wm_useFormData :: jsval

definition read_body :: "worker_message \<Rightarrow> js_error + jsval" where
  "read_body msg =
     (if truthy (wm_useFormData msg) then Inr (JObj (formDataToObject (fo_body (wm_fetchOptions msg))))
      else JSON_parse (fo_body (wm_fetchOptions msg)))"

definition write_body :: "worker_message \<Rightarrow> obj \<Rightarrow> string" where
  "write_body msg ob =
     (if truthy (wm_useFormData msg) then form_data ob
      else (case stringify (JObj ob) of None \<Rightarrow> [] | Some t \<Rightarrow> t))"

text \<open>The refresh token is added to a refresh request that has none.\<close>

definition prepare_options :: "worker_message \<Rightarrow> ('w http, js_error, fetch_options) eff" where
  "prepare_options msg =
     bindE (liftR (read_body msg)) (\<lambda>body.
     bindE (liftR (js_prop body ''refresh_token'')) (\<lambda>rt.
     bindE (liftR (js_prop body ''grant_type'')) (\<lambda>grant.
       if \<not> truthy rt \<and> grant = JStr ''refresh_token''
       then bindE (getS (getRefreshToken (wm_audience msg) (wm_scope msg))) (\<lambda>refreshToken.
              if \<not> truthy refreshToken then throw (Error MISSING_REFRESH_TOKEN_ERROR_MESSAGE)
              else bindE (liftR (own_entries body)) (\<lambda>ob.
                   ret ((wm_fetchOptions msg)\<lparr>fo_body := write_body msg
                          (obj_spread ob [(''refresh_token'', refreshToken)])\<rparr>)))
       else ret (wm_fetchOptions msg))))"

text \<open>What is kept of a response, and what is posted of it.\<close>

definition keep_token :: "worker_message \<Rightarrow> jsval \<Rightarrow> ('w http, js_error, jsval) eff" where
  "keep_token msg json =
     bindE (liftR (js_prop json ''refresh_token'')) (\<lambda>rt.
       if truthy rt
       then bindE (modS (setRefreshToken rt (wm_audience msg) (wm_scope msg))) (\<lambda>_.
              ret (case json of JObj ob \<Rightarrow> JObj (obj_omit [''refresh_token''] ob) | _ \<Rightarrow> json))
       else bindE (modS (deleteRefreshToken (wm_audience msg) (wm_scope msg))) (\<lambda>_. ret json))"

definition messageHandler :: "'w network \<Rightarrow> worker_message \<Rightarrow> ('w http, js_error, jsval) eff" where
  "messageHandler net msg =
     catchE
       (bindE (prepare_options msg) (\<lambda>fetchOptions.
        bindE (send net \<lparr>rq_url = wm_fetchUrl msg, rq_options = fetchOptions, rq_timeout = wm_timeout msg\<rparr>) (\<lambda>r.
          case r of
            NetworkError m \<Rightarrow> ret (error_post m)
          | NoReply \<Rightarrow> ret (error_post fetch_timeout_message)
          | Response ok text \<Rightarrow>
              bindE (liftR (JSON_parse text)) (\<lambda>json.
              bindE (keep_token msg json) (\<lambda>json'. ret (fetch_result ok json'))))))
       (\<lambda>error. ret (failure_post error))"

text \<open>\<open>sendMessage\<close>: the page's end of the exchange.\<close>

definition sendMessage :: "'w network \<Rightarrow> worker_message \<Rightarrow> ('w http, js_error, jsval) eff" where
  "sendMessage net msg =
     bindE (messageHandler net msg) (\<lambda>data.
     bindE (liftR (js_prop data ''error'')) (\<lambda>err.
       if truthy err then throw (Error (to_string err)) else ret data))"

definition fetchWithWorker ::
  "'w network \<Rightarrow> string \<Rightarrow> jsval \<Rightarrow> jsval \<Rightarrow> fetch_options \<Rightarrow> jsval \<Rightarrow> jsval \<Rightarrow> ('w http, js_error, jsval) eff" where
  "fetchWithWorker net fetchUrl audience scope fetchOptions timeout useFormData =
     sendMessage net
       \<lparr>wm_timeout = timeout, wm_audience = audience, wm_scope = scope, wm_fetchUrl = fetchUrl,
        wm_fetchOptions = fetchOptions, wm_useFormData = useFormData\<rparr>"

definition switchFetch ::
  "'w network \<Rightarrow> string \<Rightarrow> jsval \<Rightarrow> jsval \<Rightarrow> fetch_options \<Rightarrow> bool \<Rightarrow> jsval \<Rightarrow> jsval \<Rightarrow> ('w http, js_error, jsval) eff" where
  "switchFetch net fetchUrl audience scope fetchOptions worker useFormData timeout =
     (let timeout = (if timeout = JUndef then JNum DEFAULT_FETCH_TIMEOUT_MS else timeout)
      in if worker then fetchWithWorker net fetchUrl audience scope fetchOptions timeout useFormData
         else fetchWithoutWorker net fetchUrl fetchOptions timeout)"

section \<open>Requests with retries\<close>

text \<open>The loop of \<open>getJSON\<close>: the last error, if every attempt failed, and the response.\<close>

fun fetch_loop ::
  "nat \<Rightarrow> js_error option \<Rightarrow> ('s, js_error, jsval) eff \<Rightarrow> ('s, js_error, js_error option \<times> jsval) eff" where
  "fetch_loop 0 fetchError attempt = ret (fetchError, JUndef)"
| "fetch_loop (Suc n) fetchError attempt =
     (\<lambda>s. case attempt s of
        (Inr response, s') \<Rightarrow> (Inr (None, response), s')
      | (Inl e, s') \<Rightarrow> fetch_loop n (Some e) attempt s')"

text \<open>\<open>fetchError.message = fetchError.message || 'Failed to fetch'\<close>.\<close>

fun named_error :: "js_error \<Rightarrow> js_error" where
  "named_error (FetchFailure m) = FetchFailure (if m = [] then ''Failed to fetch'' else m)"
| "named_error (Error m) = Error (if m = [] then ''Failed to fetch'' else m)"
| "named_error e = e"

definition read_response :: "string \<Rightarrow> jsval \<Rightarrow> js_error + obj" where
  "read_response url response =
     bindR (js_prop response ''json'') (\<lambda>json.
     bindR (own_entries json) (\<lambda>props.
     bindR (js_prop response ''ok'') (\<lambda>ok.
       (let error = obj_get props ''error''; error_description = obj_get props ''error_description'';
            data = obj_omit [''error'', ''error_description''] props
        in if truthy ok then Inr data
           else
             (let errorMessage = js_or error_description (JStr (''HTTP error. Unable to fetch '' @ url))
              in if error = JStr ''mfa_required''
                 then Inl (MfaRequiredError error errorMessage (obj_get data ''mfa_token''))
                 else Inl (GenericError (js_or error (JStr ''request_error'')) errorMessage))))))"

definition getJSON ::
  "'w network \<Rightarrow> string \<Rightarrow> jsval \<Rightarrow> jsval \<Rightarrow> jsval \<Rightarrow> fetch_options \<Rightarrow> bool \<Rightarrow> jsval \<Rightarrow> ('w http, js_error, obj) eff" where
  "getJSON net url timeout audience scope options worker useFormData =
     bindE (fetch_loop DEFAULT_SILENT_TOKEN_RETRY_COUNT None
              (switchFetch net url audience scope options worker useFormData timeout)) (\<lambda>(fetchError, response).
       case fetchError of
         Some e \<Rightarrow> throw (named_error e)
       | None \<Rightarrow> liftR (read_response url response))"

section \<open>The token endpoint\<close>

text \<open>The options the destructuring takes out of the request.\<close>

definition token_settings :: "string list" where
  "token_settings = [''baseUrl'', ''timeout'', ''audience'', ''scope'', ''authokClient'', ''useFormData'']"

definition token_body :: "obj \<Rightarrow> string" where
  "token_body options =
     (let rest = obj_omit token_settings options
      in if truthy (obj_get options ''useFormData'') then createQueryParams rest
         else (case stringify (JObj rest) of None \<Rightarrow> [] | Some t \<Rightarrow> t))"

text \<open>\<open>btoa(JSON.stringify(authokClient || DEFAULT_AUTHOK_CLIENT))\<close>.\<close>

definition client_header :: "jsval \<Rightarrow> js_error + string" where
  "client_header authokClient =
     btoa (case stringify (js_or authokClient DEFAULT_AUTHOK_CLIENT) of None \<Rightarrow> ''undefined'' | Some t \<Rightarrow> t)"

definition oauthToken :: "'w network \<Rightarrow> obj \<Rightarrow> bool \<Rightarrow> ('w http, js_error, obj) eff" where
  "oauthToken net options worker =
     (let useFormData = obj_get options ''useFormData''
      in bindE (liftR (client_header (obj_get options ''authokClient''))) (\<lambda>hdr.
           getJSON net (to_string (obj_get options ''baseUrl'') @ ''/oauth/token'') (obj_get options ''timeout'')
             (js_or (obj_get options ''audience'') (JStr ''default'')) (obj_get options ''scope'')
             \<lparr>fo_method = ''POST'', fo_body = token_body options,
              fo_headers = [(''Content-Type'', JStr (if truthy useFormData
                                then ''application/x-www-form-urlencoded'' else ''application/json'')),
                            (''Authok-Client'', JStr hdr)]\<rparr>
             worker useFormData))"


section \<open>Lemmas: what a request leaves alone\<close>

lemma keeps_reply [keeps_intros]:
  "(\<And>ok t. keeps f (a ok t)) \<Longrightarrow> (\<And>m. keeps f (b m)) \<Longrightarrow> keeps f c \<Longrightarrow>
     keeps f (case r of Response ok t \<Rightarrow> a ok t | NetworkError m \<Rightarrow> b m | NoReply \<Rightarrow> c)"
  by (cases r) simp_all

lemma keeps_loop [keeps_intros]: "keeps f m \<Longrightarrow> keeps f (fetch_loop n e m)"
proof (induction n arbitrary: e)
  case 0
  show ?case by (simp add: keeps_intros)
next
  case (Suc n)
  have "f (snd (fetch_loop (Suc n) e m s)) = f s" for s
  proof -
    obtain r s' where r: "m s = (r, s')" by fastforce
    then have "f s' = f s" using Suc.prems by (metis keeps_def snd_conv)
    with r Suc.IH [OF Suc.prems] show ?thesis by (cases r) (simp_all add: keeps_def)
  qed
  then show ?case by (simp add: keeps_def)
qed

text \<open>
  Something of the outside world that sending a request does not change is the same after a call of the
  token endpoint, by page or worker, with all its retries.
\<close>

lemma oauthToken_keeps:
  assumes "\<And>rq w. g (snd (net rq w)) = g w"
  shows "keeps (\<lambda>h. g (outside h)) (oauthToken net options worker)"
proof -
  have s: "keeps (\<lambda>h. g (outside h)) (send net rq)" for rq
    using assms by (simp add: keeps_def send_def split: prod.split) (metis snd_conv)
  have m: "keeps (\<lambda>h :: 'a http. g (outside h)) (modS (setRefreshToken rt a sc))"
    "keeps (\<lambda>h :: 'a http. g (outside h)) (modS (deleteRefreshToken a sc))" for rt a sc
    by (simp_all add: keeps_mod setRefreshToken_def deleteRefreshToken_def)
  show ?thesis
    unfolding oauthToken_def Let_def getJSON_def switchFetch_def fetchWithWorker_def sendMessage_def messageHandler_def
      fetchWithoutWorker_def keep_token_def prepare_options_def case_prod_beta
    by (intro keeps_intros s m)
qed

section \<open>Lemmas: retries\<close>

text \<open>\<open>k\<close> failing attempts in a row lead from one state to another.\<close>

fun fails :: "('s, js_error, 'a) eff \<Rightarrow> nat \<Rightarrow> 's \<Rightarrow> 's option" where
  "fails m 0 s = Some s"
| "fails m (Suc k) s = (case m s of (Inl e, s') \<Rightarrow> fails m k s' | (Inr a, s') \<Rightarrow> None)"

lemma fetch_loop_success:
  "fails m k s = Some s' \<Longrightarrow> k < n \<Longrightarrow> m s' = (Inr r, s'') \<Longrightarrow> fetch_loop n e m s = (Inr (None, r), s'')"
proof (induction k arbitrary: n e s)
  case 0
  then show ?case by (cases n) auto
next
  case (Suc k)
  then obtain n' where "n = Suc n'" by (cases n) auto
  with Suc show ?case by (auto split: prod.splits sum.splits)
qed

lemma fetch_loop_failure:
  "fails m n s = Some s' \<Longrightarrow> 0 < n \<Longrightarrow> \<exists>e s1. m s1 = (Inl e, s') \<and> fetch_loop n e0 m s = (Inr (Some e, JUndef), s')"
proof (induction n arbitrary: e0 s)
  case 0
  then show ?case by simp
next
  case (Suc n)
  then obtain e s1 where m: "m s = (Inl e, s1)" "fails m n s1 = Some s'"
    by (auto split: prod.splits sum.splits)
  show ?case
  proof (cases n)
    case 0
    with m show ?thesis by (auto simp: ret_def)
  next
    case (Suc n')
    with Suc.IH [OF m(2), of "Some e"] m(1) show ?thesis by simp
  qed
qed

lemma fetch_loop_bound:
  assumes "\<And>s. size_of (snd (m s)) \<le> size_of s + (1 :: nat)"
  shows "size_of (snd (fetch_loop n e m s)) \<le> size_of s + n"
proof (induction n arbitrary: e s)
  case 0
  then show ?case by (simp add: ret_def)
next
  case (Suc n)
  have "size_of (snd (fetch_loop n e' m (snd (m s)))) \<le> size_of s + Suc n" for e'
    using Suc.IH [of e' "snd (m s)"] assms [of s] by linarith
  moreover have "size_of (snd (m s)) \<le> size_of s + Suc n"
    using assms [of s] by linarith
  ultimately show ?case
    by (cases "m s"; cases "fst (m s)") auto
qed

section \<open>Lemmas: the worker\<close>

definition posted_token :: "jsval \<Rightarrow> jsval" where
  "posted_token post =
     (case bindR (js_prop post ''json'') (\<lambda>json. js_prop json ''refresh_token'') of Inl e \<Rightarrow> JUndef | Inr rt \<Rightarrow> rt)"

lemma prepare_keeps: "snd (prepare_options msg h) = h"
  by (auto simp: prepare_options_def bindE_def eff_run split: sum.splits prod.splits)

lemma posted_error [simp]: "posted_token (error_post m) = JUndef"
  by (simp add: posted_token_def error_post_def obj_get_def js_prop_def)

lemma posted_failure [simp]: "posted_token (failure_post e) = JUndef"
  by (simp add: posted_token_def failure_post_def obj_get_def js_prop_def)

lemma posted_result: "posted_token (fetch_result ok json) = (case js_prop json ''refresh_token'' of Inl e \<Rightarrow> JUndef | Inr rt \<Rightarrow> rt)"
  by (simp add: posted_token_def fetch_result_def obj_get_def)

lemma keep_token_cases:
  "keep_token msg json h =
     (case js_prop json ''refresh_token'' of
        Inl e \<Rightarrow> (Inl e, h)
      | Inr rt \<Rightarrow>
          if truthy rt
          then (Inr (case json of JObj ob \<Rightarrow> JObj (obj_omit [''refresh_token''] ob) | _ \<Rightarrow> json),
                setRefreshToken rt (wm_audience msg) (wm_scope msg) h)
          else (Inr json, deleteRefreshToken (wm_audience msg) (wm_scope msg) h))"
  by (auto simp: keep_token_def bindE_def eff_run split: sum.splits)

lemma keep_token_hides:
  "keep_token msg json h = (Inr json', h') \<Longrightarrow> \<not> truthy (posted_token (fetch_result ok json'))"
  by (cases json) (auto simp: keep_token_cases posted_result js_prop_def split: if_splits)

lemma send_run: "send net rq h =
   (Inr (fst (net rq (outside h))), h\<lparr>outside := snd (net rq (outside h)), requests := requests h @ [rq]\<rparr>)"
  by (simp add: send_def split: prod.split)

text \<open>One run of the handler, by what becomes of the request.\<close>

lemma messageHandler_cases:
  assumes "prepare_options msg h = (p, h)"
  shows "messageHandler net msg h =
    (case p of Inl e \<Rightarrow> (Inr (failure_post e), h)
     | Inr opts \<Rightarrow>
        (let rq = \<lparr>rq_url = wm_fetchUrl msg, rq_options = opts, rq_timeout = wm_timeout msg\<rparr>;
             h1 = h\<lparr>outside := snd (net rq (outside h)), requests := requests h @ [rq]\<rparr>
         in case fst (net rq (outside h)) of
              NetworkError m \<Rightarrow> (Inr (error_post m), h1)
            | NoReply \<Rightarrow> (Inr (error_post fetch_timeout_message), h1)
            | Response ok t \<Rightarrow>
                (case JSON_parse t of Inl e \<Rightarrow> (Inr (failure_post e), h1)
                 | Inr json \<Rightarrow>
                    (case keep_token msg json h1 of (Inl e, h2) \<Rightarrow> (Inr (failure_post e), h2)
                     | (Inr json', h2) \<Rightarrow> (Inr (fetch_result ok json'), h2)))))"
  using assms
  by (cases p) (auto simp: messageHandler_def catchE_def bindE_def eff_run send_run Let_def
      split: reply.split sum.split prod.split)

lemma keep_token_requests: "keep_token msg json h1 = (r, h2) \<Longrightarrow> requests h2 = requests h1"
  by (auto simp: keep_token_cases setRefreshToken_def deleteRefreshToken_def split: sum.splits if_splits)

lemma worker_reply: "\<exists>post h'. messageHandler net msg h = (Inr post, h')"
proof -
  obtain p where p: "prepare_options msg h = (p, h)"
    using prepare_keeps [of msg h] by (metis prod.collapse)
  show ?thesis
    unfolding messageHandler_cases [OF p] Let_def by (auto split: sum.split reply.split prod.split)
qed

lemma json_ok_set:
  assumes "json_ok (JObj ob)" and "json_ok v"
  shows "json_ok (JObj (obj_set k v ob))"
proof -
  have "set (obj_set k v ob) \<subseteq> insert (k, v) (set ob)"
    unfolding obj_set_def by (induction ob) auto
  then show ?thesis
    using assms by (auto simp: obj_set_def distinct_update list_all_iff)
qed

lemma messageHandler_requests:
  "length (requests (snd (messageHandler net msg h))) \<le> length (requests h) + 1"
proof -
  obtain p where p: "prepare_options msg h = (p, h)"
    using prepare_keeps [of msg h] by (metis prod.collapse)
  show ?thesis
    unfolding messageHandler_cases [OF p] Let_def
    by (auto split: sum.split reply.split prod.split dest!: keep_token_requests)
qed

lemma switchFetch_requests:
  "length (requests (snd (switchFetch net url a sc opts worker fd tmo h))) \<le> length (requests h) + 1"
proof -
  have "requests (snd (fetchWithoutWorker net url opts tm h)) = requests h @ [\<lparr>rq_url = url, rq_options = opts, rq_timeout = tm\<rparr>]" for tm
    by (auto simp: fetchWithoutWorker_def bindE_def send_run eff_run split: reply.split sum.split)
  moreover have "length (requests (snd (sendMessage net msg h))) \<le> length (requests h) + 1" for msg
  proof -
    obtain r h' where "messageHandler net msg h = (r, h')" by fastforce
    then show ?thesis
      using messageHandler_requests [of net msg h]
      by (auto simp: sendMessage_def bindE_def eff_run split: sum.split)
  qed
  ultimately show ?thesis by (simp add: switchFetch_def Let_def fetchWithWorker_def)
qed

section \<open>Lemmas: form data\<close>

lemma form_decode_plain: "c \<noteq> CHR ''+'' \<Longrightarrow> c \<noteq> CHR ''%'' \<Longrightarrow> form_decode (c # t) = c # form_decode t"
  by simp

lemma form_decode_pct:
  "form_decode (CHR ''%'' # hex_upper (of_char c div 16) # hex_upper (of_char c mod 16) # t) = c # form_decode t"
  by (simp add: byte_split)

lemma form_decode_enc: "form_decode (pct_enc c @ t) = c # form_decode t"
proof (cases "uri_unreserved c")
  case True
  then have "c \<noteq> CHR ''+''" "c \<noteq> CHR ''%''" by (auto simp: uri_unreserved_def is_alnum_def)
  with True show ?thesis by (simp add: pct_enc_def del: form_decode.simps add: form_decode_plain)
next
  case False
  then show ?thesis by (simp add: pct_enc_def form_decode_pct del: form_decode.simps)
qed

lemma form_decode_encodeURI: "form_decode (encodeURIComponent s) = s"
  by (induction s) (simp_all add: encodeURIComponent_def form_decode_enc)

lemma form_decode_char: "form_decode (form_char c @ t) = c # form_decode t"
proof -
  consider "c = CHR '' ''" | "c \<noteq> CHR '' ''" "is_alnum c \<or> c \<in> set ''*-._''"
    | "c \<noteq> CHR '' ''" "\<not> (is_alnum c \<or> c \<in> set ''*-._'')" by blast
  then show ?thesis
  proof cases
    case 1
    then show ?thesis by (simp add: form_char_def)
  next
    case 2
    then have "c \<noteq> CHR ''+''" "c \<noteq> CHR ''%''" by (auto simp: is_alnum_def)
    moreover have "form_char c = [c]" using 2 unfolding form_char_def by (simp only: if_False if_True)
    ultimately show ?thesis by (simp add: form_decode_plain del: form_decode.simps)
  next
    case 3
    then have "form_char c = [CHR ''%'', hex_upper (of_char c div 16), hex_upper (of_char c mod 16)]"
      unfolding form_char_def by (simp only: if_False)
    then show ?thesis by (simp add: form_decode_pct del: form_decode.simps)
  qed
qed

lemma form_decode_encode: "form_decode (form_encode s) = s"
  by (induction s) (simp_all add: form_encode_def form_decode_char)

lemma form_char_chars: "x \<in> set (form_char c) \<Longrightarrow> is_alnum x \<or> x \<in> set ''+%*-._''"
  by (auto simp: form_char_def hex_upper_alnum split: if_splits)

lemma form_encode_no_delim: "CHR ''&'' \<notin> set (form_encode s)" "CHR ''='' \<notin> set (form_encode s)"
  using form_char_chars [of "CHR ''&''"] form_char_chars [of "CHR ''=''"]
  by (auto simp: form_encode_def is_alnum_def)

lemma form_pair_append:
  assumes "CHR ''='' \<notin> set ek"
  shows "form_pair (ek @ ''='' @ ev) = (form_decode ek, form_decode ev)"
proof -
  have "takeWhile (\<lambda>c. c \<noteq> CHR ''='') (ek @ ''='' @ ev) = ek" "dropWhile (\<lambda>c. c \<noteq> CHR ''='') (ek @ ''='' @ ev) = ''='' @ ev"
    using assms by (induction ek) auto
  then show ?thesis by (simp add: form_pair_def)
qed

text \<open>Reading pairs that any of the two encoders wrote.\<close>

lemma formDataToObject_pairs:
  assumes "\<And>s. CHR ''&'' \<notin> set (enc s)" "\<And>s. CHR ''='' \<notin> set (enc s)" "\<And>s. form_decode (enc s) = s"
    and "distinct (map fst kvs)"
  shows "formDataToObject (join ''&'' (map (\<lambda>(k, s). enc k @ ''='' @ enc s) kvs)) = map (\<lambda>(k, s). (k, JStr s)) kvs"
proof -
  let ?seg = "\<lambda>(k, s). enc k @ ''='' @ enc s"
  have segs: "filter (\<lambda>seg. seg \<noteq> []) (split_on ''&'' (join ''&'' (map ?seg kvs))) = map ?seg kvs"
  proof (cases "kvs = []")
    case False
    then have "split_on ''&'' (join ''&'' (map ?seg kvs)) = map ?seg kvs"
      using assms(1) by (intro split_on_char_join) auto
    then show ?thesis by (auto simp: filter_id_conv)
  qed simp
  have "fold (\<lambda>seg pq. case form_pair seg of (k, v) \<Rightarrow> obj_set k (JStr v) pq) (map ?seg kvs) acc =
      acc @ map (\<lambda>(k, s). (k, JStr s)) kvs"
    if "distinct (map fst kvs)" "set (map fst acc) \<inter> set (map fst kvs) = {}" for acc
    using that
  proof (induction kvs arbitrary: acc)
    case (Cons kv kvs)
    obtain k s where kv: "kv = (k, s)" by (cases kv)
    have "obj_set k (JStr s) acc = acc @ [(k, JStr s)]"
      using Cons.prems(2) kv by (subst obj_set_new) auto
    moreover have "set (map fst (acc @ [(k, JStr s)])) \<inter> set (map fst kvs) = {}"
      using Cons.prems kv by auto
    ultimately show ?case
      using Cons.IH [of "acc @ [(k, JStr s)]"] Cons.prems(1) kv form_pair_append [OF assms(2), of k "enc s"]
      by (simp add: assms(3))
  qed simp
  then show ?thesis using assms(4) unfolding formDataToObject_def segs by simp
qed

lemma worker_hides: "\<exists>post h'. messageHandler net msg h = (Inr post, h') \<and> \<not> truthy (posted_token post)"
proof -
  obtain p where p: "prepare_options msg h = (p, h)"
    using prepare_keeps [of msg h] by (metis prod.collapse)
  show ?thesis
    unfolding messageHandler_cases [OF p] Let_def
    by (auto split: sum.split reply.split prod.split dest: keep_token_hides)
qed

lemma index_keys:
  assumes "\<not> list_all is_digit k"
  shows "obj_get (zip (map show_nat ns) vs) k = JUndef"
proof -
  have "k \<noteq> show_nat n" for n using assms show_nat_digits [of _ n] by (auto simp: list_all_iff)
  then have "k \<notin> set (map fst (zip (map show_nat ns) vs))"
    by (auto dest!: set_zip_leftD) blast
  then have "map_of (zip (map show_nat ns) vs) k = None" by (simp add: map_of_eq_None_iff)
  then show ?thesis by (simp add: obj_get_def)
qed

lemma own_entries_get:
  assumes "own_entries v = Inr props" and "\<not> list_all is_digit k"
  shows "js_prop v k = Inr (obj_get props k)"
  using assms index_keys [OF assms(2)]
  by (cases v) (auto simp: js_prop_def obj_get_def [of "[]"])

lemma sendMessage_hides:
  assumes "sendMessage net msg h = (Inr data, h')"
  shows "\<not> truthy (posted_token data)"
proof -
  obtain post h1 where "messageHandler net msg h = (Inr post, h1)" "\<not> truthy (posted_token post)"
    using worker_hides by blast
  with assms show ?thesis by (auto simp: sendMessage_def bindE_def eff_run split: sum.splits if_splits)
qed

lemma fetch_loop_Inr:
  "fetch_loop n e m s = (Inr (None, r), s') \<Longrightarrow> e \<noteq> None \<or> 0 < n \<Longrightarrow> \<exists>s1. m s1 = (Inr r, s')"
proof (induction n arbitrary: e s)
  case 0
  then show ?case by (auto simp: ret_def)
next
  case (Suc n)
  then show ?case by (auto split: prod.splits sum.splits)
qed

lemma getJSON_first:
  "switchFetch net url audience scope opts worker useFormData tmo h = (Inr r, h2) \<Longrightarrow>
     getJSON net url tmo audience scope opts worker useFormData h = (read_response url r, h2)"
  by (simp add: getJSON_def bindE_def eff_run DEFAULT_SILENT_TOKEN_RETRY_COUNT_def numeral_3_eq_3)

lemma client_header_default: "\<exists>hdr. client_header JUndef = Inr hdr"
proof -
  obtain t where t: "stringify DEFAULT_AUTHOK_CLIENT = Some t"
    by (simp add: DEFAULT_AUTHOK_CLIENT_def)
  have "ascii_val DEFAULT_AUTHOK_CLIENT" by (simp add: DEFAULT_AUTHOK_CLIENT_def in_range_def)
  from ascii_stringify [OF this t] have "latin1 t = Some t" by (rule latin1_ascii)
  then show ?thesis by (simp add: client_header_def js_or_def t btoa_def)
qed

section \<open>Lemmas: answers are objects\<close>

text \<open>What the token endpoint answers, by page or worker, has no key twice.\<close>

lemma show_nat_inj: "show_nat m = show_nat n \<Longrightarrow> m = n"
  by (metis nat_of_digits_show)

lemma index_distinct: "distinct (map fst (zip (map show_nat [0..<n]) vs))"
proof -
  have "distinct (map show_nat [0..<n])" by (simp add: distinct_map inj_on_def show_nat_inj)
  then show ?thesis by (metis distinct_take map_fst_zip_take)
qed

definition sound_json :: "jsval \<Rightarrow> bool" where
  "sound_json v = (\<forall>ob. v = JObj ob \<longrightarrow> wf_obj ob)"

lemma JSON_parse_sound: "JSON_parse s = Inr v \<Longrightarrow> sound_json v"
  by (auto simp: JSON_parse_def sound_json_def json_parse_wf split: option.splits)

lemma own_entries_wf: "own_entries v = Inr props \<Longrightarrow> sound_json v \<Longrightarrow> wf_obj props"
  using index_distinct by (cases v) (auto simp: sound_json_def wf_obj_def)

definition sound_response :: "jsval \<Rightarrow> bool" where
  "sound_response v = (\<forall>url data. read_response url v = Inr data \<longrightarrow> wf_obj data)"

lemma fetch_result_sound: "sound_json json \<Longrightarrow> sound_response (fetch_result ok json)"
  by (auto simp: sound_response_def read_response_def fetch_result_def bindR_Inr_iff obj_get_def [of "_ # _"] Let_def
      intro!: wf_obj_omit own_entries_wf split: if_splits)

lemma posts_sound: "sound_response (error_post m)" "sound_response (failure_post e)"
  by (auto simp: sound_response_def read_response_def error_post_def failure_post_def bindR_Inr_iff obj_get_def Let_def
      split: if_splits)

lemma ensures_reply:
  "(\<And>ok t. ensures I (a ok t) Q) \<Longrightarrow> (\<And>m. ensures I (b m) Q) \<Longrightarrow> ensures I c Q \<Longrightarrow>
     ensures I (case r of Response ok t \<Rightarrow> a ok t | NetworkError m \<Rightarrow> b m | NoReply \<Rightarrow> c) Q"
  by (cases r) simp_all

lemma ensures_loop: "ensures I m Q \<Longrightarrow> ensures I (fetch_loop n e m) (\<lambda>(e', v). e' = None \<longrightarrow> e = None \<and> n = 0 \<or> Q v)"
proof (induction n arbitrary: e)
  case 0
  then show ?case by (simp add: ensures_def eff_run)
next
  case (Suc n)
  have "I (snd (fetch_loop (Suc n) e m s)) \<and> (\<forall>a. fst (fetch_loop (Suc n) e m s) = Inr a \<longrightarrow>
      (case a of (e', v) \<Rightarrow> e' = None \<longrightarrow> Q v))" if "I s" for s
  proof (cases "m s")
    case (Pair r s')
    then have "I s'" "\<And>a. r = Inr a \<Longrightarrow> Q a" using Suc.prems that by (auto simp: ensures_def dest: spec [of _ s])
    with Pair Suc.IH [OF Suc.prems, of "Some (projl r)"] show ?thesis by (cases r) (fastforce simp: ensures_def)+
  qed
  then show ?case by (auto simp: ensures_def)
qed

lemma trivially_ensures: "ensures (\<lambda>_. True) m (\<lambda>_. True)"
  by (simp add: ensures_def)

lemma oauthToken_sound: "ensures (\<lambda>_. True) (oauthToken net options wk) wf_obj"
proof -
  note t = trivially_ensures
  have k: "ensures (\<lambda>_. True) (keep_token msg json) sound_json" if "sound_json json" for msg json
    unfolding keep_token_def
    by (intro ensures_bind [OF t] ensures_rules) (use that in \<open>auto simp: sound_json_def split: jsval.split\<close>)
  have w: "ensures (\<lambda>_. True) (messageHandler net msg) sound_response" for msg
    unfolding messageHandler_def
    by (intro ensures_catch ensures_bind [OF t] ensures_reply ensures_bind [OF ensures_basic(3)] ensures_bind [OF k] ensures_basic(1)
        posts_sound fetch_result_sound) (auto dest: JSON_parse_sound)
  have f: "ensures (\<lambda>_. True) (switchFetch net url a sc opts wk fd tmo) sound_response" for url a sc opts wk fd tmo
    unfolding switchFetch_def fetchWithWorker_def sendMessage_def fetchWithoutWorker_def Let_def
    by (intro ensures_if ensures_bind [OF w] ensures_bind [OF t] ensures_reply ensures_bind [OF ensures_basic(3)] ensures_basic(1,2)
        fetch_result_sound) (auto dest: JSON_parse_sound)
  show ?thesis
    unfolding oauthToken_def getJSON_def Let_def DEFAULT_SILENT_TOKEN_RETRY_COUNT_def case_prod_beta
    by (intro ensures_bind [OF t] ensures_bind [OF ensures_loop [OF f]] ensures_option ensures_basic(2,3))
      (auto simp: sound_response_def split: prod.splits)
qed

section \<open>Properties of the token requests\<close>

text \<open>
  The worker answers every message, and no answer carries a refresh token: the tokens stay in
  the worker.
\<close>

theorem worker_never_posts_token:
  "\<exists>post h'. messageHandler net msg h = (Inr post, h') \<and> \<not> truthy (posted_token post)"
  by (rule worker_hides)

text \<open>
  C33: when the token endpoint answers the worker with a JSON object, the worker remembers the refresh
  token of the answer for this audience and scope, or forgets the one it had when the answer brings
  none; tokens for other keys stay, and the page gets the answer without the token.
\<close>

theorem worker_remembers_token:
  assumes "prepare_options msg h = (Inr opts, h)"
    and "net \<lparr>rq_url = wm_fetchUrl msg, rq_options = opts, rq_timeout = wm_timeout msg\<rparr> (outside h) = (Response ok text, w)"
    and "JSON_parse text = Inr (JObj ob)"
  shows "\<exists>post h'. messageHandler net msg h = (Inr (fetch_result ok (JObj post)), h') \<and>
    getRefreshToken (wm_audience msg) (wm_scope msg) h' =
      (if truthy (obj_get ob ''refresh_token'') then obj_get ob ''refresh_token'' else JUndef) \<and>
    (\<forall>k. k \<noteq> ''refresh_token'' \<longrightarrow> obj_get post k = obj_get ob k) \<and>
    (\<forall>k. k \<noteq> cacheKey (wm_audience msg) (wm_scope msg) \<longrightarrow> obj_get (refreshTokens h') k = obj_get (refreshTokens h) k)"
  unfolding messageHandler_cases [OF assms(1)] Let_def
  by (auto simp: assms(2,3) keep_token_cases getRefreshToken_def setRefreshToken_def deleteRefreshToken_def)

text \<open>
  A refresh request that reaches the worker without a token leaves it with the token the worker
  remembers for this audience and scope, and otherwise as the page wrote it.
\<close>

theorem worker_adds_stored_token:
  assumes "\<not> truthy (wm_useFormData msg)"
    and "JSON_parse (fo_body (wm_fetchOptions msg)) = Inr (JObj ob)" and "json_ok (JObj ob)"
    and "obj_get ob ''grant_type'' = JStr ''refresh_token''" and "\<not> truthy (obj_get ob ''refresh_token'')"
    and "getRefreshToken (wm_audience msg) (wm_scope msg) h = JStr tok" and "tok \<noteq> []"
  shows "\<exists>body post h'. messageHandler net msg h = (Inr post, h') \<and>
    requests h' = requests h @ [\<lparr>rq_url = wm_fetchUrl msg, rq_options = (wm_fetchOptions msg)\<lparr>fo_body := body\<rparr>,
                                 rq_timeout = wm_timeout msg\<rparr>] \<and>
    JSON_parse body = Inr (JObj (obj_set ''refresh_token'' (JStr tok) ob))"
proof -
  let ?ob = "obj_set ''refresh_token'' (JStr tok) ob"
  let ?opts = "(wm_fetchOptions msg)\<lparr>fo_body := write_body msg ?ob\<rparr>"
  have p: "prepare_options msg h = (Inr ?opts, h)"
    using assms by (simp add: prepare_options_def bindE_def eff_run read_body_def obj_spread_def)
  have "json_ok (JObj ?ob)" using assms(3) by (rule json_ok_set) simp
  then have "JSON_parse (write_body msg ?ob) = Inr (JObj ?ob)"
    using json_parse_stringify [of "JObj ?ob"] assms(1)
    by (auto simp: write_body_def JSON_parse_def simp del: stringify.simps)
  moreover have "requests h' = requests h @ [\<lparr>rq_url = wm_fetchUrl msg, rq_options = ?opts, rq_timeout = wm_timeout msg\<rparr>]"
    if "messageHandler net msg h = (r, h')" for r h'
    using that unfolding messageHandler_cases [OF p] Let_def
    by (auto split: reply.splits sum.splits prod.splits dest!: keep_token_requests)
  ultimately show ?thesis using worker_reply [of net msg h] by metis
qed

text \<open>
  C34: one call of the token endpoint sends at most three requests.
\<close>

theorem getJSON_at_most_three:
  "length (requests (snd (getJSON net url tmo audience scope opts worker useFormData h))) \<le> length (requests h) + 3"
proof -
  let ?m = "switchFetch net url audience scope opts worker useFormData tmo"
  have b: "length (requests (snd (fetch_loop 3 None ?m h))) \<le> length (requests h) + 3"
    by (rule fetch_loop_bound) (rule switchFetch_requests)
  obtain r h' where "fetch_loop 3 None ?m h = (r, h')" by fastforce
  with b show ?thesis
    by (auto simp: getJSON_def bindE_def eff_run DEFAULT_SILENT_TOKEN_RETRY_COUNT_def split: sum.split option.split)
qed

text \<open>
  Up to two attempts that fail for the network are made good by the next one: the result is what
  the first response that arrives says, errors of the endpoint included.
\<close>

theorem getJSON_retries:
  assumes "fails (switchFetch net url audience scope opts worker useFormData tmo) k h = Some h1" and "k < 3"
    and "switchFetch net url audience scope opts worker useFormData tmo h1 = (Inr r, h2)"
  shows "getJSON net url tmo audience scope opts worker useFormData h = (read_response url r, h2)"
  using fetch_loop_success [OF assms, of None]
  by (simp add: getJSON_def bindE_def eff_run DEFAULT_SILENT_TOKEN_RETRY_COUNT_def)

text \<open>
  Three failing attempts are reported with the error of the last one, which always has a message.
\<close>

theorem getJSON_gives_up:
  assumes "fails (switchFetch net url audience scope opts worker useFormData tmo) 3 h = Some h1"
  shows "\<exists>e h0. switchFetch net url audience scope opts worker useFormData tmo h0 = (Inl e, h1) \<and>
      getJSON net url tmo audience scope opts worker useFormData h = (Inl (named_error e), h1)"
proof -
  let ?m = "switchFetch net url audience scope opts worker useFormData tmo"
  obtain e h0 where "?m h0 = (Inl e, h1)" "fetch_loop 3 None ?m h = (Inr (Some e, JUndef), h1)"
    using fetch_loop_failure [OF assms, of None] by auto
  then show ?thesis
    by (auto simp: getJSON_def bindE_def eff_run DEFAULT_SILENT_TOKEN_RETRY_COUNT_def)
qed

text \<open>
  The JSON body of a token request holds the options given, without the settings of the client
  itself (base URL, timeout, audience, scope, client information, form switch) and without undefined
  ones.
\<close>

theorem token_body_json:
  assumes "\<not> truthy (obj_get options ''useFormData'')"
    and "json_ok (JObj (defined_props (obj_omit token_settings options)))"
  shows "JSON_parse (token_body options) = Inr (JObj (defined_props (obj_omit token_settings options)))"
proof -
  obtain t where "stringify (JObj (obj_omit token_settings options)) = Some t"
    "JSON_parse t = Inr (JObj (defined_props (obj_omit token_settings options)))"
    using parse_defined [OF assms(2)] .
  with assms(1) show ?thesis
    by (simp add: token_body_def token_settings_def del: stringify.simps)
qed

text \<open>
  The form body of a token request is read back by the worker as the options the page wrote, each
  as text.
\<close>

theorem token_body_form:
  assumes "truthy (obj_get options ''useFormData'')" and "wf_obj options"
  shows "formDataToObject (token_body options) =
    map (\<lambda>(k, v). (k, JStr (to_string v))) (filter (\<lambda>kv. snd kv \<noteq> JUndef) (obj_omit token_settings options))"
proof -
  let ?kvs = "filter (\<lambda>kv. snd kv \<noteq> JUndef) (obj_omit token_settings options)"
  have "distinct (map fst ?kvs)"
    using assms(2) wf_obj_omit [of options token_settings] by (simp add: wf_obj_def distinct_map_filter)
  then have "distinct (map fst (map (\<lambda>(k, v). (k, to_string v)) ?kvs))"
    by (simp add: comp_def case_prod_beta)
  from formDataToObject_pairs [of encodeURIComponent, OF _ _ form_decode_encodeURI this]
  have "formDataToObject (join ''&'' (map query_pair ?kvs)) = map (\<lambda>(k, v). (k, JStr (to_string v))) ?kvs"
    by (simp add: query_pair_def [abs_def] comp_def case_prod_beta)
  then show ?thesis
    using assms(1) by (simp add: token_body_def createQueryParams_def)
qed

text \<open>
  C11: with the worker, no answer of the token endpoint brings a refresh token into the page, so none can
  reach the cache.
\<close>

theorem worker_response_no_token:
  assumes "oauthToken net options True h = (Inr tokens, h')"
  shows "\<not> truthy (obj_get tokens ''refresh_token'')"
proof -
  obtain url a sc opts tmo fd r h1 where l: "fetch_loop 3 None (switchFetch net url a sc opts True fd tmo) h = (Inr (None, r), h1)"
    "read_response url r = Inr tokens"
    using assms by (auto simp: oauthToken_def Let_def getJSON_def bindE_def eff_run DEFAULT_SILENT_TOKEN_RETRY_COUNT_def
        split: prod.splits sum.splits option.splits)
  obtain s1 where "switchFetch net url a sc opts True fd tmo s1 = (Inr r, h1)"
    using fetch_loop_Inr [OF l(1)] by auto
  then have p: "\<not> truthy (posted_token r)"
    by (auto simp: switchFetch_def Let_def fetchWithWorker_def dest: sendMessage_hides)
  obtain json props where j: "js_prop r ''json'' = Inr json" "own_entries json = Inr props"
    "tokens = obj_omit [''error'', ''error_description''] props"
    using l(2) by (auto simp: read_response_def bindR_Inr_iff Let_def split: if_splits)
  have "js_prop json ''refresh_token'' = Inr (obj_get props ''refresh_token'')"
    by (rule own_entries_get [OF j(2)]) (simp add: is_digit_def)
  with p j(1) show ?thesis by (simp add: posted_token_def j(3))
qed

section \<open>Witnesses\<close>

text \<open>A network with one connection failure, then answers that bring a refresh token.\<close>

definition sample_net :: "nat network" where
  "sample_net rq n =
     (if n = 0 then NetworkError []
      else Response True (json_text (JObj [(''access_token'', JStr ''at''), (''refresh_token'', JStr ''r2'')])), Suc n)"

definition sample_http :: "nat \<Rightarrow> nat http" where
  "sample_http n = \<lparr>outside = n, requests = [], refreshTokens = [(''api|openid'', JStr ''r1'')]\<rparr>"

definition sample_refresh :: obj where
  "sample_refresh = [(''client_id'', JStr ''cid''), (''grant_type'', JStr ''refresh_token'')]"

definition sample_message :: worker_message where
  "sample_message =
     \<lparr>wm_timeout = JNum 10000, wm_audience = JStr ''api'', wm_scope = JStr ''openid'', wm_fetchUrl = ''u'',
      wm_fetchOptions = \<lparr>fo_method = ''POST'', fo_body = json_text (JObj sample_refresh), fo_headers = []\<rparr>,
      wm_useFormData = JUndef\<rparr>"

lemma JSON_parse_text: "json_ok v \<Longrightarrow> JSON_parse (json_text v) = Inr v"
  using json_parse_stringify [of v] by (auto simp: JSON_parse_def)

lemma sample_net_reply:
  "sample_net rq 1 = (Response True (json_text (JObj [(''access_token'', JStr ''at''), (''refresh_token'', JStr ''r2'')])), 2)"
  by (simp add: sample_net_def del: stringify.simps)

lemma sample_prepare: "\<exists>opts. prepare_options sample_message (sample_http 1) = (Inr opts, sample_http 1)"
proof -
  have "JSON_parse (fo_body (wm_fetchOptions sample_message)) = Inr (JObj sample_refresh)"
    by (simp add: sample_message_def JSON_parse_text sample_refresh_def del: stringify.simps)
  then show ?thesis
    by (simp add: prepare_options_def bindE_def eff_run read_body_def)
      (simp add: sample_message_def sample_refresh_def sample_http_def obj_get_def getRefreshToken_def cacheKey_def)
qed

theorem worker_remembers_token_witness:
  "\<exists>h'. (\<exists>post. messageHandler sample_net sample_message (sample_http 1) = (Inr post, h')) \<and>
     getRefreshToken (JStr ''api'') (JStr ''openid'') h' = JStr ''r2''"
proof -
  let ?ob = "[(''access_token'', JStr ''at''), (''refresh_token'', JStr ''r2'')]"
  obtain opts where p: "prepare_options sample_message (sample_http 1) = (Inr opts, sample_http 1)"
    using sample_prepare by blast
  have "outside (sample_http 1) = 1" by (simp add: sample_http_def)
  then have n: "sample_net rq (outside (sample_http 1)) = (Response True (json_text (JObj ?ob)), 2)" for rq
    using sample_net_reply by simp
  have j: "JSON_parse (json_text (JObj ?ob)) = Inr (JObj ?ob)" by (rule JSON_parse_text) simp
  have "obj_get ?ob ''refresh_token'' = JStr ''r2''" by (simp add: obj_get_def)
  with worker_remembers_token [where net = sample_net, OF p n j] show ?thesis
    by (auto simp: sample_message_def)
qed

theorem worker_adds_stored_token_witness:
  "\<exists>body post h'. messageHandler sample_net sample_message (sample_http 1) = (Inr post, h') \<and>
     requests h' = [\<lparr>rq_url = ''u'', rq_options = (wm_fetchOptions sample_message)\<lparr>fo_body := body\<rparr>, rq_timeout = JNum 10000\<rparr>] \<and>
     JSON_parse body = Inr (JObj (sample_refresh @ [(''refresh_token'', JStr ''r1'')]))"
proof -
  have a: "\<not> truthy (wm_useFormData sample_message)" by (simp add: sample_message_def)
  have b: "JSON_parse (fo_body (wm_fetchOptions sample_message)) = Inr (JObj sample_refresh)"
    by (simp add: sample_message_def JSON_parse_text sample_refresh_def del: stringify.simps)
  have c: "json_ok (JObj sample_refresh)" "obj_get sample_refresh ''grant_type'' = JStr ''refresh_token''"
    "\<not> truthy (obj_get sample_refresh ''refresh_token'')"
    "obj_set ''refresh_token'' (JStr ''r1'') sample_refresh = sample_refresh @ [(''refresh_token'', JStr ''r1'')]"
    by (simp_all add: sample_refresh_def obj_get_def obj_set_def)
  have d: "getRefreshToken (wm_audience sample_message) (wm_scope sample_message) (sample_http 1) = JStr ''r1''"
    by (simp add: sample_message_def sample_http_def getRefreshToken_def cacheKey_def obj_get_def)
  from worker_adds_stored_token [OF a b c(1-3) d, of sample_net] c(4) show ?thesis
    by (simp add: sample_message_def sample_http_def)
qed

lemma sample_attempts:
  "switchFetch sample_net ''u'' a sc opts False fd JUndef (sample_http 0) =
     (Inl (FetchFailure []), snd (switchFetch sample_net ''u'' a sc opts False fd JUndef (sample_http 0)))"
  "\<exists>h2. switchFetch sample_net ''u'' a sc opts False fd JUndef
       (snd (switchFetch sample_net ''u'' a sc opts False fd JUndef (sample_http 0))) =
     (Inr (fetch_result True (JObj [(''access_token'', JStr ''at''), (''refresh_token'', JStr ''r2'')])), h2)"
  by (simp_all add: switchFetch_def fetchWithoutWorker_def bindE_def send_run sample_net_def sample_http_def
      eff_run JSON_parse_text del: stringify.simps)

definition sample_opts :: fetch_options where
  "sample_opts = \<lparr>fo_method = ''POST'', fo_body = [], fo_headers = []\<rparr>"

theorem getJSON_retries_witness:
  "\<exists>h2. getJSON sample_net ''u'' JUndef (JStr ''a'') (JStr ''s'') sample_opts False JUndef (sample_http 0) =
     (Inr [(''access_token'', JStr ''at''), (''refresh_token'', JStr ''r2'')], h2)"
proof -
  let ?m = "switchFetch sample_net ''u'' (JStr ''a'') (JStr ''s'') sample_opts False JUndef JUndef"
  have f: "fails ?m 1 (sample_http 0) = Some (snd (?m (sample_http 0)))"
    unfolding One_nat_def fails.simps by (subst sample_attempts(1)) simp
  obtain h2 where h2: "?m (snd (?m (sample_http 0))) =
      (Inr (fetch_result True (JObj [(''access_token'', JStr ''at''), (''refresh_token'', JStr ''r2'')])), h2)"
    using sample_attempts(2) by blast
  from getJSON_retries [OF f _ h2] show ?thesis
    by (simp add: read_response_def fetch_result_def obj_get_def obj_omit_def)
qed

definition dead_net :: "unit network" where
  "dead_net rq w = (NetworkError [], w)"

theorem getJSON_gives_up_witness:
  "\<exists>e h1. getJSON dead_net ''u'' JUndef (JStr ''a'') (JStr ''s'') sample_opts False JUndef
      \<lparr>outside = (), requests = [], refreshTokens = []\<rparr> = (Inl (named_error e), h1)"
proof -
  let ?m = "switchFetch dead_net ''u'' (JStr ''a'') (JStr ''s'') sample_opts False JUndef JUndef"
  have "\<exists>h'. ?m h = (Inl (FetchFailure []), h')" for h
    by (simp add: switchFetch_def fetchWithoutWorker_def bindE_def send_run dead_net_def eff_run)
  then have "\<exists>h'. fails m k h = Some h'" if m: "m = ?m" for m k h
  proof (induction k arbitrary: h)
    case (Suc k)
    obtain h' where "m h = (Inl (FetchFailure []), h')" using Suc.prems m by blast
    with Suc.IH [OF Suc.prems] show ?case by simp
  qed simp
  then obtain h1 where "fails ?m 3 \<lparr>outside = (), requests = [], refreshTokens = []\<rparr> = Some h1" by blast
  from getJSON_gives_up [OF this] show ?thesis by blast
qed

definition sample_token_options :: "jsval \<Rightarrow> obj" where
  "sample_token_options fd =
     [(''baseUrl'', JStr ''https://t.cn''), (''audience'', JUndef), (''scope'', JStr ''openid''),
      (''client_id'', JStr ''cid''), (''code'', JStr ''c d''), (''redirect_uri'', JUndef), (''useFormData'', fd)]"

theorem token_body_json_witness:
  "JSON_parse (token_body (sample_token_options JUndef)) = Inr (JObj [(''client_id'', JStr ''cid''), (''code'', JStr ''c d'')])"
proof -
  have d: "defined_props (obj_omit token_settings (sample_token_options JUndef)) = [(''client_id'', JStr ''cid''), (''code'', JStr ''c d'')]"
    by (simp add: defined_props_def obj_omit_def token_settings_def sample_token_options_def)
  have f: "\<not> truthy (obj_get (sample_token_options JUndef) ''useFormData'')"
    by (simp add: sample_token_options_def obj_get_def)
  from token_body_json [OF f] show ?thesis unfolding d by simp
qed

theorem token_body_form_witness:
  "formDataToObject (token_body (sample_token_options (JBool True))) = [(''client_id'', JStr ''cid''), (''code'', JStr ''c d'')]"
proof -
  have f: "truthy (obj_get (sample_token_options (JBool True)) ''useFormData'')" "wf_obj (sample_token_options (JBool True))"
    by (simp_all add: sample_token_options_def obj_get_def wf_obj_def)
  from token_body_form [OF f] show ?thesis
    by (simp add: obj_omit_def token_settings_def sample_token_options_def)
qed

theorem worker_response_no_token_witness:
  "\<exists>tokens h'. oauthToken sample_net (sample_token_options JUndef) True (sample_http 1) = (Inr tokens, h') \<and>
     obj_get tokens ''access_token'' = JStr ''at'' \<and> \<not> truthy (obj_get tokens ''refresh_token'')"
proof -
  let ?ob = "[(''access_token'', JStr ''at''), (''refresh_token'', JStr ''r2'')]"
  let ?rest = "[(''client_id'', JStr ''cid''), (''code'', JStr ''c d'')]"
  obtain hdr where hdr: "client_header JUndef = Inr hdr" using client_header_default by blast
  have o: "obj_get (sample_token_options JUndef) k = JUndef" if "k \<in> {''authokClient'', ''useFormData'', ''timeout''}" for k
    using that by (auto simp: sample_token_options_def obj_get_def)
  have "defined_props (obj_omit token_settings (sample_token_options JUndef)) = ?rest"
    by (simp add: defined_props_def obj_omit_def token_settings_def sample_token_options_def)
  then obtain tx where b: "stringify (JObj (obj_omit token_settings (sample_token_options JUndef))) = Some tx" "JSON_parse tx = Inr (JObj ?rest)"
    using parse_defined [of "obj_omit token_settings (sample_token_options JUndef)"] by auto
  then have b: "JSON_parse (token_body (sample_token_options JUndef)) = Inr (JObj ?rest)"
    by (simp add: token_body_def o del: stringify.simps)
  have p: "prepare_options msg h = (Inr (wm_fetchOptions msg), h)"
    if "fo_body (wm_fetchOptions msg) = token_body (sample_token_options JUndef)" "wm_useFormData msg = JUndef" for msg and h :: "nat http"
    using that b by (simp add: prepare_options_def bindE_def eff_run read_body_def obj_get_def)
  have n: "sample_net rq (outside (sample_http 1)) = (Response True (json_text (JObj ?ob)), 2)" for rq
    using sample_net_reply by (simp add: sample_http_def)
  have k: "keep_token msg (JObj ?ob) h = (Inr (JObj [(''access_token'', JStr ''at'')]), setRefreshToken (JStr ''r2'') (wm_audience msg) (wm_scope msg) h)"
    for msg and h :: "nat http"
    by (simp add: keep_token_cases obj_get_def obj_omit_def)
  have j: "JSON_parse (json_text (JObj ?ob)) = Inr (JObj ?ob)" by (rule JSON_parse_text) simp
  have m: "\<exists>h'. sendMessage sample_net msg (sample_http 1) = (Inr (fetch_result True (JObj [(''access_token'', JStr ''at'')])), h')"
    if "fo_body (wm_fetchOptions msg) = token_body (sample_token_options JUndef)" "wm_useFormData msg = JUndef" for msg
    by (simp add: sendMessage_def bindE_def messageHandler_cases [OF p [OF that]] Let_def n j k eff_run del: stringify.simps One_nat_def)
      (simp add: fetch_result_def obj_get_def eff_run)
  have "\<exists>h'. switchFetch sample_net url a sc \<lparr>fo_method = mt, fo_body = token_body (sample_token_options JUndef), fo_headers = hs\<rparr> True JUndef tmo
      (sample_http 1) = (Inr (fetch_result True (JObj [(''access_token'', JStr ''at'')])), h')" for url a sc mt hs tmo
    unfolding switchFetch_def Let_def fetchWithWorker_def if_True by (rule m) simp_all
  then have "\<exists>h'. getJSON sample_net url tmo a sc \<lparr>fo_method = mt, fo_body = token_body (sample_token_options JUndef), fo_headers = hs\<rparr> True JUndef
      (sample_http 1) = (read_response url (fetch_result True (JObj [(''access_token'', JStr ''at'')])), h')" for url a sc mt hs tmo
    by (meson getJSON_first)
  moreover have "read_response url (fetch_result True (JObj [(''access_token'', JStr ''at'')])) = Inr [(''access_token'', JStr ''at'')]" for url
    by (simp add: read_response_def fetch_result_def obj_get_def obj_omit_def)
  ultimately have "\<exists>h'. oauthToken sample_net (sample_token_options JUndef) True (sample_http 1) = (Inr [(''access_token'', JStr ''at'')], h')"
    by (simp add: oauthToken_def Let_def o hdr bindE_def eff_run)
  then obtain h' where "oauthToken sample_net (sample_token_options JUndef) True (sample_http 1) = (Inr [(''access_token'', JStr ''at'')], h')"
    by blast
  with worker_response_no_token [OF this] show ?thesis by (simp add: obj_get_def)
qed

end
