(* ===== verification/Browser.thy ===== *)
theory Browser
  imports Errors
begin

text \<open>
  The parts of \<open>utils.ts\<close> that wait for the browser: \<open>runIframe\<close> and \<open>runPopup\<close> as state machines
  over the messages and timers that reach them, \<open>openPopup\<close> and the checks of \<open>window.crypto\<close>.

  A machine keeps what the code registered (listener, timers, the element in the page) and how its
  promise settled: \<open>Inl\<close> rejected, \<open>Inr\<close> resolved. Only registered callbacks run. A message is its
  origin, its data and whether it has a source window.
\<close>

section \<open>runIframe\<close>

record iframe_state =
  if_listening :: bool
  if_attached :: bool
  if_timer :: bool
  if_cleanup :: bool
  if_source_closed :: nat
  if_result :: "(js_error + jsval) option"

definition iframe_start :: iframe_state where
  "iframe_start = \<lparr>if_listening = True, if_attached = True, if_timer = True, if_cleanup = False,
     if_source_closed = 0, if_result = None\<rparr>"

definition removeIframe :: "iframe_state \<Rightarrow> iframe_state" where
  "removeIframe s = (if if_attached s then s\<lparr>if_attached := False, if_listening := False\<rparr> else s)"

definition if_settle :: "js_error + jsval \<Rightarrow> iframe_state \<Rightarrow> iframe_state" where
  "if_settle r s = (if if_result s = None then s\<lparr>if_result := Some r\<rparr> else s)"

text \<open>\<open>!e.data || e.data.type !== 'authorization_response'\<close>.\<close>

definition is_authorization_response :: "jsval \<Rightarrow> bool" where
  "is_authorization_response data =
     (truthy data \<and> js_prop data ''type'' = Inr (JStr ''authorization_response''))"

text \<open>
  \<open>e.data.response.error ? rej(GenericError.fromPayload(e.data.response)) : res(e.data.response)\<close>.
  \<open>None\<close>: reading \<open>error\<close> of a missing response throws in the handler.
\<close>

definition response_result :: "jsval \<Rightarrow> (js_error + jsval) option" where
  "response_result data =
     (case js_prop data ''response'' of
        Inl e \<Rightarrow> None
      | Inr response \<Rightarrow>
          (case js_prop response ''error'' of
             Inl e \<Rightarrow> None
           | Inr err \<Rightarrow>
               Some (if truthy err
                     then Inl (case response of JObj p \<Rightarrow> fromPayload p | _ \<Rightarrow> TypeError)
                     else Inr response)))"

datatype iframe_event = Message string jsval bool | TimeoutFires | CleanupFires

fun iframe_react :: "string \<Rightarrow> iframe_event \<Rightarrow> iframe_state \<Rightarrow> iframe_state" where
  "iframe_react eventOrigin (Message origin data source) s =
     (if origin \<noteq> eventOrigin \<or> \<not> is_authorization_response data then s
      else
        (let s1 = (if source then s\<lparr>if_source_closed := Suc (if_source_closed s)\<rparr> else s)
         in case response_result data of
              None \<Rightarrow> s1
            | Some r \<Rightarrow> (if_settle r s1)\<lparr>if_timer := False, if_listening := False, if_cleanup := True\<rparr>))"
| "iframe_react eventOrigin TimeoutFires s =
     removeIframe ((if_settle (Inl TimeoutError) s)\<lparr>if_timer := False\<rparr>)"
| "iframe_react eventOrigin CleanupFires s = removeIframe (s\<lparr>if_cleanup := False\<rparr>)"

fun iframe_enabled :: "iframe_event \<Rightarrow> iframe_state \<Rightarrow> bool" where
  "iframe_enabled (Message origin data source) s = if_listening s"
| "iframe_enabled TimeoutFires s = if_timer s"
| "iframe_enabled CleanupFires s = if_cleanup s"

inductive iframe_trace :: "string \<Rightarrow> iframe_event list \<Rightarrow> iframe_state \<Rightarrow> bool"
  for eventOrigin :: string where
  start: "iframe_trace eventOrigin [] iframe_start"
| react: "iframe_trace eventOrigin es s \<Longrightarrow> iframe_enabled e s \<Longrightarrow>
    iframe_trace eventOrigin (es @ [e]) (iframe_react eventOrigin e s)"

text \<open>
  The outcome for the messages that arrive before the timeout, in order; when none of them settles
  the promise, the timeout does.
\<close>

fun iframe_messages :: "string \<Rightarrow> (string \<times> jsval \<times> bool) list \<Rightarrow> iframe_state \<Rightarrow> iframe_state" where
  "iframe_messages eventOrigin [] s = s"
| "iframe_messages eventOrigin ((origin, data, source) # ms) s =
     iframe_messages eventOrigin ms
       (if if_listening s then iframe_react eventOrigin (Message origin data source) s else s)"

definition runIframe :: "string \<Rightarrow> (string \<times> jsval \<times> bool) list \<Rightarrow> js_error + jsval" where
  "runIframe eventOrigin ms =
     (let s = iframe_messages eventOrigin ms iframe_start;
          s' = (if if_timer s then iframe_react eventOrigin TimeoutFires s else s)
      in case if_result s' of None \<Rightarrow> Inl TimeoutError | Some r \<Rightarrow> r)"

section \<open>runPopup\<close>

record popup_state =
  pp_listening :: bool
  pp_interval :: bool
  pp_timer :: bool
  pp_closed :: bool
  pp_result :: "(js_error + jsval) option"

definition popup_start :: popup_state where
  "popup_start = \<lparr>pp_listening = True, pp_interval = True, pp_timer = True, pp_closed = False, pp_result = None\<rparr>"

definition pp_settle :: "js_error + jsval \<Rightarrow> popup_state \<Rightarrow> popup_state" where
  "pp_settle r s = (if pp_result s = None then s\<lparr>pp_result := Some r\<rparr> else s)"

datatype popup_event = PopupMessage jsval | IntervalFires | PopupTimeoutFires | UserCloses

fun popup_react :: "nat \<Rightarrow> popup_event \<Rightarrow> popup_state \<Rightarrow> popup_state" where
  "popup_react popup (PopupMessage data) s =
     (if \<not> is_authorization_response data then s
      else
        (let s1 = s\<lparr>pp_timer := False, pp_interval := False, pp_listening := False, pp_closed := True\<rparr>
         in case response_result data of None \<Rightarrow> s1 | Some r \<Rightarrow> pp_settle r s1))"
| "popup_react popup IntervalFires s =
     (if pp_closed s
      then pp_settle (Inl (PopupCancelledError popup))
             (s\<lparr>pp_interval := False, pp_timer := False, pp_listening := False\<rparr>)
      else s)"
| "popup_react popup PopupTimeoutFires s =
     pp_settle (Inl (PopupTimeoutError popup)) (s\<lparr>pp_interval := False, pp_timer := False, pp_listening := False\<rparr>)"
| "popup_react popup UserCloses s = s\<lparr>pp_closed := True\<rparr>"

fun popup_enabled :: "popup_event \<Rightarrow> popup_state \<Rightarrow> bool" where
  "popup_enabled (PopupMessage data) s = pp_listening s"
| "popup_enabled IntervalFires s = pp_interval s"
| "popup_enabled PopupTimeoutFires s = pp_timer s"
| "popup_enabled UserCloses s = True"

inductive popup_trace :: "nat \<Rightarrow> popup_event list \<Rightarrow> popup_state \<Rightarrow> bool" for popup :: nat where
  start: "popup_trace popup [] popup_start"
| react: "popup_trace popup es s \<Longrightarrow> popup_enabled e s \<Longrightarrow>
    popup_trace popup (es @ [e]) (popup_react popup e s)"

text \<open>
  The outcome for the events that happen up to the timeout, which fires last unless it was cleared;
  \<open>None\<close>: the promise never settles.
\<close>

fun popup_events :: "nat \<Rightarrow> popup_event list \<Rightarrow> popup_state \<Rightarrow> popup_state" where
  "popup_events popup [] s = s"
| "popup_events popup (e # es) s =
     popup_events popup es (if popup_enabled e s then popup_react popup e s else s)"

definition runPopup :: "nat \<Rightarrow> popup_event list \<Rightarrow> (js_error + jsval) option" where
  "runPopup popup es = pp_result (popup_events popup (es @ [PopupTimeoutFires]) popup_start)"

section \<open>Windows and crypto\<close>

record window_box =
  screenX :: rat
  screenY :: rat
  innerWidth :: rat
  innerHeight :: rat

text \<open>The arguments of \<open>window.open\<close>.\<close>

definition openPopup :: "window_box \<Rightarrow> string \<Rightarrow> string \<times> string \<times> string" where
  "openPopup w url =
     (let left = screenX w + (innerWidth w - 400) / 2; top = screenY w + (innerHeight w - 600) / 2
      in (url, ''authok:authorize:popup'',
          ''left='' @ num_to_string left @ '',top='' @ num_to_string top @
          '',width=400,height=600,resizable,scrollbars=yes,status=1''))"

record crypto_object =
  cr_subtle :: bool
  cr_webkitSubtle :: bool

record crypto_window =
  w_crypto :: "crypto_object option"
  w_msCrypto :: "crypto_object option"

definition getCrypto :: "crypto_window \<Rightarrow> crypto_object option" where
  "getCrypto w = (case w_crypto w of Some c \<Rightarrow> Some c | None \<Rightarrow> w_msCrypto w)"

text \<open>Whether \<open>crypto.subtle || crypto.webkitSubtle\<close> is there; reading it of no crypto throws.\<close>

definition getCryptoSubtle :: "crypto_window \<Rightarrow> js_error + bool" where
  "getCryptoSubtle w =
     (case getCrypto w of None \<Rightarrow> Inl TypeError | Some c \<Rightarrow> Inr (cr_subtle c \<or> cr_webkitSubtle c))"

definition no_crypto_message :: string where
  "no_crypto_message = ''For security reasons, `window.crypto` is required to run `authok-spa-js`.''"

definition insecure_origin_message :: string where
  "insecure_origin_message =
     [CHR 0x0A] @ ''      authok-spa-js must run on a secure origin. See https://github.com/authok/authok-spa-js/blob/master/FAQ.md#why-do-i-get-authok-spa-js-must-run-on-a-secure-origin for more information.'' @
     [CHR 0x0A] @ ''    ''"

definition validateCrypto :: "crypto_window \<Rightarrow> js_error + unit" where
  "validateCrypto w =
     (if getCrypto w = None then Inl (Error no_crypto_message)
      else bindR (getCryptoSubtle w) (\<lambda>subtle.
        if \<not> subtle then Inl (Error insecure_origin_message) else Inr ()))"

text \<open>
  \<open>sha256\<close>: the digest itself is the browser's. \<open>promise\<close> is what the promise of \<open>subtle.digest\<close> comes to;
  on a window with \<open>msCrypto\<close> the operation object is used instead, and \<open>fired\<close> are the events that
  it fires, of which the first settles the promise. Text is UTF-8 already.
\<close>

datatype digest_event = OnComplete string | OnError js_error | OnAbort

definition digest_aborted :: js_error where
  "digest_aborted = Thrown ''The digest operation was aborted''"

fun digest_settles :: "digest_event list \<Rightarrow> js_error + string" where
  "digest_settles [] = Inl NeverSettles"
| "digest_settles (OnComplete result # es) = Inr result"
| "digest_settles (OnError e # es) = Inl e"
| "digest_settles (OnAbort # es) = Inl digest_aborted"

definition sha256 ::
  "crypto_window \<Rightarrow> (string \<Rightarrow> js_error + string) \<Rightarrow> (string \<Rightarrow> digest_event list) \<Rightarrow> string \<Rightarrow> js_error + string" where
  "sha256 w promise fired s =
     bindR (getCryptoSubtle w) (\<lambda>subtle.
       if \<not> subtle then Inl TypeError
       else if w_msCrypto w \<noteq> None then digest_settles (fired s)
       else promise s)"

text \<open>\<open>/Trident.*rv:11\.0/.test(userAgent)\<close>: the dot stops at the end of the line.\<close>

fun isIE11 :: "string \<Rightarrow> bool" where
  "isIE11 [] = False"
| "isIE11 (c # cs) =
     (js_startsWith (c # cs) ''Trident'' \<and>
        js_includes (takeWhile (\<lambda>x. x \<noteq> CHR 0x0A \<and> x \<noteq> CHR 0x0D) (drop 7 (c # cs))) ''rv:11.0'' \<or>
      isIE11 cs)"

section \<open>Lemmas: the iframe\<close>

text \<open>
  While the promise is pending everything is in place; once it has settled neither listener nor timer
  is left, and the element stays in the page only as long as its removal is scheduled.
\<close>

definition iframe_inv :: "iframe_state \<Rightarrow> bool" where
  "iframe_inv s =
     (if if_result s = None then if_listening s \<and> if_attached s \<and> if_timer s \<and> \<not> if_cleanup s
      else \<not> if_listening s \<and> \<not> if_timer s \<and> if_attached s = if_cleanup s)"

lemmas iframe_defs = iframe_inv_def if_settle_def removeIframe_def Let_def

lemma iframe_inv_react:
  assumes "iframe_inv s" and "iframe_enabled e s"
  shows "iframe_inv (iframe_react ev e s)"
proof (cases e)
  case (Message orig data source)
  with assms show ?thesis by (auto simp: iframe_defs split: option.split if_splits)
qed (use assms in \<open>auto simp: iframe_defs split: if_splits\<close>)

lemma iframe_inv_trace: "iframe_trace ev es s \<Longrightarrow> iframe_inv s"
proof (induction rule: iframe_trace.induct)
  case start
  then show ?case by (simp add: iframe_inv_def iframe_start_def)
next
  case (react es s e)
  then show ?case by (simp add: iframe_inv_react)
qed

lemma iframe_result_stable: "if_result s = Some r \<Longrightarrow> if_result (iframe_react ev e s) = Some r"
  by (cases e) (auto simp: if_settle_def removeIframe_def Let_def split: option.split)

lemma iframe_result_origin:
  assumes "if_result s = None" and "if_result (iframe_react ev e s) = Some (Inr v)"
  shows "\<exists>data source. e = Message ev data source \<and> is_authorization_response data \<and>
    response_result data = Some (Inr v)"
  using assms by (cases e) (auto simp: if_settle_def removeIframe_def Let_def split: option.splits if_splits)

definition iframe_accepts :: "string \<Rightarrow> string \<times> jsval \<times> bool \<Rightarrow> bool" where
  "iframe_accepts ev m =
     (case m of (orig, data, source) \<Rightarrow>
        orig = ev \<and> is_authorization_response data \<and> response_result data \<noteq> None)"

lemma iframe_messages_settled: "\<not> if_listening s \<Longrightarrow> iframe_messages ev ms s = s"
  by (induction ms) auto

lemma iframe_messages_result:
  assumes "if_listening s" "if_timer s" "if_result s = None" "if_attached s"
  shows "(case List.find (iframe_accepts ev) ms of
      None \<Rightarrow> if_timer (iframe_messages ev ms s) \<and> if_result (iframe_messages ev ms s) = None
    | Some (orig, data, source) \<Rightarrow>
        \<not> if_timer (iframe_messages ev ms s) \<and> if_result (iframe_messages ev ms s) = response_result data)"
  using assms
proof (induction ms arbitrary: s)
  case Nil
  then show ?case by simp
next
  case (Cons m ms)
  obtain orig data source where m: "m = (orig, data, source)" by (cases m)
  let ?s = "iframe_react ev (Message orig data source) s"
  show ?case
  proof (cases "iframe_accepts ev m")
    case True
    then obtain r where "response_result data = Some r" by (auto simp: iframe_accepts_def m)
    then have "\<not> if_listening ?s \<and> \<not> if_timer ?s \<and> if_result ?s = response_result data"
      using True Cons.prems by (auto simp: iframe_accepts_def m if_settle_def Let_def)
    with True Cons.prems show ?thesis by (simp add: m iframe_messages_settled)
  next
    case False
    then have "if_listening ?s \<and> if_timer ?s \<and> if_result ?s = None \<and> if_attached ?s"
      using Cons.prems by (auto simp: iframe_accepts_def m Let_def split: option.split)
    then have "(case List.find (iframe_accepts ev) ms of
      None \<Rightarrow> if_timer (iframe_messages ev ms ?s) \<and> if_result (iframe_messages ev ms ?s) = None
    | Some (orig, data, source) \<Rightarrow>
        \<not> if_timer (iframe_messages ev ms ?s) \<and> if_result (iframe_messages ev ms ?s) = response_result data)"
      using Cons.IH by blast
    moreover have "iframe_messages ev (m # ms) s = iframe_messages ev ms ?s"
      "List.find (iframe_accepts ev) (m # ms) = List.find (iframe_accepts ev) ms"
      using Cons.prems(1) False by (simp_all add: m del: iframe_react.simps)
    ultimately show ?thesis by (simp only:)
  qed
qed

section \<open>Lemmas: the popup\<close>

definition popup_inv :: "popup_state \<Rightarrow> bool" where
  "popup_inv s =
     (pp_interval s = pp_listening s \<and> pp_timer s = pp_listening s \<and> (pp_result s \<noteq> None \<longrightarrow> \<not> pp_listening s))"

lemma popup_inv_react: "popup_inv s \<Longrightarrow> popup_enabled e s \<Longrightarrow> popup_inv (popup_react w e s)"
  by (cases e) (auto simp: popup_inv_def pp_settle_def Let_def split: option.split)

lemma popup_inv_trace: "popup_trace w es s \<Longrightarrow> popup_inv s"
proof (induction rule: popup_trace.induct)
  case start
  then show ?case by (simp add: popup_inv_def popup_start_def)
next
  case (react es s e)
  then show ?case by (simp add: popup_inv_react)
qed

lemma popup_events_result: "pp_result s = Some r \<Longrightarrow> pp_result (popup_events w es s) = Some r"
proof (induction es arbitrary: s)
  case (Cons e es)
  have "pp_result (popup_react w e s) = Some r"
    using Cons.prems by (cases e) (auto simp: pp_settle_def Let_def split: option.split)
  with Cons show ?case by simp
qed simp

text \<open>Messages of the expected type carry a response.\<close>

fun well_formed :: "popup_event \<Rightarrow> bool" where
  "well_formed (PopupMessage data) = (\<not> is_authorization_response data \<or> response_result data \<noteq> None)"
| "well_formed e = True"

lemma popup_events_settle:
  assumes "popup_inv s" "pp_result s \<noteq> None \<or> pp_listening s" "list_all well_formed es"
  shows "pp_result (popup_events w (es @ [PopupTimeoutFires]) s) \<noteq> None"
  using assms
proof (induction es arbitrary: s)
  case Nil
  then show ?case by (auto simp: popup_inv_def pp_settle_def)
next
  case (Cons e es)
  show ?case
  proof (cases "popup_enabled e s")
    case True
    have "pp_result (popup_react w e s) \<noteq> None \<or> pp_listening (popup_react w e s)"
      using Cons.prems True by (cases e) (auto simp: popup_inv_def pp_settle_def Let_def split: option.split)
    with Cons True show ?thesis by (simp add: popup_inv_react del: popup_react.simps)
  next
    case False
    with Cons show ?thesis by simp
  qed
qed

section \<open>Properties of the iframe and the popup\<close>

text \<open>
  C12: the iframe flow resolves only with a response that arrived in an authorization message from the
  expected origin.
\<close>

theorem iframe_only_from_origin:
  assumes "iframe_trace ev es s" and "if_result s = Some (Inr v)"
  shows "\<exists>data source. Message ev data source \<in> set es \<and> is_authorization_response data \<and>
    response_result data = Some (Inr v)"
  using assms
proof (induction rule: iframe_trace.induct)
  case start
  then show ?case by (simp add: iframe_start_def)
next
  case (react es s e)
  show ?case
  proof (cases "if_result s")
    case None
    from iframe_result_origin [OF this react.prems] show ?thesis by auto
  next
    case (Some r)
    then have "r = Inr v" using iframe_result_stable [OF Some] react.prems by simp
    with react.IH Some show ?thesis by auto
  qed
qed

text \<open>
  In every state the iframe flow can reach, a pending promise still has its listener and its
  timeout, and a settled one has neither, keeps its outcome whatever happens, and leaves the element
  in the page only until the scheduled removal.
\<close>

theorem iframe_settles_cleanly:
  assumes "iframe_trace ev es s"
  shows "if if_result s = None then if_listening s \<and> if_timer s \<and> if_attached s
    else \<not> if_listening s \<and> \<not> if_timer s \<and> if_attached s = if_cleanup s \<and>
      (\<forall>e. if_result (iframe_react ev e s) = if_result s)"
  using iframe_inv_trace [OF assms] iframe_result_stable [of s] by (auto simp: iframe_inv_def)

text \<open>
  C29: the outcome of the iframe flow is decided by the first authorization message of the expected
  origin that carries a response, and is a timeout when there is none.
\<close>

theorem runIframe_outcome:
  "runIframe ev ms =
     (case List.find (iframe_accepts ev) ms of
        None \<Rightarrow> Inl TimeoutError
      | Some (orig, data, source) \<Rightarrow> the (response_result data))"
proof -
  have r: "case List.find (iframe_accepts ev) ms of
      None \<Rightarrow> if_timer (iframe_messages ev ms iframe_start) \<and> if_result (iframe_messages ev ms iframe_start) = None
    | Some (orig, data, source) \<Rightarrow> \<not> if_timer (iframe_messages ev ms iframe_start) \<and>
        if_result (iframe_messages ev ms iframe_start) = response_result data"
    by (rule iframe_messages_result) (simp_all add: iframe_start_def)
  show ?thesis
  proof (cases "List.find (iframe_accepts ev) ms")
    case None
    with r show ?thesis by (simp add: runIframe_def Let_def if_settle_def removeIframe_def)
  next
    case (Some m)
    then have "iframe_accepts ev m" by (auto simp: find_Some_iff)
    with Some r show ?thesis by (auto simp: runIframe_def Let_def iframe_accepts_def split: prod.splits)
  qed
qed

text \<open>
  The popup flow settles, at the latest with its timeout, as long as every authorization message
  carries a response.
\<close>

theorem runPopup_settles:
  assumes "list_all well_formed es"
  shows "runPopup w es \<noteq> None"
  unfolding runPopup_def
  by (rule popup_events_settle [OF _ _ assms]) (simp_all add: popup_inv_def popup_start_def)

text \<open>
  C36: an authorization message without a response, which any window may send, makes the popup flow
  hang: the handler has cleared listener, interval and timeout when it throws, and nothing settles
  the promise any more.
\<close>

theorem runPopup_hangs:
  "runPopup w (PopupMessage (JObj [(''type'', JStr ''authorization_response'')]) # es) = None"
proof -
  let ?s = "popup_react w (PopupMessage (JObj [(''type'', JStr ''authorization_response'')])) popup_start"
  have s: "pp_result ?s = None" "\<not> pp_listening ?s" "\<not> pp_interval ?s" "\<not> pp_timer ?s"
    by (simp_all add: popup_start_def is_authorization_response_def response_result_def obj_get_def js_prop_def)
  have "pp_result (popup_events w es s) = None"
    if "pp_result s = None" "\<not> pp_listening s" "\<not> pp_interval s" "\<not> pp_timer s" for es s
    using that
  proof (induction es arbitrary: s)
    case (Cons e es)
    then show ?case by (cases e) auto
  qed simp
  from this [OF s, of "es @ [PopupTimeoutFires]"] show ?thesis
    by (simp add: runPopup_def popup_start_def del: popup_react.simps)
qed

definition ok_response :: jsval where
  "ok_response = JObj [(''type'', JStr ''authorization_response''), (''response'', JObj [(''code'', JStr ''c'')])]"

lemma ok_response_accepted:
  "is_authorization_response ok_response" "response_result ok_response = Some (Inr (JObj [(''code'', JStr ''c'')]))"
  by (simp_all add: is_authorization_response_def response_result_def ok_response_def obj_get_def)

definition sample_iframe :: iframe_state where
  "sample_iframe = iframe_react ''https://t.cn'' (Message ''https://t.cn'' ok_response True) iframe_start"

lemma sample_iframe_trace: "iframe_trace ''https://t.cn'' [Message ''https://t.cn'' ok_response True] sample_iframe"
  using iframe_trace.react [OF iframe_trace.start, of "Message ''https://t.cn'' ok_response True" "''https://t.cn''"]
  by (simp add: sample_iframe_def iframe_start_def del: iframe_react.simps)

lemma sample_iframe_result: "if_result sample_iframe = Some (Inr (JObj [(''code'', JStr ''c'')]))"
  by (simp add: sample_iframe_def iframe_start_def ok_response_accepted if_settle_def)

theorem iframe_only_from_origin_witness:
  "\<exists>data source. Message ''https://t.cn'' data source \<in> set [Message ''https://t.cn'' ok_response True] \<and>
     is_authorization_response data \<and> response_result data = Some (Inr (JObj [(''code'', JStr ''c'')]))"
  using iframe_only_from_origin [OF sample_iframe_trace sample_iframe_result] .

theorem iframe_settles_cleanly_witness:
  "\<not> if_listening sample_iframe \<and> \<not> if_timer sample_iframe"
  using iframe_settles_cleanly [OF sample_iframe_trace] by (simp add: sample_iframe_result)

theorem runPopup_settles_witness: "runPopup 0 [PopupMessage JNull, UserCloses] \<noteq> None"
  using runPopup_settles [of "[PopupMessage JNull, UserCloses]" 0] by (simp add: is_authorization_response_def)

end
