(* ===== verification/Promises.thy ===== *)
theory Promises
  imports Prelude
begin

text \<open>
  \<open>promise-utils.ts\<close>: \<open>retryPromise\<close> as a loop over an effect, and \<open>singlePromise\<close> as a state
  machine over the module's map of promises in flight. Promises are numbered in the order they
  are created; the callback of a promise runs until the step in which it settles.
\<close>

section \<open>retryPromise\<close>

fun retryPromise :: "('s, 'e, bool) eff \<Rightarrow> nat \<Rightarrow> ('s, 'e, bool) eff" where
  "retryPromise cb 0 = ret False"
| "retryPromise cb (Suc n) = bindE (cb) (\<lambda>b. if b then ret True else retryPromise cb n)"

section \<open>singlePromise\<close>

record single_state =
  singlePromiseMap :: "(string \<times> nat) list"
  next_promise :: nat
  running :: "(nat \<times> string) list"

definition single_init :: single_state where
  "single_init = \<lparr>singlePromiseMap = [], next_promise = 0, running = []\<rparr>"

text \<open>A call: the promise handed to the caller, and whether the callback was started for it.\<close>

definition singlePromise :: "string \<Rightarrow> single_state \<Rightarrow> nat \<times> single_state" where
  "singlePromise key s =
     (case map_of (singlePromiseMap s) key of
        Some p \<Rightarrow> (p, s)
      | None \<Rightarrow>
          (next_promise s,
           s\<lparr>singlePromiseMap := AList.update key (next_promise s) (singlePromiseMap s),
             next_promise := Suc (next_promise s), running := (next_promise s, key) # running s\<rparr>))"

text \<open>The \<open>finally\<close> handler of a promise that was created for \<open>key\<close>.\<close>

definition settle :: "nat \<Rightarrow> string \<Rightarrow> single_state \<Rightarrow> single_state" where
  "settle p key s =
     s\<lparr>singlePromiseMap := AList.delete key (singlePromiseMap s),
       running := removeAll (p, key) (running s)\<rparr>"

datatype single_event = Call string nat | Settles nat string

inductive single_step :: "single_state \<Rightarrow> single_event \<Rightarrow> single_state \<Rightarrow> bool" where
  call: "singlePromise key s = (p, s') \<Longrightarrow> single_step s (Call key p) s'"
| settles: "(p, key) \<in> set (running s) \<Longrightarrow> single_step s (Settles p key) (settle p key s)"

inductive single_reach :: "single_event list \<Rightarrow> single_state \<Rightarrow> bool" where
  init: "single_reach [] single_init"
| step: "single_reach es s \<Longrightarrow> single_step s e s' \<Longrightarrow> single_reach (es @ [e]) s'"

inductive_cases single_callE: "single_step s (Call key p) s'"
inductive_cases single_settlesE: "single_step s (Settles p key) s'"

section \<open>Lemmas\<close>

text \<open>The map holds exactly the promises that run, one for each key.\<close>

definition single_inv :: "single_state \<Rightarrow> bool" where
  "single_inv s =
     ((\<forall>p key. (p, key) \<in> set (running s) \<longleftrightarrow> map_of (singlePromiseMap s) key = Some p) \<and>
      (\<forall>(p, key) \<in> set (running s). p < next_promise s))"

lemma single_inv_step: "single_step s e s' \<Longrightarrow> single_inv s \<Longrightarrow> single_inv s'"
proof (induction rule: single_step.induct)
  case (call key s p s')
  show ?case
  proof (cases "map_of (singlePromiseMap s) key")
    case None
    with call.hyps have s': "s' = s\<lparr>singlePromiseMap := AList.update key (next_promise s) (singlePromiseMap s),
        next_promise := Suc (next_promise s), running := (next_promise s, key) # running s\<rparr>"
      by (auto simp: singlePromise_def)
    have "(q, k) \<in> set (running s') \<longleftrightarrow> map_of (singlePromiseMap s') k = Some q" for q k
      using call.prems None by (auto simp: s' single_inv_def AList.update_conv')
    moreover have "\<forall>(p, key) \<in> set (running s'). p < next_promise s'"
      using call.prems by (auto simp: s' single_inv_def less_SucI)
    ultimately show ?thesis by (simp add: single_inv_def)
  next
    case (Some q)
    with call show ?thesis by (simp add: singlePromise_def)
  qed
next
  case (settles p key s)
  have "(q, k) \<in> set (running (settle p key s)) \<longleftrightarrow> map_of (singlePromiseMap (settle p key s)) k = Some q" for q k
    using settles by (auto simp: settle_def single_inv_def AList.delete_conv')
  then show ?case using settles.prems by (auto simp: settle_def single_inv_def)
qed

lemma single_reach_inv: "single_reach es s \<Longrightarrow> single_inv s"
proof (induction rule: single_reach.induct)
  case init
  then show ?case by (simp add: single_inv_def single_init_def)
next
  case (step es s e s')
  then show ?case using single_inv_step by blast
qed

text \<open>\<open>k\<close> runs in a row that all give \<open>False\<close>.\<close>

fun refusals :: "('s, 'e, bool) eff \<Rightarrow> nat \<Rightarrow> 's \<Rightarrow> 's option" where
  "refusals cb 0 s = Some s"
| "refusals cb (Suc k) s = (case cb s of (Inr False, s') \<Rightarrow> refusals cb k s' | _ \<Rightarrow> None)"

lemma retryPromise_outcome:
  "refusals cb k s = Some s1 \<Longrightarrow> k < n \<Longrightarrow> cb s1 = (Inr True, s2) \<Longrightarrow> retryPromise cb n s = (Inr True, s2)"
proof (induction k arbitrary: n s)
  case 0
  then show ?case by (cases n) (auto simp: bindE_def ret_def)
next
  case (Suc k)
  then obtain n' where n: "n = Suc n'" by (cases n) auto
  from Suc show ?case
    unfolding n by (auto simp: bindE_def split: prod.splits sum.splits bool.splits if_splits)
qed

lemma retryPromise_refused: "refusals cb n s = Some s1 \<Longrightarrow> retryPromise cb n s = (Inr False, s1)"
  by (induction n arbitrary: s) (auto simp: bindE_def ret_def split: prod.splits sum.splits bool.splits if_splits)

section \<open>Properties\<close>

text \<open>
  At every moment there is at most one unfinished promise for a key, and it is the one the map
  hands out: a call while the work for a key is under way gets that very promise and starts nothing.
\<close>

theorem singlePromise_shared:
  assumes "single_reach es s" and "(p, key) \<in> set (running s)"
  shows "singlePromise key s = (p, s) \<and> (\<forall>q. (q, key) \<in> set (running s) \<longrightarrow> q = p)"
  using single_reach_inv [OF assms(1)] assms(2) by (auto simp: single_inv_def singlePromise_def)

text \<open>
  Once the promise of a key has settled, the next call for the key starts a new one.
\<close>

theorem singlePromise_fresh:
  assumes "single_reach es s" and "(p, key) \<in> set (running s)"
  shows "\<exists>s'. singlePromise key (settle p key s) = (next_promise s, s') \<and> p \<noteq> next_promise s \<and>
    (next_promise s, key) \<in> set (running s')"
  using single_reach_inv [OF assms(1)] assms(2)
  by (auto simp: single_inv_def singlePromise_def settle_def AList.delete_conv')

definition sample_single :: single_state where
  "sample_single = \<lparr>singlePromiseMap = [(''k'', 0)], next_promise = 1, running = [(0, ''k'')]\<rparr>"

lemma sample_single_reach: "single_reach [Call ''k'' 0] sample_single"
  using single_reach.step [OF single_reach.init, of "Call ''k'' 0" sample_single]
  by (simp add: single_step.simps singlePromise_def single_init_def sample_single_def)

theorem singlePromise_shared_witness:
  "(0, ''k'') \<in> set (running sample_single) \<and> singlePromise ''k'' sample_single = (0, sample_single)"
  using singlePromise_shared [OF sample_single_reach, of 0 "''k''"] by (simp add: sample_single_def)

theorem singlePromise_fresh_witness:
  "\<exists>s'. singlePromise ''k'' (settle 0 ''k'' sample_single) = (1, s') \<and> (1, ''k'') \<in> set (running s')"
  using singlePromise_fresh [OF sample_single_reach, of 0 "''k''"] by (simp add: sample_single_def)

text \<open>
  \<open>retryPromise\<close> always ends, in one of three ways: all of the allowed attempts were refused and it
  answers false; or the first attempt that was not refused succeeded, and it answers true at once; or
  that attempt failed, and its error is passed on. No attempt follows.
\<close>

theorem retryPromise_outcomes:
  "(\<exists>s1. refusals cb n s = Some s1 \<and> retryPromise cb n s = (Inr False, s1)) \<or>
   (\<exists>k s1 s2. k < n \<and> refusals cb k s = Some s1 \<and> cb s1 = (Inr True, s2) \<and> retryPromise cb n s = (Inr True, s2)) \<or>
   (\<exists>k s1 s2 e. k < n \<and> refusals cb k s = Some s1 \<and> cb s1 = (Inl e, s2) \<and> retryPromise cb n s = (Inl e, s2))"
proof (induction n arbitrary: s)
  case 0
  then show ?case by (simp add: ret_def)
next
  case (Suc n)
  show ?case
  proof (cases "cb s")
    case (Pair r s0)
    show ?thesis
    proof (cases "r = Inr False")
      case True
      then have r: "retryPromise cb (Suc n) s = retryPromise cb n s0" "refusals cb (Suc k) s = refusals cb k s0" for k
        using Pair by (simp_all add: bindE_def)
      from Suc.IH [of s0] show ?thesis unfolding r by (metis Suc_less_eq r(2))
    next
      case False
      then have "retryPromise cb (Suc n) s = (r, s0)"
        using Pair by (cases r) (auto simp: bindE_def ret_def)
      then show ?thesis using Pair False by (cases r) (force intro: exI [of _ 0])+
    qed
  qed
qed

lemma ensures_retry: "ensures I m (\<lambda>_. True) \<Longrightarrow> ensures I (retryPromise m n) (\<lambda>_. True)"
  by (induction n) (auto intro!: ensures_if ensures_basic ensures_bind [where P = "\<lambda>_. True"])

end
