(* ===== verification/Client.thy ===== *)
theory Client
  imports Cache_Manager Jwt Storage Http Browser Promises
begin

text \<open>
  \<open>AuthokClient.ts\<close> and \<open>createAuthokClient\<close> of \<open>index.ts\<close>: the client in terms of the components
  it uses. Options are JavaScript objects; the client's fields are the record \<open>client\<close>; everything a
  method changes is the record \<open>world\<close>: the token cache, cookies and session storage, the transaction
  in memory, the network with the worker's memory, and the pages the window was sent to.

  What the code cannot decide is the parameter \<open>env\<close>: random bytes, the digest, the clock, the
  network, the cookie library, the messages an iframe or popup receives, the lock of
  \<open>browser-tabs-lock\<close>, the properties of \<open>window\<close>. Its functions act on the state \<open>'w\<close> of the outside
  world. A method is one effect, run from its start to its end; calls of \<open>getTokenSilently\<close> that overlap
  are merged by \<open>singlePromise\<close>, and those that are not merged are interleaved: \<open>Silent_Calls\<close> and
  \<open>Shared_Calls\<close> are about them. The clearing that \<open>logout\<close> starts for a custom cache
  is run to its end where it is started.
\<close>

section \<open>Client and world\<close>

record ('c, 'w) env =
  e_net :: "'w network"
  e_cookies :: "'c cookie_lib"
  e_random :: "'w \<Rightarrow> 8 word list \<times> 'w"
  e_digest :: "string \<Rightarrow> js_error + string"
  e_digestEvents :: "string \<Rightarrow> digest_event list"
  e_now :: "'w \<Rightarrow> rat"
  e_Date_now :: "'w \<Rightarrow> rat"
  e_showDate :: "date \<Rightarrow> string"
  e_iframe :: "string \<Rightarrow> jsval \<Rightarrow> 'w \<Rightarrow> (string \<times> jsval \<times> bool) list \<times> 'w"
  e_open :: "string \<times> string \<times> string \<Rightarrow> 'w \<Rightarrow> nat option \<times> 'w"
  e_popup :: "nat \<Rightarrow> string \<Rightarrow> jsval \<Rightarrow> 'w \<Rightarrow> popup_event list \<times> 'w"
  e_acquireLock :: "'w \<Rightarrow> bool \<times> 'w"
  e_releaseLock :: "'w \<Rightarrow> 'w"
  e_origin :: string
  e_box :: window_box
  e_crossOriginIsolated :: bool
  e_crypto :: crypto_window
  e_Worker :: bool
  e_userAgent :: string

record ('x, 'c, 'w) world =
  store_of :: "'x store"
  site_of :: "'c site"
  http_of :: "'w http"
  transactions :: "'c transaction_manager"
  visited :: "(string \<times> string) list"

record ('x, 'c) client =
  cl_options :: obj
  cacheManager :: "'x cache_manager"
  domainUrl :: string
  tokenIssuer :: string
  defaultScope :: string
  cl_scope :: jsval
  cookieStorage :: "'c client_storage"
  sessionCheckExpiryDays :: jsval
  orgHintCookieName :: string
  isAuthenticatedCookieName :: string
  cacheLocation :: jsval
  worker :: bool
  customOptions :: obj

type_synonym ('x, 'c, 'w, 'a) act = "(('x, 'c, 'w) world, js_error, 'a) eff"

definition opt :: "('x, 'c) client \<Rightarrow> string \<Rightarrow> jsval" where
  "opt cl k = obj_get (cl_options cl) k"

text \<open>Running an operation of a component on its part of the world.\<close>

definition on_store :: "('x store, js_error, 'a) eff \<Rightarrow> ('x, 'c, 'w, 'a) act" where
  "on_store m = (\<lambda>s. case m (store_of s) of (r, t) \<Rightarrow> (r, s\<lparr>store_of := t\<rparr>))"

definition on_http :: "('w http, js_error, 'a) eff \<Rightarrow> ('x, 'c, 'w, 'a) act" where
  "on_http m = (\<lambda>s. case m (http_of s) of (r, h) \<Rightarrow> (r, s\<lparr>http_of := h\<rparr>))"

definition on_outside :: "('w \<Rightarrow> 'a \<times> 'w) \<Rightarrow> ('x, 'c, 'w, 'a) act" where
  "on_outside f =
     (\<lambda>s. case f (outside (http_of s)) of (a, w) \<Rightarrow> (Inr a, s\<lparr>http_of := (http_of s)\<lparr>outside := w\<rparr>\<rparr>))"

definition ask :: "('w \<Rightarrow> 'a) \<Rightarrow> ('x, 'c, 'w, 'a) act" where
  "ask f = getS (\<lambda>s. f (outside (http_of s)))"

definition cookie_read :: "('x, 'c) client \<Rightarrow> string \<Rightarrow> ('x, 'c, 'w, jsval) act" where
  "cookie_read cl k = (\<lambda>s. (cs_get (cookieStorage cl) k (site_of s), s))"

definition cookie_write :: "('x, 'c) client \<Rightarrow> string \<Rightarrow> jsval \<Rightarrow> ('x, 'c, 'w, unit) act" where
  "cookie_write cl k v =
     modS (\<lambda>s. s\<lparr>site_of := cs_save (cookieStorage cl) k v (sessionCheckExpiryDays cl) (site_of s)\<rparr>)"

definition cookie_drop :: "('x, 'c) client \<Rightarrow> string \<Rightarrow> ('x, 'c, 'w, unit) act" where
  "cookie_drop cl k = modS (\<lambda>s. s\<lparr>site_of := cs_remove (cookieStorage cl) k (site_of s)\<rparr>)"

definition cache_get :: "('c, 'w) env \<Rightarrow> ('x, 'c) client \<Rightarrow> cache_key \<Rightarrow> rat \<Rightarrow> ('x, 'c, 'w, jsval) act" where
  "cache_get E cl k adj = bindE (ask (e_now E)) (\<lambda>now. on_store (cm_get (cacheManager cl) k adj now))"

definition cache_set :: "('c, 'w) env \<Rightarrow> ('x, 'c) client \<Rightarrow> obj \<Rightarrow> ('x, 'c, 'w, unit) act" where
  "cache_set E cl entry = bindE (ask (e_now E)) (\<lambda>now. on_store (cm_set (cacheManager cl) entry now))"

definition token_request :: "('c, 'w) env \<Rightarrow> ('x, 'c) client \<Rightarrow> obj \<Rightarrow> ('x, 'c, 'w, obj) act" where
  "token_request E cl options = on_http (oauthToken (e_net E) options (worker cl))"

definition transaction_create :: "obj \<Rightarrow> ('x, 'c, 'w, unit) act" where
  "transaction_create tr =
     modS (\<lambda>s. case tm_create tr (transactions s) (site_of s) of (tm, st) \<Rightarrow> s\<lparr>transactions := tm, site_of := st\<rparr>)"

definition transaction_remove :: "('x, 'c, 'w, unit) act" where
  "transaction_remove =
     modS (\<lambda>s. case tm_remove (transactions s) (site_of s) of (tm, st) \<Rightarrow> s\<lparr>transactions := tm, site_of := st\<rparr>)"

definition visit :: "string \<Rightarrow> string \<Rightarrow> ('x, 'c, 'w, unit) act" where
  "visit how url = modS (\<lambda>s. s\<lparr>visited := visited s @ [(how, url)]\<rparr>)"

section \<open>Construction\<close>

definition buildOrganizationHintCookieName :: "jsval \<Rightarrow> string" where
  "buildOrganizationHintCookieName clientId = ''authok.'' @ to_string clientId @ ''.organization_hint''"

definition OLD_IS_AUTHENTICATED_COOKIE_NAME :: string where
  "OLD_IS_AUTHENTICATED_COOKIE_NAME = ''authok.is.authenticated''"

definition buildIsAuthenticatedCookieName :: "jsval \<Rightarrow> string" where
  "buildIsAuthenticatedCookieName clientId = ''authok.'' @ to_string clientId @ ''.is.authenticated''"

text \<open>The table of built-in caches; the names an object inherits from \<open>Object.prototype\<close> are not considered.\<close>

definition cacheFactory :: "jsval \<Rightarrow> 'x icache option" where
  "cacheFactory location =
     (if to_string location = ''memory'' then Some InMemoryCache
      else if to_string location = ''localstorage'' then Some LocalStorageCache else None)"

definition supportWebWorker :: "string \<Rightarrow> bool" where
  "supportWebWorker userAgent = (\<not> isIE11 userAgent)"

definition getTokenIssuer :: "jsval \<Rightarrow> string \<Rightarrow> js_error + string" where
  "getTokenIssuer issuer domain =
     (if truthy issuer
      then (case issuer of
              JStr i \<Rightarrow> Inr (if js_startsWith i ''https://'' then i else ''https://'' @ i @ ''/'')
            | _ \<Rightarrow> Inl TypeError)
      else Inr (domain @ ''/''))"

definition getDomain :: "jsval \<Rightarrow> string" where
  "getDomain domain =
     (let d = to_string domain
      in if js_startsWith d ''http://'' \<or> js_startsWith d ''https://'' then d else ''https://'' @ d)"

definition getCustomInitialOptions :: "obj \<Rightarrow> obj" where
  "getCustomInitialOptions options =
     obj_omit [''advancedOptions'', ''audience'', ''authokClient'', ''authorizeTimeoutInSeconds'',
       ''cacheLocation'', ''client_id'', ''domain'', ''issuer'', ''leeway'', ''max_age'', ''redirect_uri'',
       ''scope'', ''useRefreshTokens'', ''useCookiesForTransactions'', ''useFormData''] options"

text \<open>The cache of the options, or the built-in one for the location; \<open>own\<close> stands for \<open>options.cache\<close>.\<close>

definition choose_cache :: "'x icache \<Rightarrow> obj \<Rightarrow> js_error + (jsval \<times> 'x icache)" where
  "choose_cache own options =
     (if truthy (obj_get options ''cache'') then Inr (JUndef, own)
      else
        (let location = js_or (obj_get options ''cacheLocation'') (JStr CACHE_LOCATION_MEMORY)
         in case cacheFactory location of
              None \<Rightarrow> Inl (Error (''Invalid cache location \"'' @ to_string location @ ''\"''))
            | Some cache \<Rightarrow> Inr (location, cache)))"

definition default_scope :: "obj \<Rightarrow> string" where
  "default_scope options =
     (let d = (case obj_get options ''advancedOptions'' of
                 JObj adv \<Rightarrow> obj_get adv ''defaultScope'' | _ \<Rightarrow> JUndef)
      in getUniqueScopes [JStr ''openid'', if d \<noteq> JUndef then d else JStr DEFAULT_SCOPE])"

definition new_AuthokClient ::
  "('c, 'w) env \<Rightarrow> 'x icache \<Rightarrow> obj \<Rightarrow> 'c site \<Rightarrow> js_error + ('x, 'c) client \<times> 'c transaction_manager" where
  "new_AuthokClient E own options st =
     bindR (validateCrypto (e_crypto E)) (\<lambda>_.
     bindR (choose_cache own options) (\<lambda>(location, cache).
       (let client_id = obj_get options ''client_id'';
            cookies = (if obj_get options ''legacySameSiteCookie'' = JBool False
                       then CookieStorage (e_cookies E) else CookieStorageWithLegacySameSite (e_cookies E));
            transactionStorage = (if truthy (obj_get options ''useCookiesForTransactions'')
                                  then cookies else SessionStorage);
            domain = getDomain (obj_get options ''domain'');
            useRefreshTokens = truthy (obj_get options ''useRefreshTokens'')
        in bindR (new_TransactionManager transactionStorage (to_string client_id) st) (\<lambda>tm.
           bindR (getTokenIssuer (obj_get options ''issuer'') domain) (\<lambda>issuer.
             Inr (\<lparr>cl_options = options,
                   cacheManager = \<lparr>cm_cache = cache,
                     cm_manifest = (if ic_allKeys cache = None then Some (to_string client_id) else None)\<rparr>,
                   domainUrl = domain, tokenIssuer = issuer, defaultScope = default_scope options,
                   cl_scope = (if useRefreshTokens
                               then JStr (getUniqueScopes [obj_get options ''scope'', JStr ''offline_access''])
                               else obj_get options ''scope''),
                   cookieStorage = cookies,
                   sessionCheckExpiryDays = js_or (obj_get options ''sessionCheckExpiryDays'')
                     (JNum DEFAULT_SESSION_CHECK_EXPIRY_DAYS),
                   orgHintCookieName = buildOrganizationHintCookieName client_id,
                   isAuthenticatedCookieName = buildIsAuthenticatedCookieName client_id,
                   cacheLocation = location,
                   worker = (e_Worker E \<and> useRefreshTokens \<and> location = JStr CACHE_LOCATION_MEMORY \<and> supportWebWorker (e_userAgent E)),
                   customOptions = getCustomInitialOptions options\<rparr>, tm))))))"

section \<open>Helpers of the client\<close>

definition url_for :: "('x, 'c) client \<Rightarrow> string \<Rightarrow> js_error + string" where
  "url_for cl path =
     bindR (client_header (opt cl ''authokClient'')) (\<lambda>hdr.
       Inr (domainUrl cl @ path @ ''&authokClient='' @ encodeURIComponent hdr))"

definition client_only_options :: "string list" where
  "client_only_options =
     [''useRefreshTokens'', ''useCookiesForTransactions'', ''useFormData'', ''authokClient'', ''cacheLocation'',
      ''advancedOptions'', ''detailedResponse'', ''nowProvider'', ''authorizeTimeoutInSeconds'',
      ''legacySameSiteCookie'', ''sessionCheckExpiryDays'', ''domain'', ''leeway'']"

definition getParams :: "('x, 'c) client \<Rightarrow> obj \<Rightarrow> string \<Rightarrow> string \<Rightarrow> string \<Rightarrow> jsval \<Rightarrow> obj" where
  "getParams cl authorizeOptions state nonce code_challenge redirect_uri =
     obj_spread
       (obj_spread (obj_omit client_only_options (cl_options cl)) authorizeOptions)
       [(''scope'', JStr (getUniqueScopes [JStr (defaultScope cl), cl_scope cl, obj_get authorizeOptions ''scope''])),
        (''response_type'', JStr ''code''), (''response_mode'', JStr ''query''), (''state'', JStr state),
        (''nonce'', JStr nonce), (''redirect_uri'', js_or redirect_uri (opt cl ''redirect_uri'')),
        (''code_challenge'', JStr code_challenge), (''code_challenge_method'', JStr ''S256'')]"

definition authorizeUrl :: "('x, 'c) client \<Rightarrow> obj \<Rightarrow> js_error + string" where
  "authorizeUrl cl params = url_for cl (''/authorize?'' @ createQueryParams params)"

definition parseNumber :: "jsval \<Rightarrow> jsval" where
  "parseNumber value = (case value of JStr s \<Rightarrow> js_or (parse_int10 s) JUndef | _ \<Rightarrow> value)"

definition verifyIdToken ::
  "('c, 'w) env \<Rightarrow> ('x, 'c) client \<Rightarrow> jsval \<Rightarrow> jsval \<Rightarrow> jsval \<Rightarrow> ('x, 'c, 'w, decoded) act" where
  "verifyIdToken E cl id_token nonce organizationId =
     bindE (ask (e_now E)) (\<lambda>now.
     bindE (ask (e_Date_now E)) (\<lambda>Date_now.
       liftR (verify (e_showDate E) Date_now
         \<lparr>jo_iss = JStr (tokenIssuer cl), jo_aud = opt cl ''client_id'', jo_id_token = id_token, jo_nonce = nonce,
          jo_leeway = opt cl ''leeway'', jo_max_age = parseNumber (opt cl ''max_age''),
          jo_organizationId = organizationId, jo_now = JNum now\<rparr>)))"

definition processOrgIdHint :: "('x, 'c) client \<Rightarrow> jsval \<Rightarrow> ('x, 'c, 'w, unit) act" where
  "processOrgIdHint cl organizationId =
     (if truthy organizationId then cookie_write cl (orgHintCookieName cl) organizationId
      else cookie_drop cl (orgHintCookieName cl))"

text \<open>The secrets of one authorization: state, nonce, code verifier and the challenge made of it.\<close>

record secrets =
  stateIn :: string
  nonceIn :: string
  code_verifier :: string
  code_challenge :: string

definition random_string :: "('c, 'w) env \<Rightarrow> ('x, 'c, 'w, string) act" where
  "random_string E = bindE (on_outside (e_random E)) (\<lambda>bs. ret (createRandomString bs))"

definition sha256_of :: "('c, 'w) env \<Rightarrow> string \<Rightarrow> js_error + string" where
  "sha256_of E = sha256 (e_crypto E) (e_digest E) (e_digestEvents E)"

definition make_secrets :: "('c, 'w) env \<Rightarrow> ('x, 'c, 'w, secrets) act" where
  "make_secrets E =
     bindE (random_string E) (\<lambda>r1. bindE (liftR (btoa r1)) (\<lambda>st.
     bindE (random_string E) (\<lambda>r2. bindE (liftR (btoa r2)) (\<lambda>nc.
     bindE (random_string E) (\<lambda>ver.
     bindE (liftR (sha256_of E ver)) (\<lambda>digest.
       ret \<lparr>stateIn = st, nonceIn = nc, code_verifier = ver,
            code_challenge = bufferToBase64UrlEncoded digest\<rparr>))))))"

section \<open>Logging in by redirect\<close>

definition buildAuthorizeUrl :: "('c, 'w) env \<Rightarrow> ('x, 'c) client \<Rightarrow> obj \<Rightarrow> ('x, 'c, 'w, string) act" where
  "buildAuthorizeUrl E cl options =
     (let authorizeOptions = obj_omit [''redirect_uri'', ''appState''] options
      in bindE (make_secrets E) (\<lambda>sec.
           (let fragment = (if truthy (obj_get options ''fragment'')
                            then ''#'' @ to_string (obj_get options ''fragment'') else []);
                params = getParams cl authorizeOptions (stateIn sec) (nonceIn sec) (code_challenge sec)
                           (obj_get options ''redirect_uri'');
                organizationId = js_or (obj_get options ''organization'') (opt cl ''organization'')
            in bindE (liftR (authorizeUrl cl params)) (\<lambda>url.
               bindE (transaction_create
                 ([(''nonce'', JStr (nonceIn sec)), (''code_verifier'', JStr (code_verifier sec)),
                   (''appState'', obj_get options ''appState''), (''scope'', obj_get params ''scope''),
                   (''audience'', js_or (obj_get params ''audience'') (JStr ''default'')),
                   (''redirect_uri'', obj_get params ''redirect_uri''), (''state'', JStr (stateIn sec))] @
                  (if truthy organizationId then [(''organizationId'', organizationId)] else []))) (\<lambda>_.
                 ret (url @ fragment))))))"

definition loginWithRedirect :: "('c, 'w) env \<Rightarrow> ('x, 'c) client \<Rightarrow> obj \<Rightarrow> ('x, 'c, 'w, unit) act" where
  "loginWithRedirect E cl options =
     bindE (buildAuthorizeUrl E cl (obj_omit [''redirectMethod''] options)) (\<lambda>url.
       visit (to_string (js_or (obj_get options ''redirectMethod'') (JStr ''assign''))) url)"

text \<open>What a login leaves behind: the cached tokens, the session cookie, the organization hint.\<close>

definition finish_login ::
  "('c, 'w) env \<Rightarrow> ('x, 'c) client \<Rightarrow> obj \<Rightarrow> decoded \<Rightarrow> ('x, 'c, 'w, unit) act" where
  "finish_login E cl entry d =
     bindE (cache_set E cl entry) (\<lambda>_.
     bindE (cookie_write cl (isAuthenticatedCookieName cl) (JBool True)) (\<lambda>_.
       processOrgIdHint cl (claim d ''org_id'')))"

definition redirect_request :: "('x, 'c) client \<Rightarrow> obj \<Rightarrow> obj \<Rightarrow> obj" where
  "redirect_request cl transaction q =
     [(''audience'', obj_get transaction ''audience''), (''scope'', obj_get transaction ''scope''),
      (''baseUrl'', JStr (domainUrl cl)), (''client_id'', opt cl ''client_id''),
      (''code_verifier'', obj_get transaction ''code_verifier''), (''grant_type'', JStr ''authorization_code''),
      (''code'', obj_get q ''code''), (''authokClient'', opt cl ''authokClient''),
      (''useFormData'', opt cl ''useFormData'')] @
     (if obj_get transaction ''redirect_uri'' \<noteq> JUndef
      then [(''redirect_uri'', obj_get transaction ''redirect_uri'')] else [])"

definition redirect_entry :: "('x, 'c) client \<Rightarrow> obj \<Rightarrow> obj \<Rightarrow> decoded \<Rightarrow> obj" where
  "redirect_entry cl transaction authResult d =
     obj_spread authResult
       ([(''decodedToken'', decoded_obj d), (''audience'', obj_get transaction ''audience''),
         (''scope'', obj_get transaction ''scope'')] @
        (if truthy (obj_get authResult ''scope'')
         then [(''oauthTokenScope'', obj_get authResult ''scope'')] else []) @
        [(''client_id'', opt cl ''client_id'')])"

text \<open>The callback once its transaction was found and removed.\<close>

definition finish_redirect :: "('c, 'w) env \<Rightarrow> ('x, 'c) client \<Rightarrow> obj \<Rightarrow> obj \<Rightarrow> ('x, 'c, 'w, obj) act" where
  "finish_redirect E cl transaction q =
     (let state = obj_get q ''state'';
          ver = obj_get transaction ''code_verifier'';
          tr_state = obj_get transaction ''state''
      in if truthy (obj_get q ''error'')
         then throw (new_AuthenticationError (obj_get q ''error'') (obj_get q ''error_description'') state
                       (obj_get transaction ''appState''))
         else if \<not> truthy ver \<or> truthy tr_state \<and> \<not> js_same tr_state state
         then throw (Error ''Invalid state, state not match'')
         else
           bindE (token_request E cl (redirect_request cl transaction q)) (\<lambda>authResult.
           bindE (verifyIdToken E cl (obj_get authResult ''id_token'') (obj_get transaction ''nonce'')
                    (obj_get transaction ''organizationId'')) (\<lambda>d.
           bindE (finish_login E cl (redirect_entry cl transaction authResult d) d) (\<lambda>_.
             ret [(''appState'', obj_get transaction ''appState'')]))))"

definition handleRedirectCallback :: "('c, 'w) env \<Rightarrow> ('x, 'c) client \<Rightarrow> string \<Rightarrow> ('x, 'c, 'w, obj) act" where
  "handleRedirectCallback E cl url =
     (let queryStringFragments = tl (split_on ''?'' url)
      in if queryStringFragments = [] then throw (Error ''There are no query params available for parsing.'')
         else
           bindE (liftR (parseQueryResult (concat queryStringFragments))) (\<lambda>q.
           bindE (getS (\<lambda>s. tm_get (transactions s))) (\<lambda>tr.
             if \<not> truthy tr then throw (Error ''Invalid state, transaction not found'')
             else
               bindE (transaction_remove) (\<lambda>_.
                 finish_redirect E cl (case tr of JObj ob \<Rightarrow> ob | _ \<Rightarrow> []) q))))"

section \<open>Logging in with a popup\<close>

text \<open>\<open>None\<close>: the property is absent.\<close>

record popup_config =
  popup :: "nat option"
  timeoutInSeconds :: "jsval option"

text \<open>From the popup's answer to the session.\<close>

definition popup_exchange ::
  "('c, 'w) env \<Rightarrow> ('x, 'c) client \<Rightarrow> obj \<Rightarrow> popup_config \<Rightarrow> secrets \<Rightarrow> obj \<Rightarrow> string \<Rightarrow> nat \<Rightarrow> ('x, 'c, 'w, unit) act" where
  "popup_exchange E cl options config sec params url w =
     bindE (on_outside (e_popup E w url
       (js_or (js_or (case timeoutInSeconds config of None \<Rightarrow> JUndef | Some t \<Rightarrow> t) (opt cl ''authorizeTimeoutInSeconds''))
         (JNum DEFAULT_AUTHORIZE_TIMEOUT_IN_SECONDS)))) (\<lambda>events.
     bindE (case runPopup w events of None \<Rightarrow> throw NeverSettles | Some r \<Rightarrow> liftR r) (\<lambda>codeResult.
     bindE (liftR (js_prop codeResult ''state'')) (\<lambda>st.
       if \<not> js_same (JStr (stateIn sec)) st then throw (Error ''Invalid state'')
       else
         bindE (liftR (js_prop codeResult ''code'')) (\<lambda>code.
         bindE (token_request E cl
           [(''audience'', obj_get params ''audience''), (''scope'', obj_get params ''scope''),
            (''baseUrl'', JStr (domainUrl cl)), (''client_id'', opt cl ''client_id''),
            (''code_verifier'', JStr (code_verifier sec)), (''code'', code),
            (''grant_type'', JStr ''authorization_code''), (''redirect_uri'', obj_get params ''redirect_uri''),
            (''authokClient'', opt cl ''authokClient''), (''useFormData'', opt cl ''useFormData'')]) (\<lambda>authResult.
         bindE (verifyIdToken E cl (obj_get authResult ''id_token'') (JStr (nonceIn sec))
                  (js_or (obj_get options ''organization'') (opt cl ''organization''))) (\<lambda>d.
           finish_login E cl
             (obj_spread authResult
               [(''decodedToken'', decoded_obj d), (''scope'', obj_get params ''scope''),
                (''audience'', js_or (obj_get params ''audience'') (JStr ''default'')),
                (''client_id'', opt cl ''client_id'')]) d))))))"

definition loginWithPopup ::
  "('c, 'w) env \<Rightarrow> ('x, 'c) client \<Rightarrow> obj \<Rightarrow> popup_config \<Rightarrow> ('x, 'c, 'w, unit) act" where
  "loginWithPopup E cl options config =
     bindE (case popup config of Some w \<Rightarrow> ret (Some w) | None \<Rightarrow> on_outside (e_open E (openPopup (e_box E) []))) (\<lambda>win.
     bindE (make_secrets E) (\<lambda>sec.
       (let params = getParams cl options (stateIn sec) (nonceIn sec) (code_challenge sec)
                       (js_or (opt cl ''redirect_uri'') (JStr (e_origin E)))
        in bindE (liftR (authorizeUrl cl (obj_spread params [(''response_mode'', JStr ''web_message'')]))) (\<lambda>url.
             case win of
               None \<Rightarrow> throw TypeError
             | Some w \<Rightarrow> popup_exchange E cl options config sec params url w))))"

section \<open>Reading the cache\<close>

definition audience_of :: "('x, 'c) client \<Rightarrow> obj \<Rightarrow> jsval" where
  "audience_of cl options =
     js_or (js_or (obj_get options ''audience'') (opt cl ''audience'')) (JStr ''default'')"

definition scopes_of :: "('x, 'c) client \<Rightarrow> jsval \<Rightarrow> jsval" where
  "scopes_of cl scope = JStr (getUniqueScopes [JStr (defaultScope cl), cl_scope cl, scope])"

definition cached_entry :: "('c, 'w) env \<Rightarrow> ('x, 'c) client \<Rightarrow> obj \<Rightarrow> ('x, 'c, 'w, jsval) act" where
  "cached_entry E cl options =
     cache_get E cl (CacheKey (opt cl ''client_id'') (audience_of cl options) (scopes_of cl (obj_get options ''scope'')))
       DEFAULT_EXPIRY_ADJUSTMENT_SECONDS"

text \<open>\<open>cache && cache.decodedToken && cache.decodedToken.k\<close>.\<close>

definition token_part :: "string \<Rightarrow> jsval \<Rightarrow> js_error + jsval" where
  "token_part k cache =
     (if \<not> truthy cache then Inr cache
      else bindR (js_prop cache ''decodedToken'') (\<lambda>dt. if \<not> truthy dt then Inr dt else js_prop dt k))"

definition getUser :: "('c, 'w) env \<Rightarrow> ('x, 'c) client \<Rightarrow> obj \<Rightarrow> ('x, 'c, 'w, jsval) act" where
  "getUser E cl options = bindE (cached_entry E cl options) (\<lambda>cache. liftR (token_part ''user'' cache))"

definition getIdTokenClaims :: "('c, 'w) env \<Rightarrow> ('x, 'c) client \<Rightarrow> obj \<Rightarrow> ('x, 'c, 'w, jsval) act" where
  "getIdTokenClaims E cl options = bindE (cached_entry E cl options) (\<lambda>cache. liftR (token_part ''claims'' cache))"

definition isAuthenticated :: "('c, 'w) env \<Rightarrow> ('x, 'c) client \<Rightarrow> ('x, 'c, 'w, bool) act" where
  "isAuthenticated E cl = bindE (getUser E cl []) (\<lambda>user. ret (truthy user))"

definition detailed_entry :: "obj \<Rightarrow> obj" where
  "detailed_entry entry =
     [(''id_token'', obj_get entry ''id_token''), (''access_token'', obj_get entry ''access_token'')] @
     (if truthy (obj_get entry ''oauthTokenScope'') then [(''scope'', obj_get entry ''oauthTokenScope'')] else []) @
     [(''expires_in'', obj_get entry ''expires_in'')]"

definition getEntryFromCache ::
  "('c, 'w) env \<Rightarrow> ('x, 'c) client \<Rightarrow> jsval \<Rightarrow> jsval \<Rightarrow> jsval \<Rightarrow> ('x, 'c, 'w, jsval) act" where
  "getEntryFromCache E cl scope audience getDetailedEntry =
     bindE (cache_get E cl (CacheKey (opt cl ''client_id'') audience scope) 60) (\<lambda>entry.
       case entry of
         JObj ob \<Rightarrow>
           ret (if truthy (obj_get ob ''access_token'')
                then (if truthy getDetailedEntry then JObj (detailed_entry ob) else obj_get ob ''access_token'')
                else JUndef)
       | _ \<Rightarrow> ret JUndef)"

section \<open>Logging out\<close>

definition logout_params :: "('x, 'c) client \<Rightarrow> obj \<Rightarrow> obj" where
  "logout_params cl options =
     (if obj_get options ''client_id'' \<noteq> JNull
      then obj_set ''client_id'' (js_or (obj_get options ''client_id'') (opt cl ''client_id'')) options
      else obj_omit [''client_id''] options)"

definition buildLogoutUrl :: "('x, 'c) client \<Rightarrow> obj \<Rightarrow> js_error + string" where
  "buildLogoutUrl cl options =
     (let options = logout_params cl options
      in bindR (url_for cl (''/v1/logout?'' @ createQueryParams (obj_omit [''federated''] options))) (\<lambda>url.
           Inr (url @ (if truthy (obj_get options ''federated'') then ''&federated'' else []))))"

definition postCacheClear :: "('x, 'c) client \<Rightarrow> jsval \<Rightarrow> obj \<Rightarrow> ('x, 'c, 'w, unit) act" where
  "postCacheClear cl localOnly logoutOptions =
     bindE (cookie_drop cl (orgHintCookieName cl)) (\<lambda>_.
     bindE (cookie_drop cl (isAuthenticatedCookieName cl)) (\<lambda>_.
       if truthy localOnly then ret ()
       else bindE (liftR (buildLogoutUrl cl logoutOptions)) (\<lambda>url. visit ''assign'' url)))"

definition logout :: "('x, 'c) client \<Rightarrow> obj \<Rightarrow> ('x, 'c, 'w, unit) act" where
  "logout cl options =
     (let localOnly = obj_get options ''localOnly''; logoutOptions = obj_omit [''localOnly''] options
      in if truthy localOnly \<and> truthy (obj_get logoutOptions ''federated'')
         then throw (Error ''It is invalid to set both the `federated` and `localOnly` options to `true`'')
         else
           bindE (on_store (if truthy (opt cl ''cache'') then cm_clear (cacheManager cl) None
                            else cm_clearSync (cacheManager cl) None)) (\<lambda>_.
             postCacheClear cl localOnly logoutOptions))"

section \<open>Getting tokens silently\<close>

text \<open>
  \<open>catch (e) { if (e.error === 'login_required') this.logout({localOnly: true}); throw e; }\<close>. With a
  custom cache \<open>logout\<close> returns a promise nobody awaits, so its failure is not seen.
\<close>

definition login_required_logout :: "('x, 'c) client \<Rightarrow> js_error \<Rightarrow> ('x, 'c, 'w, 'a) act" where
  "login_required_logout cl e =
     (if err_error e = JStr ''login_required''
      then bindE (if truthy (opt cl ''cache'')
                  then catchE (logout cl [(''localOnly'', JBool True)]) (\<lambda>_. ret ())
                  else logout cl [(''localOnly'', JBool True)]) (\<lambda>_. throw e)
      else throw e)"

definition iframe_exchange ::
  "('c, 'w) env \<Rightarrow> ('x, 'c) client \<Rightarrow> obj \<Rightarrow> secrets \<Rightarrow> obj \<Rightarrow> string \<Rightarrow> ('x, 'c, 'w, obj) act" where
  "iframe_exchange E cl options sec params url =
     (if e_crossOriginIsolated E
      then throw (GenericError (JStr ''login_required'') (JStr ''The application is running in a Cross-Origin Isolated context, silently retrieving a token without refresh token is not possible.''))
      else
        bindE (on_outside (e_iframe E url
          (js_or (obj_get options ''timeoutInSeconds'') (opt cl ''authorizeTimeoutInSeconds'')))) (\<lambda>ms.
        bindE (liftR (runIframe (domainUrl cl) ms)) (\<lambda>codeResult.
        bindE (liftR (js_prop codeResult ''state'')) (\<lambda>st.
          if \<not> js_same (JStr (stateIn sec)) st then throw (Error ''Invalid state'')
          else
            bindE (liftR (js_prop codeResult ''code'')) (\<lambda>code.
            bindE (token_request E cl
              (obj_spread
                (obj_spread (customOptions cl)
                  (obj_omit [''scope'', ''audience'', ''redirect_uri'', ''ignoreCache'', ''timeoutInSeconds'',
                             ''detailedResponse''] options))
                [(''scope'', obj_get options ''scope''), (''audience'', obj_get options ''audience''),
                 (''baseUrl'', JStr (domainUrl cl)), (''client_id'', opt cl ''client_id''),
                 (''code_verifier'', JStr (code_verifier sec)), (''code'', code),
                 (''grant_type'', JStr ''authorization_code''), (''redirect_uri'', obj_get params ''redirect_uri''),
                 (''authokClient'', opt cl ''authokClient''), (''useFormData'', opt cl ''useFormData'')])) (\<lambda>tokenResult.
            bindE (verifyIdToken E cl (obj_get tokenResult ''id_token'') (JStr (nonceIn sec)) JUndef) (\<lambda>d.
            bindE (processOrgIdHint cl (claim d ''org_id'')) (\<lambda>_.
              ret (obj_spread tokenResult
                [(''decodedToken'', decoded_obj d), (''scope'', obj_get params ''scope''),
                 (''oauthTokenScope'', obj_get tokenResult ''scope''),
                 (''audience'', js_or (obj_get params ''audience'') (JStr ''default''))])))))))))"

definition getTokenFromIFrame :: "('c, 'w) env \<Rightarrow> ('x, 'c) client \<Rightarrow> obj \<Rightarrow> ('x, 'c, 'w, obj) act" where
  "getTokenFromIFrame E cl options =
     bindE (make_secrets E) (\<lambda>sec.
       (let params0 = getParams cl (obj_omit [''detailedResponse''] options) (stateIn sec) (nonceIn sec)
                        (code_challenge sec)
                        (js_or (js_or (obj_get options ''redirect_uri'') (opt cl ''redirect_uri'')) (JStr (e_origin E)))
        in bindE (cookie_read cl (orgHintCookieName cl)) (\<lambda>orgIdHint.
             (let params = (if truthy orgIdHint \<and> \<not> truthy (obj_get params0 ''organization'')
                            then obj_set ''organization'' orgIdHint params0 else params0)
              in bindE (liftR (authorizeUrl cl
                   (obj_spread params [(''prompt'', JStr ''none''), (''response_mode'', JStr ''web_message'')]))) (\<lambda>url.
                   catchE (iframe_exchange E cl options sec params url) (login_required_logout cl))))))"

text \<open>The errors of a refresh after which the client falls back to an iframe.\<close>

definition refresh_fallback :: "js_error \<Rightarrow> bool" where
  "refresh_fallback e =
     (err_message e = MISSING_REFRESH_TOKEN_ERROR_MESSAGE \<or>
      js_includes (err_message e) INVALID_REFRESH_TOKEN_ERROR_MESSAGE)"

definition refresh_request :: "('c, 'w) env \<Rightarrow> ('x, 'c) client \<Rightarrow> obj \<Rightarrow> jsval \<Rightarrow> obj" where
  "refresh_request E cl options cached =
     (let tmo = (case obj_get options ''timeoutInSeconds'' of JNum t \<Rightarrow> JNum (t * 1000) | JNaN \<Rightarrow> JNaN | _ \<Rightarrow> JNull)
      in obj_spread
          (obj_spread (customOptions cl)
            (obj_omit [''scope'', ''audience'', ''ignoreCache'', ''timeoutInSeconds'', ''detailedResponse''] options))
          ([(''audience'', obj_get options ''audience''), (''scope'', obj_get options ''scope''),
            (''baseUrl'', JStr (domainUrl cl)), (''client_id'', opt cl ''client_id''),
            (''grant_type'', JStr ''refresh_token''), (''refresh_token'', cached),
            (''redirect_uri'',
              js_or (js_or (obj_get options ''redirect_uri'') (opt cl ''redirect_uri'')) (JStr (e_origin E)))] @
           (if truthy tmo then [(''timeout'', tmo)] else []) @
           [(''authokClient'', opt cl ''authokClient''), (''useFormData'', opt cl ''useFormData'')]))"

definition getTokenUsingRefreshToken :: "('c, 'w) env \<Rightarrow> ('x, 'c) client \<Rightarrow> obj \<Rightarrow> ('x, 'c, 'w, obj) act" where
  "getTokenUsingRefreshToken E cl options0 =
     (let options = obj_set ''scope''
            (JStr (getUniqueScopes [JStr (defaultScope cl), opt cl ''scope'', obj_get options0 ''scope''])) options0;
          audience = js_or (obj_get options ''audience'') (JStr ''default'')
      in bindE (cache_get E cl (CacheKey (opt cl ''client_id'') audience (obj_get options ''scope''))
                  DEFAULT_EXPIRY_ADJUSTMENT_SECONDS) (\<lambda>cache.
         bindE (liftR (if truthy cache then js_prop cache ''refresh_token'' else Inr cache)) (\<lambda>cached.
           if \<not> truthy cached \<and> \<not> worker cl then getTokenFromIFrame E cl options
           else
             bindE (catchE (bindE (token_request E cl (refresh_request E cl options cached)) (\<lambda>t. ret (Inr t)))
                      (\<lambda>e. if refresh_fallback e
                           then bindE (getTokenFromIFrame E cl options) (\<lambda>t. ret (Inl t)) else throw e)) (\<lambda>r.
               case r of
                 Inl t \<Rightarrow> ret t
               | Inr tokenResult \<Rightarrow>
                   bindE (verifyIdToken E cl (obj_get tokenResult ''id_token'') JUndef JUndef) (\<lambda>d.
                     ret (obj_spread tokenResult
                       [(''decodedToken'', decoded_obj d), (''scope'', obj_get options ''scope''),
                        (''oauthTokenScope'', obj_get tokenResult ''scope''), (''audience'', audience)]))))))"

text \<open>The critical section of \<open>_getTokenSilently\<close>.\<close>

definition fetch_token :: "('c, 'w) env \<Rightarrow> ('x, 'c) client \<Rightarrow> obj \<Rightarrow> ('x, 'c, 'w, jsval) act" where
  "fetch_token E cl options =
     (let getTokenOptions = obj_omit [''ignoreCache''] options
      in bindE (if truthy (opt cl ''useRefreshTokens'') then getTokenUsingRefreshToken E cl getTokenOptions
                else getTokenFromIFrame E cl getTokenOptions) (\<lambda>authResult.
         bindE (cache_set E cl (obj_spread [(''client_id'', opt cl ''client_id'')] authResult)) (\<lambda>_.
         bindE (cookie_write cl (isAuthenticatedCookieName cl) (JBool True)) (\<lambda>_.
           ret (if truthy (obj_get options ''detailedResponse'') then JObj (detailed_entry authResult)
                else obj_get authResult ''access_token'')))))"

definition cache_check :: "('c, 'w) env \<Rightarrow> ('x, 'c) client \<Rightarrow> obj \<Rightarrow> ('x, 'c, 'w, jsval) act" where
  "cache_check E cl options =
     (if truthy (obj_get options ''ignoreCache'') then ret JUndef
      else getEntryFromCache E cl (obj_get options ''scope'')
             (js_or (obj_get options ''audience'') (JStr ''default'')) (obj_get options ''detailedResponse''))"

text \<open>\<open>lock.releaseLock\<close>.\<close>

definition lock_released :: "('c, 'w) env \<Rightarrow> ('x, 'c, 'w) world \<Rightarrow> ('x, 'c, 'w) world" where
  "lock_released E s = s\<lparr>http_of := (http_of s)\<lparr>outside := e_releaseLock E (outside (http_of s))\<rparr>\<rparr>"

definition getTokenSilently_locked :: "('c, 'w) env \<Rightarrow> ('x, 'c) client \<Rightarrow> obj \<Rightarrow> ('x, 'c, 'w, jsval) act" where
  "getTokenSilently_locked E cl options =
     bindE (cache_check E cl options) (\<lambda>entry.
       if truthy entry then ret entry
       else
         bindE (retryPromise (on_outside (e_acquireLock E)) 10) (\<lambda>locked.
           if \<not> locked then throw TimeoutError
           else
             finallyE NeverSettles
               (bindE (cache_check E cl options) (\<lambda>entry.
                  if truthy entry then ret entry else fetch_token E cl options))
               (lock_released E)))"

definition silent_options :: "('x, 'c) client \<Rightarrow> obj \<Rightarrow> obj" where
  "silent_options cl options =
     obj_set ''scope'' (scopes_of cl (obj_get options ''scope''))
       (obj_spread [(''audience'', opt cl ''audience''), (''ignoreCache'', JBool False)] options)"

text \<open>The key under which \<open>singlePromise\<close> merges calls.\<close>

definition silent_key :: "('x, 'c) client \<Rightarrow> obj \<Rightarrow> string" where
  "silent_key cl options =
     to_string (opt cl ''client_id'') @ ''::'' @ to_string (obj_get (silent_options cl options) ''audience'') @ ''::'' @
     to_string (obj_get (silent_options cl options) ''scope'')"

definition getTokenSilently :: "('c, 'w) env \<Rightarrow> ('x, 'c) client \<Rightarrow> obj \<Rightarrow> ('x, 'c, 'w, jsval) act" where
  "getTokenSilently E cl options = getTokenSilently_locked E cl (silent_options cl options)"

text \<open>\<open>{...DEFAULT_POPUP_CONFIG_OPTIONS, ...config}\<close>.\<close>

definition with_defaults :: "popup_config \<Rightarrow> popup_config" where
  "with_defaults config =
     (if timeoutInSeconds config = None
      then config\<lparr>timeoutInSeconds := Some (JNum DEFAULT_AUTHORIZE_TIMEOUT_IN_SECONDS)\<rparr> else config)"

definition getTokenWithPopup ::
  "('c, 'w) env \<Rightarrow> ('x, 'c) client \<Rightarrow> obj \<Rightarrow> popup_config \<Rightarrow> ('x, 'c, 'w, jsval) act" where
  "getTokenWithPopup E cl options0 config =
     (let audience = js_or (obj_get options0 ''audience'') (opt cl ''audience'');
          options = obj_set ''scope'' (scopes_of cl (obj_get options0 ''scope'')) (obj_set ''audience'' audience options0)
      in bindE (loginWithPopup E cl options (with_defaults config)) (\<lambda>_.
         bindE (cache_get E cl (CacheKey (opt cl ''client_id'') (js_or audience (JStr ''default''))
                                 (obj_get options ''scope'')) DEFAULT_EXPIRY_ADJUSTMENT_SECONDS) (\<lambda>cache.
           liftR (js_prop cache ''access_token''))))"

section \<open>Sessions\<close>

definition checkSession :: "('c, 'w) env \<Rightarrow> ('x, 'c) client \<Rightarrow> obj \<Rightarrow> ('x, 'c, 'w, unit) act" where
  "checkSession E cl options =
     bindE (cookie_read cl (isAuthenticatedCookieName cl)) (\<lambda>flag.
     bindE (if truthy flag then ret True
            else bindE (cookie_read cl OLD_IS_AUTHENTICATED_COOKIE_NAME) (\<lambda>old.
              if \<not> truthy old then ret False
              else bindE (cookie_write cl (isAuthenticatedCookieName cl) (JBool True)) (\<lambda>_.
                   bindE (cookie_drop cl OLD_IS_AUTHENTICATED_COOKIE_NAME) (\<lambda>_. ret True)))) (\<lambda>go.
       if \<not> go then ret ()
       else catchE (bindE (getTokenSilently E cl options) (\<lambda>_. ret ()))
              (\<lambda>e. if err_error e \<in> JStr ` set RECOVERABLE_ERRORS then ret () else throw e)))"

definition createAuthokClient :: "('c, 'w) env \<Rightarrow> 'x icache \<Rightarrow> obj \<Rightarrow> ('x, 'c, 'w, ('x, 'c) client) act" where
  "createAuthokClient E own options =
     (\<lambda>s. case new_AuthokClient E own options (site_of s) of
        Inl e \<Rightarrow> (Inl e, s)
      | Inr (cl, tm) \<Rightarrow> bindE (checkSession E cl []) (\<lambda>_. ret cl) (s\<lparr>transactions := tm\<rparr>))"

section \<open>Lemmas: effects of the client\<close>

lemma bindE_Inr_iff:
  "bindE m f s = (Inr b, s'') \<longleftrightarrow> (\<exists>a s'. m s = (Inr a, s') \<and> f a s' = (Inr b, s''))"
  by (auto simp: bindE_def split: prod.splits sum.splits)

lemma if_act: "(if b then m else n) s = (if b then m s else n s)"
  by simp

lemma throw_not_Inr [simp]: "throw e s \<noteq> (Inr a, s')"
  by (simp add: throw_def)

lemma on_store_run: "on_store m s = (fst (m (store_of s)), s\<lparr>store_of := snd (m (store_of s))\<rparr>)"
  by (simp add: on_store_def split: prod.split)

lemma on_http_run: "on_http m s = (fst (m (http_of s)), s\<lparr>http_of := snd (m (http_of s))\<rparr>)"
  by (simp add: on_http_def split: prod.split)

lemma on_outside_run: "on_outside f s =
   (Inr (fst (f (outside (http_of s)))), s\<lparr>http_of := (http_of s)\<lparr>outside := snd (f (outside (http_of s)))\<rparr>\<rparr>)"
  by (simp add: on_outside_def split: prod.split)

lemma ask_run: "ask f s = (Inr (f (outside (http_of s))), s)"
  by (simp add: ask_def eff_run)

lemma cookie_run:
  "cookie_read cl k s = (cs_get (cookieStorage cl) k (site_of s), s)"
  "cookie_write cl k v s = (Inr (), s\<lparr>site_of := cs_save (cookieStorage cl) k v (sessionCheckExpiryDays cl) (site_of s)\<rparr>)"
  "cookie_drop cl k s = (Inr (), s\<lparr>site_of := cs_remove (cookieStorage cl) k (site_of s)\<rparr>)"
  by (simp_all add: cookie_read_def cookie_write_def cookie_drop_def eff_run)

lemmas act_run = eff_run on_store_run on_http_run on_outside_run ask_run cookie_run

text \<open>A transaction that was looked up is removed, whatever follows.\<close>

lemma transaction_remove_run: "transaction_remove s =
   (Inr (), s\<lparr>transactions := (transactions s)\<lparr>tm_transaction := JUndef\<rparr>,
              site_of := cs_remove (tm_storage (transactions s)) (tm_storageKey (transactions s)) (site_of s)\<rparr>)"
  by (simp add: transaction_remove_def eff_run tm_remove_def)

text \<open>Which parts of the world the operations leave alone.\<close>

lemma keeps_reading [keeps_intros]: "keeps f (ask h)" "keeps f (cookie_read cl k)"
  by (simp_all add: keeps_def act_run)

lemma keeps_transactions [keeps_intros]:
  "keeps transactions (on_store m1)" "keeps transactions (on_http m2)" "keeps transactions (on_outside g)"
  "keeps transactions (cookie_write cl k v)" "keeps transactions (cookie_drop cl k)" "keeps transactions (visit how url)"
  by (simp_all add: keeps_def act_run visit_def)

lemma keeps_store [keeps_intros]:
  "keeps store_of (on_http m2)" "keeps store_of (on_outside g)" "keeps store_of (cookie_write cl k v)"
  "keeps store_of (cookie_drop cl k)" "keeps store_of (visit how url)" "keeps store_of transaction_remove"
  "keeps store_of (transaction_create tr)"
  by (simp_all add: keeps_def act_run visit_def transaction_remove_def transaction_create_def split: prod.split)

lemma keeps_http [keeps_intros]:
  "keeps http_of (on_store m1)" "keeps http_of (cookie_write cl k v)" "keeps http_of (cookie_drop cl k)"
  "keeps http_of (visit how url)" "keeps http_of transaction_remove" "keeps http_of (transaction_create tr)"
  by (simp_all add: keeps_def act_run visit_def transaction_remove_def transaction_create_def split: prod.split)

lemma finish_login_keeps: "keeps transactions (finish_login E cl entry d)"
  unfolding finish_login_def cache_set_def processOrgIdHint_def by (intro keeps_intros)

lemma verify_keeps: "keeps f (verifyIdToken E cl t n g)"
  unfolding verifyIdToken_def by (intro keeps_intros)

lemma token_request_keeps: "keeps transactions (token_request E cl ob)"
  unfolding token_request_def by (intro keeps_intros)

end
