(* ===== verification/Client_Properties.thy ===== *)
theory Client_Properties
  imports Client
begin

text \<open>
  What the client guarantees across its components: logging in by redirect, the authorization
  parameters, logging out, silent tokens and sessions. Each section first runs the operation on the
  components' lemmas and then states its properties. The concrete runs on which they are
  applied are in \<open>Client_Examples\<close>.
\<close>

section \<open>Logging in\<close>

lemma finish_redirect_keeps: "keeps transactions (finish_redirect E cl tr q)"
  unfolding finish_redirect_def Let_def
  by (intro keeps_intros token_request_keeps verify_keeps finish_login_keeps)

text \<open>After a callback no transaction is left.\<close>

lemma callback_clears:
  assumes "tl (split_on ''?'' url) \<noteq> []" and "parseQueryResult (concat (tl (split_on ''?'' url))) = Inr q"
    and "handleRedirectCallback E cl url s = (r, s')"
  shows "\<not> truthy (tm_get (transactions s'))"
proof (cases "truthy (tm_get (transactions s))")
  case False
  then have "s' = s" using assms by (auto simp: handleRedirectCallback_def bindE_def eff_run)
  with False show ?thesis by simp
next
  case True
  let ?s = "snd (transaction_remove s)"
  have "handleRedirectCallback E cl url s =
      finish_redirect E cl (case tm_get (transactions s) of JObj ob \<Rightarrow> ob | _ \<Rightarrow> []) q ?s"
    using assms True by (simp add: handleRedirectCallback_def bindE_def eff_run transaction_remove_run)
  then have "transactions s' = transactions ?s"
    using finish_redirect_keeps [of E cl _ q] assms(3) by (metis keeps_def snd_conv)
  then show ?thesis by (simp add: transaction_remove_run tm_get_def)
qed


lemma verifyIdToken_run:
  "verifyIdToken E cl id_token nonce org s =
     (verify (e_showDate E) (e_Date_now E (outside (http_of s)))
        \<lparr>jo_iss = JStr (tokenIssuer cl), jo_aud = opt cl ''client_id'', jo_id_token = id_token, jo_nonce = nonce,
         jo_leeway = opt cl ''leeway'', jo_max_age = parseNumber (opt cl ''max_age''),
         jo_organizationId = org, jo_now = JNum (e_now E (outside (http_of s)))\<rparr>, s)"
  by (simp add: verifyIdToken_def bindE_def act_run)

lemma verify_nonce: "verify sd dn opts = Inr d \<Longrightarrow>
    (\<exists>t. jo_id_token opts = JStr t \<and> decode t = Inr d) \<and> check_iss opts d = Inr () \<and>
    expects (jo_nonce opts) (claim d ''nonce'') \<and> expects (jo_organizationId opts) (claim d ''org_id'')"
  by (simp add: verify_checks check_nonce_iff check_org_iff)

text \<open>An ID token that passed the client's verification.\<close>

lemma verifyIdToken_sound:
  assumes "verifyIdToken E cl idt nonce org s = (Inr d, s')"
  shows "\<exists>t. idt = JStr t \<and> decode t = Inr d \<and> js_same (claim d ''iss'') (JStr (tokenIssuer cl)) \<and>
    expects nonce (claim d ''nonce'') \<and> expects org (claim d ''org_id'') \<and> s' = s"
  using assms by (auto simp: verifyIdToken_run check_iss_def dest!: verify_nonce split: if_splits)

text \<open>
  C1: a redirect callback that succeeds had a transaction with a code verifier; the state of the
  response is that of the transaction; the tokens came from the token endpoint in exchange for the code
  and that verifier; their ID token passed verification against the issuer, the nonce and the organization of
  that very transaction; and these tokens are what the session is made of.
\<close>

theorem callback_sound:
  assumes "handleRedirectCallback E cl url s = (Inr r, s')"
    and "tm_get (transactions s) = JObj tr"
  shows "\<exists>q toks s1 t d. parseQueryResult (concat (tl (split_on ''?'' url))) = Inr q \<and> truthy (obj_get tr ''code_verifier'') \<and>
    (truthy (obj_get tr ''state'') \<longrightarrow> js_same (obj_get tr ''state'') (obj_get q ''state'')) \<and>
    token_request E cl (redirect_request cl tr q) (snd (transaction_remove s)) = (Inr toks, s1) \<and>
    obj_get toks ''id_token'' = JStr t \<and> decode t = Inr d \<and> js_same (claim d ''iss'') (JStr (tokenIssuer cl)) \<and>
    expects (obj_get tr ''nonce'') (claim d ''nonce'') \<and>
    expects (obj_get tr ''organizationId'') (claim d ''org_id'') \<and>
    finish_login E cl (redirect_entry cl tr toks d) d s1 = (Inr (), s') \<and>
    r = [(''appState'', obj_get tr ''appState'')]"
proof -
  obtain q where q: "parseQueryResult (concat (tl (split_on ''?'' url))) = Inr q"
    "finish_redirect E cl tr q (snd (transaction_remove s)) = (Inr r, s')"
    using assms by (auto simp: handleRedirectCallback_def Let_def if_act bindE_Inr_iff eff_run transaction_remove_run
        split: if_splits)
  then obtain toks s1 s2 d where d:
     "token_request E cl (redirect_request cl tr q) (snd (transaction_remove s)) = (Inr toks, s1)"
     "verifyIdToken E cl (obj_get toks ''id_token'') (obj_get tr ''nonce'') (obj_get tr ''organizationId'') s1 = (Inr d, s2)"
     "finish_login E cl (redirect_entry cl tr toks d) d s2 = (Inr (), s')"
     "truthy (obj_get tr ''code_verifier'')"
     "truthy (obj_get tr ''state'') \<longrightarrow> js_same (obj_get tr ''state'') (obj_get q ''state'')"
     "r = [(''appState'', obj_get tr ''appState'')]"
    by (auto simp: finish_redirect_def Let_def if_act bindE_Inr_iff eff_run split: if_splits)
  with q(1) verifyIdToken_sound [OF d(2)] show ?thesis by blast
qed

section \<open>Authorization parameters\<close>

lemma getParams_fixed:
  "obj_get (getParams cl ao st nc cc ru) k =
     (if k = ''scope'' then JStr (getUniqueScopes [JStr (defaultScope cl), cl_scope cl, obj_get ao ''scope''])
      else if k = ''response_type'' then JStr ''code'' else if k = ''response_mode'' then JStr ''query''
      else if k = ''state'' then JStr st else if k = ''nonce'' then JStr nc
      else if k = ''redirect_uri'' then js_or ru (opt cl ''redirect_uri'')
      else if k = ''code_challenge'' then JStr cc else if k = ''code_challenge_method'' then JStr ''S256''
      else obj_get (obj_spread (obj_omit client_only_options (cl_options cl)) ao) k)"
  unfolding getParams_def by (subst obj_get_spread) (simp_all add: wf_obj_def obj_keys_def obj_get_def)

lemma make_secrets_challenge:
  "make_secrets E s = (Inr sec, s') \<Longrightarrow>
     (\<exists>digest. sha256_of E (code_verifier sec) = Inr digest \<and> code_challenge sec = bufferToBase64UrlEncoded digest) \<and>
     transactions s' = transactions s"
  by (auto simp: make_secrets_def random_string_def bindE_Inr_iff act_run)


text \<open>
  C10: building an authorization URL records a transaction whose state and nonce are those in the URL,
  and whose code verifier is the preimage of the challenge in the URL (PKCE with SHA-256).
\<close>

theorem buildAuthorizeUrl_transaction:
  assumes "buildAuthorizeUrl E cl options s = (Inr url, s')"
  shows "\<exists>params base tr ver digest. authorizeUrl cl params = Inr base \<and>
    url = base @ (if truthy (obj_get options ''fragment'') then ''#'' @ to_string (obj_get options ''fragment'') else []) \<and>
    tm_get (transactions s') = JObj tr \<and>
    obj_get tr ''state'' = obj_get params ''state'' \<and> obj_get tr ''nonce'' = obj_get params ''nonce'' \<and>
    obj_get tr ''scope'' = obj_get params ''scope'' \<and> obj_get tr ''redirect_uri'' = obj_get params ''redirect_uri'' \<and>
    obj_get tr ''code_verifier'' = JStr ver \<and> sha256_of E ver = Inr digest \<and>
    obj_get params ''code_challenge'' = JStr (bufferToBase64UrlEncoded digest) \<and>
    obj_get params ''code_challenge_method'' = JStr ''S256''"
proof -
  let ?ao = "obj_omit [''redirect_uri'', ''appState''] options"
  obtain sec s1 base where 1: "make_secrets E s = (Inr sec, s1)"
    "authorizeUrl cl (getParams cl ?ao (stateIn sec) (nonceIn sec) (code_challenge sec) (obj_get options ''redirect_uri'')) = Inr base"
    "url = base @ (if truthy (obj_get options ''fragment'') then ''#'' @ to_string (obj_get options ''fragment'') else [])"
    "\<exists>tr. tm_get (transactions s') = JObj tr \<and> obj_get tr ''state'' = JStr (stateIn sec) \<and>
       obj_get tr ''nonce'' = JStr (nonceIn sec) \<and> obj_get tr ''code_verifier'' = JStr (code_verifier sec) \<and>
       obj_get tr ''scope'' = obj_get (getParams cl ?ao (stateIn sec) (nonceIn sec) (code_challenge sec)
         (obj_get options ''redirect_uri'')) ''scope'' \<and>
       obj_get tr ''redirect_uri'' = obj_get (getParams cl ?ao (stateIn sec) (nonceIn sec) (code_challenge sec)
         (obj_get options ''redirect_uri'')) ''redirect_uri''"
    using assms
    by (auto simp: buildAuthorizeUrl_def Let_def bindE_Inr_iff act_run transaction_create_def tm_create_def tm_get_def
        obj_get_def)
  obtain digest where "sha256_of E (code_verifier sec) = Inr digest"
      "code_challenge sec = bufferToBase64UrlEncoded digest"
    using make_secrets_challenge [OF 1(1)] by blast
  note d = this
  let ?p = "getParams cl ?ao (stateIn sec) (nonceIn sec) (code_challenge sec) (obj_get options ''redirect_uri'')"
  have f: "obj_get ?p ''state'' = JStr (stateIn sec)" "obj_get ?p ''nonce'' = JStr (nonceIn sec)"
    "obj_get ?p ''code_challenge'' = JStr (code_challenge sec)" "obj_get ?p ''code_challenge_method'' = JStr ''S256''"
    by (simp_all add: getParams_fixed)
  have c: "obj_get ?p ''code_challenge'' = JStr (bufferToBase64UrlEncoded digest)"
    by (rule trans [OF f(3)]) (simp only: d(2))
  from 1(4) obtain tr where tr: "tm_get (transactions s') = JObj tr" "obj_get tr ''state'' = JStr (stateIn sec)"
    "obj_get tr ''nonce'' = JStr (nonceIn sec)" "obj_get tr ''code_verifier'' = JStr (code_verifier sec)"
    "obj_get tr ''scope'' = obj_get ?p ''scope''" "obj_get tr ''redirect_uri'' = obj_get ?p ''redirect_uri''"
    by blast
  show ?thesis
    by (rule exI [of _ ?p], rule exI [of _ base], rule exI [of _ tr], rule exI [of _ "code_verifier sec"],
        rule exI [of _ digest]) (intro conjI; simp only: 1(2,3) tr f(1,2,4) c d(1))
qed

section \<open>Logging out\<close>

context icache_listing
begin

text \<open>A lookup in a cache that holds nothing under the key or a matching one.\<close>

lemma cm_get_nothing:
  assumes "wf s" and "cm_cache M = C" and "cm_manifest M = None" and "ck_scope k = JStr sc"
    and "view s (toKey k) = None" and "view s ''undefined'' = None"
    and "\<And>key. matches_key k key \<Longrightarrow> view s key = None"
  shows "cm_get M k adj now s = (Inr JUndef, s)"
proof -
  have g: "ic_get C key s = (None, s)" if "view s key = None" for key
  proof (cases "ic_get C key s")
    case (Pair r t)
    then show ?thesis
      using get_None [OF assms(1)] get_Some [OF assms(1)] that by (cases r) fastforce+
  qed
  have m: "view s (case List.find (matches_key k) (keys s) of None \<Rightarrow> ''undefined'' | Some key \<Rightarrow> key) = None"
    using assms(6,7) find_matches by (auto split: option.split)
  have "find_entry M k s = (Inr None, s)"
    using g [OF assms(5)] g [OF m] assms(2-4) allKeys
    by (simp add: find_entry_def bindE_cases eff_run deref_def getCacheKeys_def matchExistingCacheKey_def)
  then show ?thesis by (rule cm_get_missing) (simp add: deref_def)
qed

end

lemma matches_key_prefix: "matches_key k key \<Longrightarrow> js_startsWith key CACHE_KEY_PREFIX"
proof -
  assume "matches_key k key"
  then have "ck_prefix (fromKey key) = JStr CACHE_KEY_PREFIX" by (simp add: matches_key_def Let_def)
  then obtain ps where "split_on ''::'' key = CACHE_KEY_PREFIX # ps"
    by (cases "split_on ''::'' key") (auto simp: fromKey_def piece_def Let_def)
  then have "key = join ''::'' (CACHE_KEY_PREFIX # ps)" using join_split_on [of "''::''" key] by simp
  then show ?thesis by (cases ps) (auto simp: js_startsWith_prefix)
qed

lemma toKey_prefix: "js_startsWith (toKey (CacheKey c a sc)) CACHE_KEY_PREFIX"
  by (simp add: toKey_def CacheKey_def js_startsWith_prefix)

text \<open>The clients that use a cache of the library.\<close>

definition built_in :: "('x, 'c) client \<Rightarrow> bool" where
  "built_in cl = (\<not> truthy (opt cl ''cache'') \<and>
     (cacheManager cl = manager InMemoryCache \<or> cacheManager cl = manager LocalStorageCache))"

text \<open>No item under the name \<open>undefined\<close>, which a lookup without a matching key reads.\<close>

definition no_stray :: "'x store \<Rightarrow> bool" where
  "no_stray s = (wf_store s \<and> mem_view s ''undefined'' = None \<and> local_view s ''undefined'' = None)"

context icache_listing
begin

lemma clear_then_get:
  assumes "wf s" and "view s ''undefined'' = None" and "cm_cache M = C" and "cm_manifest M = None"
  shows "\<exists>s'. cm_clearSync M None s = (Inr (), s') \<and> wf s' \<and>
     (\<forall>c a sc adj now. cm_get M (CacheKey c a (JStr sc)) adj now s' = (Inr JUndef, s'))"
proof -
  obtain s' where s': "cm_clearSync M None s = (Inr (), s')" "wf s'"
     "view s' = (\<lambda>k. if k \<in> set (keys s) then None else view s k)"
    using cm_clearSync_all [OF assms(1,3)] by blast
  have p: "view s' k = None" if "js_startsWith k CACHE_KEY_PREFIX" for k
    using keys_complete [OF assms(1) that] s'(3) by (cases "view s k") auto
  have "cm_get M (CacheKey c a (JStr sc)) adj now s' = (Inr JUndef, s')" for c a sc adj now
  proof (rule cm_get_nothing [OF s'(2) assms(3,4)])
    show "ck_scope (CacheKey c a (JStr sc)) = JStr sc" by (simp add: CacheKey_def)
    show "view s' (toKey (CacheKey c a (JStr sc))) = None" by (rule p [OF toKey_prefix])
    show "view s' ''undefined'' = None" using assms(2) s'(3) by simp
    show "view s' key = None" if m: "matches_key (CacheKey c a (JStr sc)) key" for key
      by (rule p [OF matches_key_prefix [OF m]])
  qed
  with s'(1,2) show ?thesis by blast
qed

end

lemma built_in_clear:
  assumes "built_in cl" and "no_stray s"
  shows "\<exists>s'. cm_clearSync (cacheManager cl) None s = (Inr (), s') \<and> wf_store s' \<and>
     (\<forall>c a sc adj now. cm_get (cacheManager cl) (CacheKey c a (JStr sc)) adj now s' = (Inr JUndef, s'))"
  using assms memory.clear_then_get [of s "manager InMemoryCache"] local.clear_then_get [of s "manager LocalStorageCache"]
  by (auto simp: built_in_def no_stray_def manager_def)

text \<open>What the local part of a logout does.\<close>

lemma logout_local_run:
  assumes "built_in cl" and "no_stray (store_of s)"
  shows "\<exists>t. logout cl [(''localOnly'', JBool True)] s =
       (Inr (), s\<lparr>store_of := t, site_of := cs_remove (cookieStorage cl) (isAuthenticatedCookieName cl)
          (cs_remove (cookieStorage cl) (orgHintCookieName cl) (site_of s))\<rparr>) \<and> wf_store t \<and>
     (\<forall>c a sc adj now. cm_get (cacheManager cl) (CacheKey c a (JStr sc)) adj now t = (Inr JUndef, t))"
proof -
  obtain t where t: "cm_clearSync (cacheManager cl) None (store_of s) = (Inr (), t)" "wf_store t"
    "\<forall>c a sc adj now. cm_get (cacheManager cl) (CacheKey c a (JStr sc)) adj now t = (Inr JUndef, t)"
    using built_in_clear [OF assms] by blast
  have o: "obj_get [(''localOnly'', JBool True)] ''localOnly'' = JBool True"
    "obj_get [(''localOnly'', JBool True)] ''federated'' = JUndef"
    by (simp_all add: obj_get_def)
  show ?thesis
    using assms(1) t by (intro exI [of _ t])
      (simp add: logout_def Let_def o bindE_def act_run postCacheClear_def built_in_def)
qed

lemma isAuthenticated_nothing:
  assumes "\<forall>c a sc adj now. cm_get (cacheManager cl) (CacheKey c a (JStr sc)) adj now (store_of s) = (Inr JUndef, store_of s)"
  shows "isAuthenticated E cl s = (Inr False, s)"
  using assms
  by (simp add: isAuthenticated_def getUser_def cached_entry_def cache_get_def bindE_def act_run scopes_of_def token_part_def)

text \<open>
  C13: after a local logout of a client with a built-in cache nobody is authenticated, and the cookie
  that announces a session is gone.
\<close>

theorem logout_ends_session:
  assumes "built_in cl" and "no_stray (store_of s)" and "cookie_laws L"
    and "cookieStorage cl = CookieStorage L \<or> cookieStorage cl = CookieStorageWithLegacySameSite L"
  shows "\<exists>s' v. logout cl [(''localOnly'', JBool True)] s = (Inr (), s') \<and>
    isAuthenticated E cl s' = (Inr False, s') \<and>
    cs_get (cookieStorage cl) (isAuthenticatedCookieName cl) (site_of s') = Inr v \<and> \<not> truthy v"
proof -
  have "storage_laws (cookieStorage cl)"
    using assms(3,4) transaction_storage_laws [of L] by (auto simp: transaction_storages_def)
  then obtain v where "cs_get (cookieStorage cl) (isAuthenticatedCookieName cl)
      (cs_remove (cookieStorage cl) (isAuthenticatedCookieName cl)
        (cs_remove (cookieStorage cl) (orgHintCookieName cl) (site_of s))) = Inr v" "\<not> truthy v"
    using storage_laws.remove_get by blast
  moreover obtain t where "logout cl [(''localOnly'', JBool True)] s =
       (Inr (), s\<lparr>store_of := t, site_of := cs_remove (cookieStorage cl) (isAuthenticatedCookieName cl)
          (cs_remove (cookieStorage cl) (orgHintCookieName cl) (site_of s))\<rparr>)"
     "\<forall>c a sc adj now. cm_get (cacheManager cl) (CacheKey c a (JStr sc)) adj now t = (Inr JUndef, t)"
    using logout_local_run [OF assms(1,2)] by blast
  ultimately show ?thesis by (fastforce intro: isAuthenticated_nothing)
qed

text \<open>
  A logout does not reach the worker: the refresh tokens it remembers are still there afterwards,
  whatever the options.
\<close>

theorem logout_keeps_worker_tokens:
  fixes s :: "('x, 'c, 'w) world"
  shows "refreshTokens (http_of (snd (logout cl options s))) = refreshTokens (http_of s)"
proof -
  have "keeps http_of (logout cl options :: ('x, 'c, 'w, unit) act)"
    unfolding logout_def Let_def postCacheClear_def by (intro keeps_intros)
  then show ?thesis by (simp add: keeps_def)
qed

text \<open>
  C32: when the authorization server answers a silent login with \<open>login_required\<close>, the client logs out
  locally, so that nobody is authenticated any more, and passes the error on.
\<close>

theorem login_required_ends_session:
  assumes "built_in cl" and "iframe_exchange E cl options sec params url s = (Inl e, s1)"
    and "err_error e = JStr ''login_required''" and "no_stray (store_of s1)"
  shows "\<exists>s'. catchE (iframe_exchange E cl options sec params url) (login_required_logout cl) s = (Inl e, s') \<and>
    isAuthenticated E cl s' = (Inr False, s')"
proof -
  obtain t where t: "logout cl [(''localOnly'', JBool True)] s1 =
       (Inr (), s1\<lparr>store_of := t, site_of := cs_remove (cookieStorage cl) (isAuthenticatedCookieName cl)
          (cs_remove (cookieStorage cl) (orgHintCookieName cl) (site_of s1))\<rparr>)"
     "\<forall>c a sc adj now. cm_get (cacheManager cl) (CacheKey c a (JStr sc)) adj now t = (Inr JUndef, t)"
    using logout_local_run [OF assms(1,4)] by blast
  have "\<not> truthy (opt cl ''cache'')" using assms(1) by (simp add: built_in_def)
  then have "catchE (iframe_exchange E cl options sec params url) (login_required_logout cl) s =
      (Inl e, s1\<lparr>store_of := t, site_of := cs_remove (cookieStorage cl) (isAuthenticatedCookieName cl)
          (cs_remove (cookieStorage cl) (orgHintCookieName cl) (site_of s1))\<rparr>)"
    using assms(2,3) t(1) by (simp add: catchE_def login_required_logout_def bindE_def eff_run)
  with t(2) show ?thesis by (fastforce intro: isAuthenticated_nothing)
qed

section \<open>Silent tokens\<close>

lemma wrapped_obj: "wrapped entry t = JObj [(''body'', JObj entry), (''expiresAt'', JNum t)]"
  by (simp add: wrapped_def)

text \<open>What a client does with an entry of its cache that has more than a minute to live.\<close>

context icache_laws
begin

lemma cache_get_hit:
  assumes "cm_cache (cacheManager cl) = C" and "wf (store_of s)" and "view (store_of s) (toKey k) = Some (wrapped entry t)"
    and "js_floor (e_now E (outside (http_of s)) / 1000) \<le> t - adj"
  shows "\<exists>t'. cache_get E cl k adj s = (Inr (JObj entry), s\<lparr>store_of := t'\<rparr>) \<and> view t' = view (store_of s) \<and> wf t'"
proof -
  have "fresh_entry (wrapped entry t) adj (e_now E (outside (http_of s)))" using assms(4) by (simp add: fresh_wrapped)
  then obtain t' where "cm_get (cacheManager cl) k adj (e_now E (outside (http_of s))) (store_of s) = (Inr (JObj entry), t')"
      "view t' = view (store_of s)" "wf t'"
    using cm_get_hit [OF assms(2,1), of k] assms(3) by (fastforce simp: wrapped_obj obj_get_def)
  then show ?thesis by (intro exI [of _ t']) (simp add: cache_get_def bindE_def act_run)
qed

lemma cache_check_hit:
  assumes "cm_cache (cacheManager cl) = C" and "wf (store_of s)"
    and "view (store_of s) (toKey (CacheKey (opt cl ''client_id'')
           (js_or (obj_get options ''audience'') (JStr ''default'')) (obj_get options ''scope''))) = Some (wrapped entry t)"
    and "js_floor (e_now E (outside (http_of s)) / 1000) \<le> t - 60" and "truthy (obj_get entry ''access_token'')"
    and "\<not> truthy (obj_get options ''ignoreCache'')"
  shows "\<exists>t'. cache_check E cl options s =
      (Inr (if truthy (obj_get options ''detailedResponse'') then JObj (detailed_entry entry) else obj_get entry ''access_token''),
       s\<lparr>store_of := t'\<rparr>) \<and> view t' = view (store_of s) \<and> wf t'"
  using cache_get_hit [OF assms(1-4)] assms(5,6) by (auto simp: cache_check_def getEntryFromCache_def bindE_def eff_run)

lemma silent_cached:
  assumes "cm_cache (cacheManager cl) = C" and "wf (store_of s)"
    and "view (store_of s) (toKey (CacheKey (opt cl ''client_id'')
           (js_or (obj_get (silent_options cl options) ''audience'') (JStr ''default'')) (scopes_of cl (obj_get options ''scope'')))) =
         Some (wrapped entry t)"
    and "js_floor (e_now E (outside (http_of s)) / 1000) \<le> t - 60" and "truthy (obj_get entry ''access_token'')"
    and "\<not> truthy (obj_get (silent_options cl options) ''ignoreCache'')"
    and "\<not> truthy (obj_get (silent_options cl options) ''detailedResponse'')"
  shows "\<exists>t'. getTokenSilently E cl options s = (Inr (obj_get entry ''access_token''), s\<lparr>store_of := t'\<rparr>) \<and>
    view t' = view (store_of s) \<and> wf t'"
proof -
  have "obj_get (silent_options cl options) ''scope'' = scopes_of cl (obj_get options ''scope'')"
    by (simp add: silent_options_def)
  then show ?thesis
    using cache_check_hit [OF assms(1,2) _ assms(4-6)] assms(3,5,7)
    by (auto simp: getTokenSilently_def getTokenSilently_locked_def bindE_def eff_run)
qed

end

text \<open>
  While the in-memory cache holds tokens for the audience and scope asked for, with more than a
  minute to live, a silent request answers with the cached access token and touches nothing else: no
  lock, no request.
\<close>

theorem silent_from_cache:
  assumes "cacheManager cl = manager InMemoryCache" and "wf_store (store_of s)"
    and "mem_view (store_of s) (toKey (CacheKey (opt cl ''client_id'')
           (js_or (obj_get (silent_options cl options) ''audience'') (JStr ''default'')) (scopes_of cl (obj_get options ''scope'')))) =
         Some (wrapped entry t)"
    and "js_floor (e_now E (outside (http_of s)) / 1000) \<le> t - 60" and "truthy (obj_get entry ''access_token'')"
    and "\<not> truthy (obj_get (silent_options cl options) ''ignoreCache'')"
    and "\<not> truthy (obj_get (silent_options cl options) ''detailedResponse'')"
  shows "\<exists>t'. getTokenSilently E cl options s = (Inr (obj_get entry ''access_token''), s\<lparr>store_of := t'\<rparr>) \<and>
    mem_view t' = mem_view (store_of s)"
  using memory.silent_cached [OF _ assms(2-7)] assms(1) by (auto simp: manager_def)

text \<open>
  A silent request that finds nothing in the cache and is refused the lock ten times fails with a
  timeout, without a request of its own.
\<close>

theorem silent_lock_refused:
  assumes "cache_check E cl options s = (Inr v, s1)" and "\<not> truthy v"
    and "refusals (on_outside (e_acquireLock E)) 10 s1 = Some s2"
  shows "getTokenSilently_locked E cl options s = (Inl TimeoutError, s2)"
  using assms retryPromise_refused [OF assms(3)]
  by (simp add: getTokenSilently_locked_def bindE_def eff_run)

text \<open>
  A silent request that got the lock releases it when it is done, whether it ends with a token or
  with an error; it keeps the lock only if the exchange never comes to an end.
\<close>

theorem silent_lock_released:
  assumes "cache_check E cl options s = (Inr v, s1)" and "\<not> truthy v"
    and "retryPromise (on_outside (e_acquireLock E)) 10 s1 = (Inr True, s2)"
  shows "\<exists>s3 r. bindE (cache_check E cl options) (\<lambda>entry. if truthy entry then ret entry else fetch_token E cl options) s2 = (r, s3) \<and>
    getTokenSilently_locked E cl options s = (r, if r = Inl NeverSettles then s3 else lock_released E s3)"
proof -
  let ?m = "bindE (cache_check E cl options) (\<lambda>entry. if truthy entry then ret entry else fetch_token E cl options)"
  have "getTokenSilently_locked E cl options s = finallyE NeverSettles ?m (lock_released E) s2"
    using assms(2)
    by (simp add: getTokenSilently_locked_def bindE_run(1) [of "cache_check E cl options" s, OF assms(1)]
        bindE_run(1) [of "retryPromise (on_outside (e_acquireLock E)) 10" s1, OF assms(3)])
  then show ?thesis by (intro exI [of _ "snd (?m s2)"] exI [of _ "fst (?m s2)"]) (simp add: finallyE_run)
qed

lemma not_logout_Inr [simp]: "login_required_logout cl e s \<noteq> (Inr a, s')"
  by (auto simp: login_required_logout_def bindE_Inr_iff if_act split: if_splits)

text \<open>The tokens of a result belong to an ID token that passed verification.\<close>

definition verified :: "('x, 'c) client \<Rightarrow> obj \<Rightarrow> bool" where
  "verified cl r =
     (\<exists>t d. obj_get r ''id_token'' = JStr t \<and> decode t = Inr d \<and> js_same (claim d ''iss'') (JStr (tokenIssuer cl)) \<and>
        (\<forall>c. opt cl ''client_id'' = JStr c \<longrightarrow> audience_ok c d) \<and> obj_get r ''decodedToken'' = decoded_obj d)"

lemma verifyIdToken_verified:
  assumes "verifyIdToken E cl (obj_get tok ''id_token'') nonce org s = (Inr d, s')"
    and "obj_get r ''id_token'' = obj_get tok ''id_token''" "obj_get r ''decodedToken'' = decoded_obj d"
  shows "verified cl r"
proof -
  have "verify (e_showDate E) (e_Date_now E (outside (http_of s)))
        \<lparr>jo_iss = JStr (tokenIssuer cl), jo_aud = opt cl ''client_id'', jo_id_token = obj_get tok ''id_token'', jo_nonce = nonce,
         jo_leeway = opt cl ''leeway'', jo_max_age = parseNumber (opt cl ''max_age''),
         jo_organizationId = org, jo_now = JNum (e_now E (outside (http_of s)))\<rparr> = Inr d" (is "verify _ _ ?o = _")
    using assms(1) by (auto simp: verifyIdToken_run)
  then have v: "\<exists>t. obj_get tok ''id_token'' = JStr t \<and> decode t = Inr d" "check_iss ?o d = Inr ()" "check_aud ?o d = Inr ()"
    by (simp_all add: verify_checks)
  have "js_same (claim d ''iss'') (JStr (tokenIssuer cl))"
    using v(2) by (auto simp: check_iss_def split: if_splits)
  moreover have "audience_ok c d" if "opt cl ''client_id'' = JStr c" for c
    using v(3) check_aud_iff [of ?o c d] that by simp
  ultimately show ?thesis using v(1) assms(2,3) by (auto simp: verified_def)
qed

lemma result_get:
  "obj_get (obj_spread tok [(''decodedToken'', d), (''scope'', sc), (''oauthTokenScope'', os), (''audience'', a)]) ''id_token'' =
     obj_get tok ''id_token''"
  "obj_get (obj_spread tok [(''decodedToken'', d), (''scope'', sc), (''oauthTokenScope'', os), (''audience'', a)]) ''decodedToken'' = d"
  by (subst obj_get_spread; simp add: wf_obj_def obj_keys_def obj_get_def)+

lemma iframe_exchange_verified:
  assumes "iframe_exchange E cl options sec params url s = (Inr r, s')"
  shows "verified cl r"
proof -
  obtain tok d s1 s2 where "verifyIdToken E cl (obj_get tok ''id_token'') (JStr (nonceIn sec)) JUndef s1 = (Inr d, s2)"
    "\<exists>sc os a. r = obj_spread tok [(''decodedToken'', decoded_obj d), (''scope'', sc), (''oauthTokenScope'', os), (''audience'', a)]"
    using assms by (fastforce simp: iframe_exchange_def if_act bindE_Inr_iff eff_run split: if_splits)
  then show ?thesis using result_get by (metis verifyIdToken_verified)
qed

lemma iframe_verified:
  assumes "getTokenFromIFrame E cl options s = (Inr r, s')"
  shows "verified cl r"
proof -
  have "catchE m (login_required_logout cl) s = (Inr a, s') \<Longrightarrow> m s = (Inr a, s')" for m s a
    by (auto simp: catchE_def split: prod.splits sum.splits)
  then show ?thesis
    using assms iframe_exchange_verified
    by (fastforce simp: getTokenFromIFrame_def Let_def bindE_Inr_iff eff_run cookie_run)
qed

lemma refresh_verified:
  assumes "getTokenUsingRefreshToken E cl options s = (Inr r, s')"
  shows "verified cl r"
proof -
  let ?o = "obj_set ''scope''
      (JStr (getUniqueScopes [JStr (defaultScope cl), opt cl ''scope'', obj_get options ''scope''])) options"
  let ?m = "\<lambda>cached. catchE (bindE (token_request E cl (refresh_request E cl ?o cached)) (\<lambda>t. ret (Inr t)))
      (\<lambda>e. if refresh_fallback e then bindE (getTokenFromIFrame E cl ?o) (\<lambda>t. ret (Inl t)) else throw e)"
  obtain cached s1 where 1: "(if \<not> truthy cached \<and> \<not> worker cl then getTokenFromIFrame E cl ?o
      else bindE (?m cached) (\<lambda>r. case r of Inl t \<Rightarrow> ret t
        | Inr tokenResult \<Rightarrow> bindE (verifyIdToken E cl (obj_get tokenResult ''id_token'') JUndef JUndef) (\<lambda>d.
            ret (obj_spread tokenResult [(''decodedToken'', decoded_obj d), (''scope'', obj_get ?o ''scope''),
               (''oauthTokenScope'', obj_get tokenResult ''scope''),
               (''audience'', js_or (obj_get ?o ''audience'') (JStr ''default''))])))) s1 = (Inr r, s')"
    using assms unfolding getTokenUsingRefreshToken_def Let_def by (elim bindE_InrE) blast
  show ?thesis
  proof (cases "\<not> truthy cached \<and> \<not> worker cl")
    case True
    with 1 show ?thesis using iframe_verified by simp
  next
    case False
    from 1 [unfolded if_not_P [OF False]] obtain x s2 where x: "?m cached s1 = (Inr x, s2)"
      and r: "(case x of Inl t \<Rightarrow> ret t
        | Inr tokenResult \<Rightarrow> bindE (verifyIdToken E cl (obj_get tokenResult ''id_token'') JUndef JUndef) (\<lambda>d.
            ret (obj_spread tokenResult [(''decodedToken'', decoded_obj d), (''scope'', obj_get ?o ''scope''),
               (''oauthTokenScope'', obj_get tokenResult ''scope''),
               (''audience'', js_or (obj_get ?o ''audience'') (JStr ''default''))]))) s2 = (Inr r, s')"
      by (rule bindE_InrE)
    show ?thesis
    proof (cases x)
      case (Inl t)
      then obtain s0 where "getTokenFromIFrame E cl ?o s0 = (Inr t, s2)"
        using x by (auto simp: catchE_def bindE_def eff_run if_act split: prod.splits sum.splits if_splits)
      with Inl r show ?thesis using iframe_verified by (simp add: eff_run)
    next
      case (Inr tok)
      with r show ?thesis using result_get verifyIdToken_verified by (fastforce simp: bindE_Inr_iff eff_run)
    qed
  qed
qed


section \<open>Sessions\<close>

text \<open>
  Without the cookie of an earlier session, \<open>checkSession\<close> does nothing at all.
\<close>

theorem checkSession_without_cookie:
  assumes "cs_get (cookieStorage cl) (isAuthenticatedCookieName cl) (site_of s) = Inr v" and "\<not> truthy v"
    and "cs_get (cookieStorage cl) OLD_IS_AUTHENTICATED_COOKIE_NAME (site_of s) = Inr v'" and "\<not> truthy v'"
  shows "checkSession E cl options s = (Inr (), s)"
  using assms by (simp add: checkSession_def bindE_def act_run)

text \<open>
  \<open>checkSession\<close> lets only those errors of the silent request through from which an interactive
  login would not recover.
\<close>

theorem checkSession_error:
  assumes "checkSession E cl options s = (Inl e, s')"
    and "cs_get (cookieStorage cl) (isAuthenticatedCookieName cl) (site_of s) = Inr v" and "truthy v"
  shows "getTokenSilently E cl options s = (Inl e, s') \<and> err_error e \<notin> JStr ` set RECOVERABLE_ERRORS"
  using assms
  by (auto simp: checkSession_def bindE_def act_run catchE_def split: prod.splits sum.splits if_splits)

end
