(* ===== verification/Client_Flows.thy ===== *)
theory Client_Flows
  imports Client_Properties
begin

text \<open>
  Properties of whole flows: what the constructor builds, a login by redirect from the first call to
  the session it leaves, the popup login, and the key that merges silent requests.
\<close>

section \<open>Construction\<close>

lemma tokens_unique: "w \<in> set (tokens (getUniqueScopes scopes)) \<longleftrightarrow> (\<exists>v \<in> set scopes. w \<in> set (tokens (join_text v)))"
  by (auto simp: tokens_getUniqueScopes)

lemma one_token: "tokens ''openid'' = [''openid'']" "tokens ''offline_access'' = [''offline_access'']"
  by code_simp+

lemma chosen_cache:
  assumes "choose_cache own options = Inr (location, cache)"
  shows "if truthy (obj_get options ''cache'') then cache = own \<and> location = JUndef
         else (cache = InMemoryCache \<or> cache = LocalStorageCache) \<and> (location = JStr ''memory'' \<longrightarrow> cache = InMemoryCache)"
  using assms by (auto simp: choose_cache_def cacheFactory_def Let_def split: if_splits)

text \<open>
  C25: what a successful construction gives: the transactions go to one of the storages of the library;
  without a cache of the application the client has a built-in one, which needs no manifest; the
  worker is used only with refresh tokens and the in-memory cache; \<open>openid\<close> is always asked for, and
  \<open>offline_access\<close> with refresh tokens.
\<close>

theorem new_client_typed:
  assumes "new_AuthokClient E own options st = Inr (cl, tm)"
  shows "tm_storage tm \<in> transaction_storages (e_cookies E) \<and>
    (cookieStorage cl = CookieStorage (e_cookies E) \<or> cookieStorage cl = CookieStorageWithLegacySameSite (e_cookies E)) \<and>
    (if truthy (obj_get options ''cache'') then cm_cache (cacheManager cl) = own \<and> \<not> worker cl else built_in cl) \<and>
    (worker cl \<longrightarrow> cacheManager cl = manager InMemoryCache \<and> truthy (obj_get options ''useRefreshTokens'')) \<and>
    ''openid'' \<in> set (tokens (defaultScope cl)) \<and>
    (truthy (obj_get options ''useRefreshTokens'') \<longrightarrow> ''offline_access'' \<in> set (tokens (join_text (cl_scope cl))))"
proof -
  obtain location cache issuer where c: "choose_cache own options = Inr (location, cache)"
    "new_TransactionManager (if truthy (obj_get options ''useCookiesForTransactions'')
        then (if obj_get options ''legacySameSiteCookie'' = JBool False
              then CookieStorage (e_cookies E) else CookieStorageWithLegacySameSite (e_cookies E)) else SessionStorage)
       (to_string (obj_get options ''client_id'')) st = Inr tm"
    "cl_options cl = options" "cookieStorage cl = (if obj_get options ''legacySameSiteCookie'' = JBool False
              then CookieStorage (e_cookies E) else CookieStorageWithLegacySameSite (e_cookies E))"
    "cacheManager cl = \<lparr>cm_cache = cache,
       cm_manifest = (if ic_allKeys cache = None then Some (to_string (obj_get options ''client_id'')) else None)\<rparr>"
    "worker cl = (e_Worker E \<and> truthy (obj_get options ''useRefreshTokens'') \<and> location = JStr CACHE_LOCATION_MEMORY \<and>
       supportWebWorker (e_userAgent E))"
    "defaultScope cl = default_scope options"
    "cl_scope cl = (if truthy (obj_get options ''useRefreshTokens'')
       then JStr (getUniqueScopes [obj_get options ''scope'', JStr ''offline_access'']) else obj_get options ''scope'')"
    using assms by (auto simp: new_AuthokClient_def Let_def bindR_Inr_iff)
  have "tm_storage tm \<in> transaction_storages (e_cookies E)"
    using c(2) by (auto simp: new_TransactionManager_def Let_def bindR_Inr_iff transaction_storages_def split: if_splits)
  moreover have "''openid'' \<in> set (tokens (defaultScope cl))"
    by (simp add: c(7) default_scope_def Let_def tokens_unique one_token)
  moreover have "truthy (obj_get options ''useRefreshTokens'') \<longrightarrow> ''offline_access'' \<in> set (tokens (join_text (cl_scope cl)))"
    by (simp add: c(8) tokens_unique one_token)
  moreover have "if truthy (obj_get options ''cache'') then cm_cache (cacheManager cl) = own \<and> \<not> worker cl else built_in cl"
    using chosen_cache [OF c(1)] by (auto simp: memory.allKeys local.allKeys c(3,5,6) built_in_def opt_def manager_def split: if_splits)
  moreover have "worker cl \<longrightarrow> cacheManager cl = manager InMemoryCache \<and> truthy (obj_get options ''useRefreshTokens'')"
    using chosen_cache [OF c(1)] by (auto simp: memory.allKeys local.allKeys c(5,6) manager_def CACHE_LOCATION_MEMORY_def split: if_splits)
  ultimately show ?thesis using c(4) by simp
qed

section \<open>A login by redirect, from start to session\<close>

lemma js_or_absorb: "js_or (js_or JUndef v) w = js_or v w"
  by (simp add: js_or_def)

text \<open>The transaction that an authorization URL without options of its own records.\<close>

lemma authorize_transaction:
  assumes "buildAuthorizeUrl E cl [] s = (Inr url, s1)" and "\<And>w. fst (e_random E w) \<noteq> []"
    and "tm_get (transactions s1) = JObj tr"
  shows "truthy (obj_get tr ''code_verifier'') \<and> obj_get tr ''scope'' = scopes_of cl JUndef \<and>
    obj_get tr ''audience'' = js_or (opt cl ''audience'') (JStr ''default'') \<and> obj_get tr ''appState'' = JUndef \<and>
    js_same (obj_get tr ''state'') (obj_get tr ''state'') \<and> store_of s1 = store_of s"
proof -
  obtain sec s0 base where sec: "make_secrets E s = (Inr sec, s0)"
    and s1: "s1 = snd (transaction_create
       ([(''nonce'', JStr (nonceIn sec)), (''code_verifier'', JStr (code_verifier sec)),
         (''appState'', JUndef), (''scope'', obj_get (getParams cl [] (stateIn sec) (nonceIn sec) (code_challenge sec) JUndef) ''scope''),
         (''audience'', js_or (obj_get (getParams cl [] (stateIn sec) (nonceIn sec) (code_challenge sec) JUndef) ''audience'') (JStr ''default'')),
         (''redirect_uri'', obj_get (getParams cl [] (stateIn sec) (nonceIn sec) (code_challenge sec) JUndef) ''redirect_uri''),
         (''state'', JStr (stateIn sec))] @
        (if truthy (js_or JUndef (opt cl ''organization'')) then [(''organizationId'', js_or JUndef (opt cl ''organization''))] else [])) s0)"
    using assms(1) by (auto simp: buildAuthorizeUrl_def Let_def bindE_Inr_iff eff_run obj_get_def [of "[]"] obj_omit_def
        transaction_create_def)
  have "code_verifier sec \<noteq> []" "store_of s0 = store_of s"
    using sec assms(2) by (auto simp: make_secrets_def random_string_def bindE_Inr_iff act_run createRandomString_def)
  moreover have "obj_get (getParams cl [] a b c JUndef) ''audience'' = opt cl ''audience''" for a b c
    by (simp add: getParams_fixed obj_get_spread wf_obj_def obj_keys_def opt_def client_only_options_def)
  moreover have "obj_get (getParams cl [] a b c JUndef) ''scope'' = scopes_of cl JUndef" for a b c
    by (simp add: getParams_fixed scopes_of_def) (simp add: obj_get_def)
  ultimately show ?thesis
    using assms(3) unfolding s1
    by (auto simp: transaction_create_def tm_create_def tm_get_def eff_run obj_get_def [of "_ # _"] split: prod.splits)
qed

text \<open>Storing the entry of a login: the rest of the world is only touched in its cookies.\<close>

lemma finish_login_stores:
  assumes "cacheManager cl = manager InMemoryCache" and "wf_store (store_of s)" and "token_entry entry e x"
  shows "\<exists>t c. finish_login E cl entry d s = (Inr (), s\<lparr>store_of := t, site_of := c\<rparr>) \<and> wf_store t \<and>
    mem_view t = (mem_view (store_of s))(toKey (fromCacheEntry entry) \<mapsto>
      wrapped entry (expiry (e_now E (outside (http_of s))) e x))"
proof -
  obtain t where "cm_set (cacheManager cl) entry (e_now E (outside (http_of s))) (store_of s) = (Inr (), t)" "wf_store t"
     "mem_view t = (mem_view (store_of s))(toKey (fromCacheEntry entry) \<mapsto>
        wrapped entry (expiry (e_now E (outside (http_of s))) e x))"
    using memory.cm_set_view [OF assms(2) _ _ wrap_token_entry [OF assms(3)], of "manager InMemoryCache"] assms(1)
    by (auto simp: manager_def wrapped_def)
  then show ?thesis
    by (auto simp: finish_login_def cache_set_def processOrgIdHint_def bindE_def act_run)
qed

lemma redirect_entry_get:
  "obj_get (redirect_entry cl tr toks d) ''decodedToken'' = decoded_obj d"
  "obj_get (redirect_entry cl tr toks d) ''scope'' = obj_get tr ''scope''"
  "obj_get (redirect_entry cl tr toks d) ''audience'' = obj_get tr ''audience''"
  "obj_get (redirect_entry cl tr toks d) ''client_id'' = opt cl ''client_id''"
  "obj_get (redirect_entry cl tr toks d) ''expires_in'' = obj_get toks ''expires_in''"
  "obj_get (redirect_entry cl tr toks d) ''access_token'' = obj_get toks ''access_token''"
  unfolding redirect_entry_def by (subst obj_get_spread; simp add: wf_obj_def obj_keys_def obj_get_def)+

text \<open>What the cached tokens of a user are good for, until a minute before they expire.\<close>

lemma plain_silent_options:
  "obj_get (silent_options cl []) ''audience'' = opt cl ''audience''"
  "\<not> truthy (obj_get (silent_options cl []) ''ignoreCache'')" "\<not> truthy (obj_get (silent_options cl []) ''detailedResponse'')"
  "audience_of cl [] = js_or (opt cl ''audience'') (JStr ''default'')"
  by (simp_all add: silent_options_def audience_of_def) (simp_all add: obj_get_def obj_spread_def js_or_absorb)

context icache_laws
begin

lemma cached_session:
  assumes "cm_cache (cacheManager cl) = C" and "wf (store_of s)"
    and "view (store_of s) (toKey (CacheKey (opt cl ''client_id'')
           (js_or (opt cl ''audience'') (JStr ''default'')) (scopes_of cl JUndef))) = Some (wrapped entry t)"
    and "js_floor (e_now E (outside (http_of s)) / 1000) \<le> t - 60" and "truthy (obj_get entry ''access_token'')"
    and "obj_get entry ''decodedToken'' = decoded_obj d"
  shows "(\<exists>s'. isAuthenticated E cl s = (Inr True, s')) \<and>
    (\<exists>t'. getTokenSilently E cl [] s = (Inr (obj_get entry ''access_token''), s\<lparr>store_of := t'\<rparr>) \<and>
       view t' = view (store_of s) \<and> wf t')"
proof
  have o: "obj_get [] ''scope'' = JUndef" by (simp add: obj_get_def)
  have "token_part ''user'' (JObj entry) = Inr (JObj (user d))"
    by (simp add: token_part_def assms(6) decoded_obj_def) (simp add: obj_get_def)
  moreover have "js_floor (e_now E (outside (http_of s)) / 1000) \<le> t - 0" using assms(4) by simp
  ultimately show "\<exists>s'. isAuthenticated E cl s = (Inr True, s')"
    using cache_get_hit [OF assms(1-3), of E 0]
    by (auto simp: isAuthenticated_def getUser_def cached_entry_def bindE_def eff_run o plain_silent_options(4)
        DEFAULT_EXPIRY_ADJUSTMENT_SECONDS_def)
  show "\<exists>t'. getTokenSilently E cl [] s = (Inr (obj_get entry ''access_token''), s\<lparr>store_of := t'\<rparr>) \<and>
       view t' = view (store_of s) \<and> wf t'"
    using silent_cached [OF assms(1,2) _ assms(4,5) plain_silent_options(2,3)] assms(3) by (simp add: o plain_silent_options(1))
qed

end

text \<open>The callback of an honest login, and the entry it leaves in the cache.\<close>

lemma redirect_login_stores:
  assumes "cacheManager cl = manager InMemoryCache" and "wf_store (store_of s)" and "\<And>w. fst (e_random E w) \<noteq> []"
    and "buildAuthorizeUrl E cl [] s = (Inr url, s1)" and "tm_get (transactions s1) = JObj tr"
    and "tl (split_on ''?'' back) \<noteq> []" and "parseQueryResult (concat (tl (split_on ''?'' back))) = Inr q"
    and "\<not> truthy (obj_get q ''error'')" and "obj_get q ''state'' = obj_get tr ''state''"
    and "token_request E cl (redirect_request cl tr q) (snd (transaction_remove s1)) = (Inr toks, s2)"
    and "verifyIdToken E cl (obj_get toks ''id_token'') (obj_get tr ''nonce'') (obj_get tr ''organizationId'') s2 = (Inr d, s2)"
    and "obj_get toks ''expires_in'' = JNum e" and "claim d ''exp'' = JNum x"
  shows "\<exists>t c. handleRedirectCallback E cl back s1 = (Inr [(''appState'', JUndef)], s2\<lparr>store_of := t, site_of := c\<rparr>) \<and> wf_store t \<and>
    mem_view t (toKey (CacheKey (opt cl ''client_id'') (js_or (opt cl ''audience'') (JStr ''default'')) (scopes_of cl JUndef))) =
      Some (wrapped (redirect_entry cl tr toks d) (expiry (e_now E (outside (http_of s2))) e x))"
proof -
  let ?entry = "redirect_entry cl tr toks d"
  have tr: "truthy (obj_get tr ''code_verifier'')" "obj_get tr ''scope'' = scopes_of cl JUndef"
    "obj_get tr ''audience'' = js_or (opt cl ''audience'') (JStr ''default'')" "obj_get tr ''appState'' = JUndef"
    "js_same (obj_get tr ''state'') (obj_get tr ''state'')" "store_of s1 = store_of s"
    using authorize_transaction [OF assms(4,3,5)] by simp_all
  have "store_of s2 = store_of s"
    using assms(10) tr(6) by (auto simp: token_request_def on_http_run transaction_remove_run)
  then have wf: "wf_store (store_of s2)" using assms(2) by simp
  have te: "token_entry ?entry e x"
    using assms(12,13) by (simp add: token_entry_def redirect_entry_get decoded_obj_def claim_def) (simp add: obj_get_def)
  obtain t c where fl: "finish_login E cl ?entry d s2 = (Inr (), s2\<lparr>store_of := t, site_of := c\<rparr>)" "wf_store t"
    "mem_view t = (mem_view (store_of s2))(toKey (fromCacheEntry ?entry) \<mapsto>
      wrapped ?entry (expiry (e_now E (outside (http_of s2))) e x))"
    using finish_login_stores [OF assms(1) wf te] by blast
  have "handleRedirectCallback E cl back s1 = finish_redirect E cl tr q (snd (transaction_remove s1))"
    using assms(5-7) by (simp add: handleRedirectCallback_def bindE_def eff_run transaction_remove_run)
  also have "\<dots> = (Inr [(''appState'', JUndef)], s2\<lparr>store_of := t, site_of := c\<rparr>)"
    using assms(8-11) tr(1,5) by (simp add: finish_redirect_def Let_def bindE_def fl(1) tr(4) eff_run)
  finally have cb: "handleRedirectCallback E cl back s1 = (Inr [(''appState'', JUndef)], s2\<lparr>store_of := t, site_of := c\<rparr>)" .
  have "fromCacheEntry ?entry = CacheKey (opt cl ''client_id'') (js_or (opt cl ''audience'') (JStr ''default'')) (scopes_of cl JUndef)"
    by (simp add: fromCacheEntry_def redirect_entry_get tr)
  with fl(2,3) cb show ?thesis by (intro exI [of _ t] exI [of _ c]) simp
qed

text \<open>
  C5: a login by redirect completes. The page asks for an authorization URL, the server sends the user
  back with the state of that request, answers the token request, and its ID token passes the checks;
  then the callback succeeds, and from that moment until a minute before the tokens expire the user is
  authenticated and the access token is handed out without any further request.
\<close>

theorem login_completes:
  assumes "cacheManager cl = manager InMemoryCache" and "wf_store (store_of s)" and "\<And>w. fst (e_random E w) \<noteq> []"
    and "buildAuthorizeUrl E cl [] s = (Inr url, s1)" and "tm_get (transactions s1) = JObj tr"
    and "tl (split_on ''?'' back) \<noteq> []" and "parseQueryResult (concat (tl (split_on ''?'' back))) = Inr q"
    and "\<not> truthy (obj_get q ''error'')" and "obj_get q ''state'' = obj_get tr ''state''"
    and "token_request E cl (redirect_request cl tr q) (snd (transaction_remove s1)) = (Inr toks, s2)"
    and "verifyIdToken E cl (obj_get toks ''id_token'') (obj_get tr ''nonce'') (obj_get tr ''organizationId'') s2 = (Inr d, s2)"
    and "obj_get toks ''expires_in'' = JNum e" and "claim d ''exp'' = JNum x" and "truthy (obj_get toks ''access_token'')"
  shows "\<exists>s3. handleRedirectCallback E cl back s1 = (Inr [(''appState'', JUndef)], s3) \<and>
    (\<forall>s4. store_of s4 = store_of s3 \<longrightarrow>
       js_floor (e_now E (outside (http_of s4)) / 1000) \<le> expiry (e_now E (outside (http_of s2))) e x - 60 \<longrightarrow>
       (\<exists>s5. isAuthenticated E cl s4 = (Inr True, s5)) \<and>
       (\<exists>s5. getTokenSilently E cl [] s4 = (Inr (obj_get toks ''access_token''), s5) \<and> http_of s5 = http_of s4))"
proof -
  obtain t c where cb: "handleRedirectCallback E cl back s1 = (Inr [(''appState'', JUndef)], s2\<lparr>store_of := t, site_of := c\<rparr>)" "wf_store t"
    "mem_view t (toKey (CacheKey (opt cl ''client_id'') (js_or (opt cl ''audience'') (JStr ''default'')) (scopes_of cl JUndef))) =
      Some (wrapped (redirect_entry cl tr toks d) (expiry (e_now E (outside (http_of s2))) e x))"
    using redirect_login_stores [OF assms(1-13)] by blast
  then show ?thesis
    using memory.cached_session [of cl, where entry = "redirect_entry cl tr toks d" and E = E and d = d] assms(1,14)
    by (intro exI [of _ "s2\<lparr>store_of := t, site_of := c\<rparr>"]) (fastforce simp: redirect_entry_get manager_def)
qed

section \<open>A login by popup\<close>


section \<open>Merging silent requests\<close>

text \<open>
  The key under which overlapping silent requests are merged leaves out whether the cache is to be ignored
  and whether the detailed response is wanted: such requests are answered with the result of the
  request they were merged with.
\<close>

theorem silent_key_ignores:
  assumes "wf_obj options"
  shows "silent_key cl (obj_set ''ignoreCache'' v options) = silent_key cl options"
    and "silent_key cl (obj_set ''detailedResponse'' v options) = silent_key cl options"
proof -
  have keys: "set (obj_keys (obj_set k v options)) = insert k (set (obj_keys options))" for k
    using dom_map_of_conv_image_fst [of "obj_set k v options"] dom_map_of_conv_image_fst [of options]
    by (simp add: obj_keys_def obj_set_def AList.update_conv')
  then show "silent_key cl (obj_set ''ignoreCache'' v options) = silent_key cl options"
    "silent_key cl (obj_set ''detailedResponse'' v options) = silent_key cl options"
    using assms by (simp_all add: silent_key_def silent_options_def obj_get_spread keys)
qed
section \<open>A session after a reload\<close>

text \<open>
  C22: a session kept in local storage survives a reload: when the page builds its client again and finds
  the session cookie and an entry with more than a minute to live, \<open>createAuthokClient\<close> gives the client
  without a request or a lock, the user is authenticated at once, and the access token is served from
  the cache.
\<close>

theorem session_survives_reload:
  assumes "new_AuthokClient E own options (site_of s) = Inr (cl, tm)" and "\<not> truthy (obj_get options ''cache'')"
    and "obj_get options ''cacheLocation'' = JStr ''localstorage''"
    and "cs_get (cookieStorage cl) (isAuthenticatedCookieName cl) (site_of s) = Inr v" and "truthy v"
    and "wf_store (store_of s)"
    and "local_view (store_of s) (toKey (CacheKey (opt cl ''client_id'')
           (js_or (opt cl ''audience'') (JStr ''default'')) (scopes_of cl JUndef))) = Some (wrapped entry t)"
    and "js_floor (e_now E (outside (http_of s)) / 1000) \<le> t - 60" and "truthy (obj_get entry ''access_token'')"
    and "obj_get entry ''decodedToken'' = decoded_obj d"
  shows "\<exists>s'. createAuthokClient E own options s = (Inr cl, s') \<and> http_of s' = http_of s \<and> site_of s' = site_of s \<and>
    (\<exists>s''. isAuthenticated E cl s' = (Inr True, s'')) \<and>
    (\<exists>s''. getTokenSilently E cl [] s' = (Inr (obj_get entry ''access_token''), s'') \<and> http_of s'' = http_of s)"
proof -
  have C: "cm_cache (cacheManager cl) = LocalStorageCache"
    using assms(1-3) by (auto simp: new_AuthokClient_def choose_cache_def cacheFactory_def js_or_def Let_def bindR_Inr_iff)
  let ?s = "s\<lparr>transactions := tm\<rparr>"
  obtain t1 where t1: "getTokenSilently E cl [] ?s = (Inr (obj_get entry ''access_token''), ?s\<lparr>store_of := t1\<rparr>)"
      "local_view t1 = local_view (store_of s)" "wf_store t1"
    using local.cached_session [OF C, of ?s entry t E d] assms(6-10) by auto
  have "checkSession E cl [] ?s = (Inr (), ?s\<lparr>store_of := t1\<rparr>)"
    using assms(4,5) t1(1) by (simp add: checkSession_def bindE_def catchE_def act_run)
  then have "createAuthokClient E own options s = (Inr cl, ?s\<lparr>store_of := t1\<rparr>)"
    using assms(1) by (simp add: createAuthokClient_def bindE_def eff_run)
  moreover have "(\<exists>s''. isAuthenticated E cl (?s\<lparr>store_of := t1\<rparr>) = (Inr True, s'')) \<and>
    (\<exists>t2. getTokenSilently E cl [] (?s\<lparr>store_of := t1\<rparr>) = (Inr (obj_get entry ''access_token''), ?s\<lparr>store_of := t1\<rparr>\<lparr>store_of := t2\<rparr>) \<and>
       local_view t2 = local_view t1 \<and> wf_store t2)"
    using local.cached_session [OF C, of "?s\<lparr>store_of := t1\<rparr>" entry t E d] assms(7-10) t1(2,3) by simp
  ultimately show ?thesis by auto
qed

section \<open>A login by iframe\<close>

lemma iframe_exchange_sound:
  fixes s :: "('x, 'c, 'w) world"
  assumes "iframe_exchange E cl options sec params url s = (Inr r, s')"
  shows "\<exists>ms result st code ob toks (s2 :: ('x, 'c, 'w) world) s3 d.
    runIframe (domainUrl cl) ms = Inr result \<and> js_prop result ''state'' = Inr st \<and> js_same (JStr (stateIn sec)) st \<and>
    js_prop result ''code'' = Inr code \<and> obj_get ob ''code'' = code \<and> obj_get ob ''code_verifier'' = JStr (code_verifier sec) \<and>
    token_request E cl ob s2 = (Inr toks, s3) \<and>
    verifyIdToken E cl (obj_get toks ''id_token'') (JStr (nonceIn sec)) JUndef s3 = (Inr d, s3) \<and>
    obj_get r ''access_token'' = obj_get toks ''access_token'' \<and> obj_get r ''decodedToken'' = decoded_obj d"
proof -
  let ?ob = "\<lambda>code. obj_spread
       (obj_spread (customOptions cl)
         (obj_omit [''scope'', ''audience'', ''redirect_uri'', ''ignoreCache'', ''timeoutInSeconds'', ''detailedResponse''] options))
       [(''scope'', obj_get options ''scope''), (''audience'', obj_get options ''audience''),
        (''baseUrl'', JStr (domainUrl cl)), (''client_id'', opt cl ''client_id''),
        (''code_verifier'', JStr (code_verifier sec)), (''code'', code),
        (''grant_type'', JStr ''authorization_code''), (''redirect_uri'', obj_get params ''redirect_uri''),
        (''authokClient'', opt cl ''authokClient''), (''useFormData'', opt cl ''useFormData'')]"
  obtain ms result st code s2 toks s3 s3' d where p: "runIframe (domainUrl cl) ms = Inr result" "js_prop result ''state'' = Inr st"
    "js_same (JStr (stateIn sec)) st" "js_prop result ''code'' = Inr code" "token_request E cl (?ob code) s2 = (Inr toks, s3)"
    "verifyIdToken E cl (obj_get toks ''id_token'') (JStr (nonceIn sec)) JUndef s3 = (Inr d, s3')"
    and r: "r = obj_spread toks [(''decodedToken'', decoded_obj d), (''scope'', obj_get params ''scope''),
        (''oauthTokenScope'', obj_get toks ''scope''), (''audience'', js_or (obj_get params ''audience'') (JStr ''default''))]"
    using assms unfolding iframe_exchange_def
    by (fastforce simp: bindE_Inr_iff eff_run if_act split: if_splits)
  have "s3' = s3" using verifyIdToken_sound [OF p(6)] by blast
  moreover have "obj_get (?ob code) ''code'' = code" "obj_get (?ob code) ''code_verifier'' = JStr (code_verifier sec)"
    by (subst obj_get_spread; simp add: wf_obj_def obj_keys_def obj_get_def)+
  moreover have "obj_get r ''access_token'' = obj_get toks ''access_token''" "obj_get r ''decodedToken'' = decoded_obj d"
    unfolding r by (subst obj_get_spread; simp add: wf_obj_def obj_keys_def obj_get_def)+
  ultimately show ?thesis using p by blast
qed


end
