(* ===== verification/Client_Examples.thy ===== *)
theory Client_Examples
  imports Client_Flows
begin

text \<open>
  A concrete page, client and network, and on them one run of every flow of the client: each property
  of \<open>Client_Properties\<close> and \<open>Client_Flows\<close> is applied at a run where its hypotheses hold.
\<close>

section \<open>A page, a client and a network\<close>

text \<open>The nonce of a page whose random bytes are all zero, and the token an issuer makes for it.\<close>

abbreviation zeros :: "8 word list" where
  "zeros \<equiv> replicate 43 0"

definition sample_nonce :: string where
  "sample_nonce = btoa_bytes (createRandomString zeros)"

definition sample_token :: string where
  "sample_token = mk_token sample_header (sample_payload sample_nonce 1700000000) ''sig''"

lemma sample_nonce_ascii: "ascii sample_nonce" "sample_nonce \<noteq> []"
  by code_simp+

definition sample_tokens :: obj where
  "sample_tokens = [(''id_token'', JStr sample_token), (''access_token'', JStr ''at''), (''expires_in'', JNum 86400)]"

text \<open>The answer of the authorization server to a popup.\<close>

definition popup_answer :: jsval where
  "popup_answer = JObj [(''type'', JStr ''authorization_response''),
     (''response'', JObj [(''code'', JStr ''c''), (''state'', JStr sample_nonce)])]"

definition sample_env :: "((string \<times> string) list, nat) env" where
  "sample_env =
     \<lparr>e_net = (\<lambda>rq n. (Response True (json_text (JObj sample_tokens)), n)), e_cookies = page_cookies,
      e_random = (\<lambda>n. (replicate 43 0, n)), e_digest = (\<lambda>s. Inr s), e_digestEvents = (\<lambda>s. []),
      e_now = (\<lambda>n. 1700000000000), e_Date_now = (\<lambda>n. 1700000000000), e_showDate = (\<lambda>d. []),
      e_iframe = (\<lambda>url t n. ([], n)), e_open = (\<lambda>a n. (Some 7, n)),
      e_popup = (\<lambda>w url t n. ([PopupMessage popup_answer], n)),
      e_acquireLock = (\<lambda>n. (n = 0, Suc n)), e_releaseLock = (\<lambda>n. 0), e_origin = ''https://app.cn'',
      e_box = \<lparr>screenX = 0, screenY = 0, innerWidth = 800, innerHeight = 800\<rparr>,
      e_crossOriginIsolated = False, e_crypto = \<lparr>w_crypto = Some \<lparr>cr_subtle = True, cr_webkitSubtle = False\<rparr>, w_msCrypto = None\<rparr>,
      e_Worker = True, e_userAgent = []\<rparr>"

definition sample_client :: "(unit, (string \<times> string) list) client" where
  "sample_client =
     \<lparr>cl_options = [(''domain'', JStr ''t.cn''), (''client_id'', JStr ''cid''), (''leeway'', JUndef)],
      cacheManager = manager InMemoryCache, domainUrl = ''https://t.cn'', tokenIssuer = ''https://t.cn/'',
      defaultScope = ''openid profile'', cl_scope = JUndef,
      cookieStorage = CookieStorageWithLegacySameSite page_cookies, sessionCheckExpiryDays = JNum 1,
      orgHintCookieName = ''authok.cid.organization_hint'', isAuthenticatedCookieName = ''authok.cid.is.authenticated'',
      cacheLocation = JStr ''memory'', worker = False, customOptions = []\<rparr>"

text \<open>The same client with refresh tokens.\<close>

definition refresh_client :: "(unit, (string \<times> string) list) client" where
  "refresh_client = sample_client
     \<lparr>cl_options := (''useRefreshTokens'', JBool True) # cl_options sample_client, cl_scope := JStr ''offline_access''\<rparr>"

definition like_sample :: "(unit, (string \<times> string) list) client \<Rightarrow> bool" where
  "like_sample cl = (opt cl ''client_id'' = JStr ''cid'' \<and> opt cl ''leeway'' = JUndef \<and> opt cl ''max_age'' = JUndef \<and>
     opt cl ''authokClient'' = JUndef \<and> opt cl ''cache'' = JUndef \<and> opt cl ''scope'' = JUndef \<and>
     opt cl ''redirect_uri'' = JUndef \<and> opt cl ''audience'' = JUndef \<and> opt cl ''useFormData'' = JUndef \<and>
     opt cl ''organization'' = JUndef \<and>
     tokenIssuer cl = ''https://t.cn/'' \<and> defaultScope cl = ''openid profile'' \<and> \<not> worker cl \<and> customOptions cl = [] \<and>
     cacheManager cl = manager InMemoryCache \<and> cookieStorage cl = CookieStorageWithLegacySameSite page_cookies)"

lemma samples_alike: "like_sample sample_client" "like_sample refresh_client"
  by (simp_all add: like_sample_def sample_client_def refresh_client_def opt_def obj_get_def)

definition redirect_transaction :: obj where
  "redirect_transaction =
     [(''nonce'', JStr sample_nonce), (''code_verifier'', JStr ''v''), (''scope'', JStr ''openid''),
      (''audience'', JStr ''default''), (''state'', JStr ''s'')]"

definition sample_world :: "(unit, (string \<times> string) list, nat) world" where
  "sample_world =
     \<lparr>store_of = empty_store (), site_of = empty_site,
      http_of = \<lparr>outside = 0, requests = [], refreshTokens = []\<rparr>,
      transactions = \<lparr>tm_storage = SessionStorage, tm_storageKey = ''a0.spajs.txs.cid'', tm_transaction = JObj redirect_transaction\<rparr>,
      visited = []\<rparr>"

lemma sample_tokens_ok: "JSON_parse (json_text (JObj sample_tokens)) = Inr (JObj sample_tokens)"
  by (rule JSON_parse_text) (simp add: sample_tokens_def)

lemma sample_request:
  assumes "like_sample cl" and "obj_get ob ''authokClient'' = JUndef"
  shows "\<exists>h. token_request sample_env cl ob s = (Inr sample_tokens, s\<lparr>http_of := h\<rparr>)"
proof -
  obtain hdr where hdr: "client_header JUndef = Inr hdr" using client_header_default by blast
  have "\<exists>h'. switchFetch (e_net sample_env) url a sc opts False fd tmo h = (Inr (fetch_result True (JObj sample_tokens)), h')"
    for url a sc opts fd tmo h
    by (simp add: switchFetch_def fetchWithoutWorker_def bindE_def send_run sample_env_def sample_tokens_ok eff_run
        del: stringify.simps)
  moreover have "read_response url (fetch_result True (JObj sample_tokens)) = Inr sample_tokens" for url
    by (simp add: read_response_def fetch_result_def sample_tokens_def obj_get_def obj_omit_def)
  ultimately have "\<exists>h'. getJSON (e_net sample_env) url tmo a sc opts False fd h = (Inr sample_tokens, h')"
    for url tmo a sc opts fd h
    by (metis getJSON_first)
  then obtain h' where "oauthToken (e_net sample_env) ob False (http_of s) = (Inr sample_tokens, h')"
    by (fastforce simp: oauthToken_def Let_def assms(2) hdr bindE_def eff_run)
  then show ?thesis using assms(1) by (auto simp: token_request_def on_http_run like_sample_def)
qed

lemma verify_without_nonce:
  assumes "verify sd dn opts = Inr d"
  shows "verify sd dn (opts\<lparr>jo_nonce := JUndef\<rparr>) = Inr d"
proof -
  let ?o = "opts\<lparr>jo_nonce := JUndef\<rparr>"
  have "check_iss ?o d = check_iss opts d" "check_numbers ?o d = check_numbers opts d"
    "check_times sd dn ?o d = check_times sd dn opts d" "check_org ?o d = check_org opts d"
    "check_nonce ?o d = Inr ()" "jo_id_token ?o = jo_id_token opts"
    by (simp_all add: check_iss_def check_numbers_def check_times_def check_org_def check_nonce_def cong: if_cong)
  moreover have "check_aud ?o d = check_aud opts d"
    unfolding check_aud_def by (simp cong: jsval.case_cong if_cong)
  ultimately show ?thesis using assms by (simp add: verify_checks)
qed

lemma sample_id_token:
  obtains d where
    "\<And>cl s. like_sample cl \<Longrightarrow> verifyIdToken sample_env cl (JStr sample_token) (JStr sample_nonce) JUndef s = (Inr d, s)"
    "\<And>cl s. like_sample cl \<Longrightarrow> verifyIdToken sample_env cl (JStr sample_token) JUndef JUndef s = (Inr d, s)"
    "claim d ''exp'' = JNum 1700003600"
proof -
  have n: "1000 * js_trunc (1700000000 - 60) \<le> 1700000000000" by (simp add: js_trunc_def)
  obtain d where d: "verify (\<lambda>d. []) 1700000000000 (sample_options sample_nonce 1700000000) = Inr d" "claim d ''exp'' = JNum 1700003600"
    using sample_verified [of 1700000000 sample_nonce "\<lambda>d. []" 1700000000000] n sample_nonce_ascii is_decimal_int(1) by metis
  have "verify (\<lambda>d. []) 1700000000000 ((sample_options sample_nonce 1700000000)\<lparr>jo_nonce := JUndef\<rparr>) = Inr d"
    by (rule verify_without_nonce [OF d(1)])
  with d show thesis
    by (intro that) (simp_all add: verifyIdToken_run like_sample_def parseNumber_def sample_env_def sample_options_def sample_token_def)
qed

lemma decoded_exp: "claim d ''exp'' = v \<Longrightarrow> \<exists>cl. js_prop (decoded_obj d) ''claims'' = Inr (JObj cl) \<and> obj_get cl ''exp'' = v"
  by (simp add: decoded_obj_def obj_get_def [of "_ # _"] claim_def)

lemma sample_cache_set:
  assumes "like_sample cl" and "obj_get entry ''decodedToken'' = decoded_obj d" and "claim d ''exp'' = JNum x"
  shows "\<exists>t. cache_set sample_env cl entry s = (Inr (), s\<lparr>store_of := t\<rparr>)"
proof -
  obtain cs where "js_prop (decoded_obj d) ''claims'' = Inr (JObj cs)" "obj_get cs ''exp'' = JNum x"
    using decoded_exp [OF assms(3)] by blast
  then have "\<exists>w. wrapCacheEntry entry now = Inr w" for now
    by (simp add: wrapCacheEntry_def assms(2))
  then obtain w where "wrapCacheEntry entry (e_now sample_env (outside (http_of s))) = Inr w" by blast
  moreover have "cacheManager cl = manager InMemoryCache" using assms(1) by (simp add: like_sample_def)
  ultimately show ?thesis
    by (simp add: cache_set_def bindE_def act_run cm_set_def Let_def write_obj_def opt_manifest_def alloc_def manager_def) blast
qed

lemma sample_finish_login:
  assumes "like_sample cl" and "obj_get entry ''decodedToken'' = decoded_obj d" and "claim d ''exp'' = JNum x"
  shows "\<exists>s'. finish_login sample_env cl entry d s = (Inr (), s')"
  using sample_cache_set [OF assms, of s]
  by (auto simp: finish_login_def bindE_def act_run processOrgIdHint_def)

section \<open>A redirect callback\<close>

abbreviation callback_url :: string where
  "callback_url \<equiv> ''https://app.cn/?code=c&state=s''"

lemma sample_query: "parseQueryResult ''code=c&state=s'' = Inr [(''code'', JStr ''c''), (''state'', JStr ''s'')]"
  by code_simp

lemma callback_url_query: "tl (split_on ''?'' callback_url) = [''code=c&state=s'']"
  by simp

lemma sample_transaction_world: "tm_get (transactions sample_world) = JObj redirect_transaction"
  by (simp add: sample_world_def tm_get_def)

lemma sample_finish_redirect:
  "\<exists>s'. finish_redirect sample_env sample_client redirect_transaction [(''code'', JStr ''c''), (''state'', JStr ''s'')] s =
     (Inr [(''appState'', JUndef)], s')"
proof -
  let ?q = "[(''code'', JStr ''c''), (''state'', JStr ''s'')]" and ?tr = redirect_transaction and ?cl = sample_client
  obtain d where d: "\<And>s. verifyIdToken sample_env ?cl (JStr sample_token) (JStr sample_nonce) JUndef s = (Inr d, s)"
    "claim d ''exp'' = JNum 1700003600"
    using sample_id_token samples_alike(1) by metis
  have tr: "obj_get ?tr ''nonce'' = JStr sample_nonce" "obj_get ?tr ''organizationId'' = JUndef" "obj_get ?tr ''appState'' = JUndef"
    "obj_get ?tr ''code_verifier'' = JStr ''v''" "obj_get ?tr ''state'' = JStr ''s''" "obj_get ?tr ''redirect_uri'' = JUndef"
    "obj_get sample_tokens ''id_token'' = JStr sample_token" "obj_get sample_tokens ''scope'' = JUndef"
    "obj_get ?q ''error'' = JUndef" "obj_get ?q ''state'' = JStr ''s''"
    by (simp_all add: redirect_transaction_def sample_tokens_def obj_get_def)
  have "obj_get (redirect_request ?cl ?tr ?q) ''authokClient'' = JUndef"
    using samples_alike(1) by (simp add: redirect_request_def obj_get_def like_sample_def)
  then obtain h where h: "token_request sample_env ?cl (redirect_request ?cl ?tr ?q) s = (Inr sample_tokens, s\<lparr>http_of := h\<rparr>)"
    using sample_request [OF samples_alike(1)] by blast
  have "obj_get (redirect_entry ?cl ?tr sample_tokens d) ''decodedToken'' = decoded_obj d"
    unfolding redirect_entry_def by (subst obj_get_spread; simp add: wf_obj_def obj_keys_def obj_get_def)
  then obtain s' where s': "finish_login sample_env ?cl (redirect_entry ?cl ?tr sample_tokens d) d (s\<lparr>http_of := h\<rparr>) = (Inr (), s')"
    using sample_finish_login [OF samples_alike(1) _ d(2)] by blast
  have "finish_redirect sample_env ?cl ?tr ?q s = (Inr [(''appState'', JUndef)], s')"
    unfolding finish_redirect_def Let_def by (simp add: tr bindE_def eff_run h d(1) s')
  then show ?thesis by blast
qed

lemma sample_callback:
  "\<exists>s'. handleRedirectCallback sample_env sample_client callback_url sample_world = (Inr [(''appState'', JUndef)], s')"
proof -
  have "handleRedirectCallback sample_env sample_client callback_url sample_world =
      finish_redirect sample_env sample_client redirect_transaction [(''code'', JStr ''c''), (''state'', JStr ''s'')]
        (snd (transaction_remove sample_world))"
    unfolding handleRedirectCallback_def Let_def callback_url_query
    by (simp add: bindE_def eff_run sample_query sample_transaction_world transaction_remove_run)
  then show ?thesis using sample_finish_redirect by metis
qed


theorem callback_sound_witness:
  "\<exists>t d. decode t = Inr d \<and> js_same (claim d ''iss'') (JStr ''https://t.cn/'') \<and> expects (JStr sample_nonce) (claim d ''nonce'')"
proof -
  obtain s' where "handleRedirectCallback sample_env sample_client callback_url sample_world = (Inr [(''appState'', JUndef)], s')"
    using sample_callback by blast
  from callback_sound [OF this sample_transaction_world] show ?thesis
    by (auto simp: sample_client_def redirect_transaction_def obj_get_def)
qed

section \<open>An authorization URL\<close>


lemma btoa_random: "btoa (createRandomString rs) = Inr (btoa_bytes (createRandomString rs))"
proof -
  have "list_all (in_range 0 127) (createRandomString rs)"
    using createRandomString_chars charset_unreserved by (fastforce simp: list_all_iff)
  then show ?thesis by (simp add: btoa_def latin1_ascii)
qed

definition sample_sec :: secrets where
  "sample_sec = \<lparr>stateIn = sample_nonce, nonceIn = sample_nonce, code_verifier = createRandomString zeros,
     code_challenge = bufferToBase64UrlEncoded (createRandomString zeros)\<rparr>"

lemma sample_digest: "sha256_of sample_env s = Inr s"
  by (simp add: sha256_of_def sha256_def getCryptoSubtle_def getCrypto_def sample_env_def)

lemma sample_secrets: "make_secrets sample_env s = (Inr sample_sec, s :: (unit, (string \<times> string) list, nat) world)"
proof -
  have "random_string sample_env s = (Inr (createRandomString zeros), s)" for s :: "(unit, (string \<times> string) list, nat) world"
    by (simp add: random_string_def bindE_def act_run sample_env_def del: replicate.simps)
  then show ?thesis
    by (simp add: make_secrets_def bindE_def eff_run sample_digest sample_sec_def sample_nonce_def btoa_random)
qed

lemma sample_url: "like_sample cl \<Longrightarrow> \<exists>url. authorizeUrl cl params = Inr url"
  using client_header_default by (auto simp: authorizeUrl_def url_for_def like_sample_def)

lemma sample_authorize:
  "\<exists>url s' tr. buildAuthorizeUrl sample_env sample_client [] sample_world = (Inr url, s') \<and>
     tm_get (transactions s') = JObj tr \<and> obj_get tr ''state'' = JStr sample_nonce \<and>
     obj_get tr ''nonce'' = JStr sample_nonce \<and> obj_get tr ''organizationId'' = JUndef"
proof -
  obtain url where url: "authorizeUrl sample_client (getParams sample_client (obj_omit [''redirect_uri'', ''appState''] [])
      (stateIn sample_sec) (nonceIn sample_sec) (code_challenge sample_sec) (obj_get [] ''redirect_uri'')) = Inr url"
    using sample_url [OF samples_alike(1)] by blast
  have o: "js_or (obj_get [] ''organization'') (opt sample_client ''organization'') = JUndef"
    using samples_alike(1) by (simp add: like_sample_def js_or_def obj_get_def)
  obtain u s' tr where "buildAuthorizeUrl sample_env sample_client [] sample_world = (Inr u, s')"
     "tm_get (transactions s') = JObj tr" "tr = [(''nonce'', JStr sample_nonce),
        (''code_verifier'', JStr (code_verifier sample_sec)), (''appState'', obj_get [] ''appState''),
        (''scope'', obj_get (getParams sample_client (obj_omit [''redirect_uri'', ''appState''] [])
           (stateIn sample_sec) (nonceIn sample_sec) (code_challenge sample_sec) (obj_get [] ''redirect_uri'')) ''scope''),
        (''audience'', js_or (obj_get (getParams sample_client (obj_omit [''redirect_uri'', ''appState''] [])
           (stateIn sample_sec) (nonceIn sample_sec) (code_challenge sample_sec) (obj_get [] ''redirect_uri'')) ''audience'') (JStr ''default'')),
        (''redirect_uri'', obj_get (getParams sample_client (obj_omit [''redirect_uri'', ''appState''] [])
           (stateIn sample_sec) (nonceIn sample_sec) (code_challenge sample_sec) (obj_get [] ''redirect_uri'')) ''redirect_uri''),
        (''state'', JStr sample_nonce)]"
    using url unfolding buildAuthorizeUrl_def Let_def o
    by (auto simp: bindE_def sample_secrets eff_run transaction_create_def tm_create_def tm_get_def sample_sec_def
        split: prod.split)
  then show ?thesis by (auto simp: obj_get_def)
qed

theorem buildAuthorizeUrl_transaction_witness:
  "\<exists>url s' tr ver. buildAuthorizeUrl sample_env sample_client [] sample_world = (Inr url, s') \<and>
     tm_get (transactions s') = JObj tr \<and> obj_get tr ''code_verifier'' = JStr ver"
proof -
  obtain url s' where u: "buildAuthorizeUrl sample_env sample_client [] sample_world = (Inr url, s')"
    using sample_authorize by blast
  from buildAuthorizeUrl_transaction [OF u] u show ?thesis by blast
qed

section \<open>Logging out\<close>

lemma sample_built_in: "built_in sample_client" "built_in refresh_client"
  using samples_alike by (simp_all add: built_in_def like_sample_def)

lemma sample_no_stray: "no_stray (empty_store ())" "no_stray sample_memory"
proof -
  show "no_stray (empty_store ())" using empty_wf by (simp add: no_stray_def mem_view_def local_view_def empty_store_def)
  have "localStorage sample_memory = []"
    by (simp add: sample_memory_def cm_set_def wrap_sample bindE_def eff_run Let_def manager_def opt_manifest_def
        write_obj_def alloc_def InMemoryCache_def mem_set_def empty_store_def)
  then show "no_stray sample_memory"
    using sample_memory_wf
    by (simp add: no_stray_def local_view_def toKey_def fromCacheEntry_def CacheKey_def CACHE_KEY_PREFIX_def)
qed

text \<open>The page after a login: the tokens of \<open>sample_entry\<close> in memory.\<close>

definition logged_in :: "(unit, (string \<times> string) list, nat) world" where
  "logged_in = sample_world\<lparr>store_of := sample_memory,
     site_of := cs_save (CookieStorageWithLegacySameSite page_cookies) ''authok.cid.is.authenticated'' (JBool True) (JNum 1) empty_site\<rparr>"

theorem logout_ends_session_witness:
  "\<exists>s'. logout sample_client [(''localOnly'', JBool True)] logged_in = (Inr (), s') \<and>
     isAuthenticated sample_env sample_client s' = (Inr False, s')"
proof -
  have "no_stray (store_of logged_in)" "cookieStorage sample_client = CookieStorageWithLegacySameSite page_cookies"
    using sample_no_stray by (simp_all add: logged_in_def sample_client_def)
  with logout_ends_session [OF sample_built_in(1) this(1) page.cookie_laws_axioms, of sample_env] show ?thesis by blast
qed

text \<open>A page in a cross-origin isolated context, where an iframe cannot work.\<close>

definition isolated_env :: "((string \<times> string) list, nat) env" where
  "isolated_env = sample_env\<lparr>e_crossOriginIsolated := True\<rparr>"

abbreviation no_secrets :: secrets where
  "no_secrets \<equiv> \<lparr>stateIn = [], nonceIn = [], code_verifier = [], code_challenge = []\<rparr>"

theorem login_required_ends_session_witness:
  "\<exists>e s'. catchE (iframe_exchange isolated_env sample_client [] no_secrets [] []) (login_required_logout sample_client) logged_in = (Inl e, s') \<and>
     isAuthenticated isolated_env sample_client s' = (Inr False, s')"
proof -
  obtain e where e: "iframe_exchange isolated_env sample_client [] no_secrets [] [] logged_in = (Inl e, logged_in)"
      "err_error e = JStr ''login_required''"
    by (simp add: iframe_exchange_def isolated_env_def eff_run)
  have "no_stray (store_of logged_in)" using sample_no_stray by (simp add: logged_in_def)
  from login_required_ends_session [OF sample_built_in(1) e this] show ?thesis by blast
qed

section \<open>Silent tokens\<close>

lemma sample_scopes: "scopes_of sample_client JUndef = JStr ''openid profile''"
proof -
  have "getUniqueScopes [JStr ''openid profile'', JUndef, JUndef] = ''openid profile''" by code_simp
  then show ?thesis by (simp add: scopes_of_def sample_client_def)
qed

lemma sample_silent:
  "obj_get (silent_options sample_client []) ''audience'' = JUndef"
  "\<not> truthy (obj_get (silent_options sample_client []) ''ignoreCache'')"
  "\<not> truthy (obj_get (silent_options sample_client []) ''detailedResponse'')"
  using samples_alike(1) by (simp_all add: silent_options_def like_sample_def, simp_all add: obj_get_def obj_spread_def)

lemma sample_key: "toKey (CacheKey (JStr ''cid'') (JStr ''default'') (JStr ''openid profile'')) =
    toKey (fromCacheEntry sample_entry)"
  by (simp add: fromCacheEntry_def sample_entry_def obj_get_def)

lemma logged_in_view:
  "wf_store (store_of logged_in)"
  "mem_view (store_of logged_in) (toKey (CacheKey (JStr ''cid'') (JStr ''default'') (JStr ''openid profile''))) =
     Some (wrapped sample_entry 1700003600)"
  using sample_memory_wf by (simp_all add: logged_in_def sample_key)

theorem silent_from_cache_witness:
  "\<exists>t'. getTokenSilently sample_env sample_client [] logged_in = (Inr (JStr ''at''), logged_in\<lparr>store_of := t'\<rparr>)"
proof -
  have c: "cacheManager sample_client = manager InMemoryCache" "opt sample_client ''client_id'' = JStr ''cid''"
    using samples_alike(1) by (simp_all add: like_sample_def)
  have v: "mem_view (store_of logged_in) (toKey (CacheKey (opt sample_client ''client_id'')
        (js_or (obj_get (silent_options sample_client []) ''audience'') (JStr ''default''))
        (scopes_of sample_client (obj_get [] ''scope'')))) = Some (wrapped sample_entry 1700003600)"
    using logged_in_view(2) by (simp add: c sample_silent(1) sample_scopes js_or_def obj_get_def [of "[]"])
  have n: "js_floor (e_now sample_env (outside (http_of logged_in)) / 1000) \<le> 1700003600 - 60"
    by (simp add: sample_env_def js_floor_def)
  have a: "obj_get sample_entry ''access_token'' = JStr ''at''" by (simp add: sample_entry_def obj_get_def)
  then have "truthy (obj_get sample_entry ''access_token'')" by simp
  from silent_from_cache [OF c(1) logged_in_view(1) v n this sample_silent(2,3)] show ?thesis unfolding a by blast
qed

abbreviation ignoring :: obj where
  "ignoring \<equiv> [(''ignoreCache'', JBool True)]"

lemma sample_ignoring: "cache_check E cl ignoring s = (Inr JUndef, s)"
  by (simp add: cache_check_def eff_run obj_get_def)

text \<open>A page whose lock another tab holds.\<close>

definition locked_out :: "(unit, (string \<times> string) list, nat) world" where
  "locked_out = logged_in\<lparr>http_of := \<lparr>outside = 1, requests = [], refreshTokens = []\<rparr>\<rparr>"

lemma lock_refusals:
  "0 < outside (http_of s) \<Longrightarrow> \<exists>s2. refusals (on_outside (e_acquireLock sample_env)) n s = Some s2"
  by (induction n arbitrary: s) (simp_all add: on_outside_run sample_env_def)

theorem silent_lock_refused_witness:
  "\<exists>s2. getTokenSilently_locked sample_env sample_client ignoring locked_out = (Inl TimeoutError, s2)"
proof -
  have "0 < outside (http_of locked_out)" by (simp add: locked_out_def)
  then obtain s2 where s2: "refusals (on_outside (e_acquireLock sample_env)) 10 locked_out = Some s2"
    using lock_refusals by blast
  from silent_lock_refused [OF sample_ignoring _ s2] show ?thesis by auto
qed

theorem silent_lock_released_witness:
  "\<exists>r s3. getTokenSilently_locked sample_env sample_client ignoring logged_in =
     (r, if r = Inl NeverSettles then s3 else lock_released sample_env s3)"
proof -
  obtain s2 where s2: "on_outside (e_acquireLock sample_env) logged_in = (Inr True, s2)"
    by (simp add: on_outside_run sample_env_def logged_in_def sample_world_def)
  have "retryPromise (on_outside (e_acquireLock sample_env)) 10 logged_in = (Inr True, s2)"
    by (rule retryPromise_outcome [of _ 0 _ logged_in]) (simp_all add: s2)
  then have "\<exists>s3 r. bindE (cache_check sample_env sample_client ignoring)
        (\<lambda>entry. if truthy entry then ret entry else fetch_token sample_env sample_client ignoring) s2 = (r, s3) \<and>
      getTokenSilently_locked sample_env sample_client ignoring logged_in =
        (r, if r = Inl NeverSettles then s3 else lock_released sample_env s3)"
    by (intro silent_lock_released [OF sample_ignoring]) simp_all
  then show ?thesis by blast
qed

lemma refresh_cached:
  "\<exists>t. cache_get sample_env refresh_client (CacheKey (JStr ''cid'') (JStr ''default'') (JStr ''openid profile'')) 0 logged_in =
     (Inr (JObj sample_entry), logged_in\<lparr>store_of := t\<rparr>)"
proof -
  let ?k = "CacheKey (JStr ''cid'') (JStr ''default'') (JStr ''openid profile'')"
  have f: "fresh_entry (wrapped sample_entry 1700003600) 0 1700000000000"
    by (simp add: fresh_wrapped js_floor_def)
  obtain t where "cm_get (manager InMemoryCache) ?k 0 1700000000000 (store_of logged_in) = (Inr (JObj sample_entry), t)"
    using memory.cm_get_hit [OF logged_in_view(1), of "manager InMemoryCache" ?k] f logged_in_view(2)
    by (fastforce simp: manager_def wrapped_def obj_get_def)
  then show ?thesis
    using samples_alike(2) by (auto simp: cache_get_def bindE_def act_run like_sample_def sample_env_def)
qed

lemma refresh_request_client: "obj_get (refresh_request E cl options cached) ''authokClient'' = opt cl ''authokClient''"
  unfolding refresh_request_def Let_def
  by (subst obj_get_spread) (simp_all add: wf_obj_def obj_keys_def obj_get_def)

text \<open>The cached refresh token is redeemed.\<close>

lemma sample_refresh_run:
  "\<exists>r d h t. getTokenUsingRefreshToken sample_env refresh_client [] logged_in =
     (Inr r, logged_in\<lparr>store_of := t, http_of := h\<rparr>) \<and>
     wf_obj r \<and> obj_get r ''decodedToken'' = decoded_obj d \<and> claim d ''exp'' = JNum 1700003600"
proof -
  let ?cl = refresh_client
  have c: "opt ?cl ''client_id'' = JStr ''cid''" "opt ?cl ''scope'' = JUndef" "defaultScope ?cl = ''openid profile''"
     "\<not> worker ?cl" "opt ?cl ''authokClient'' = JUndef"
    using samples_alike(2) by (simp_all add: like_sample_def)
  have sc: "getUniqueScopes [JStr ''openid profile'', JUndef, JUndef] = ''openid profile''" by code_simp
  let ?o = "obj_set ''scope'' (JStr ''openid profile'') []"
  obtain d where d: "\<And>s. verifyIdToken sample_env ?cl (JStr sample_token) JUndef JUndef s = (Inr d, s)"
    "claim d ''exp'' = JNum 1700003600"
    using sample_id_token samples_alike(2) by metis
  obtain t where t: "cache_get sample_env ?cl (CacheKey (JStr ''cid'') (JStr ''default'') (JStr ''openid profile'')) 0 logged_in =
     (Inr (JObj sample_entry), logged_in\<lparr>store_of := t\<rparr>)"
    using refresh_cached by blast
  obtain h where h: "token_request sample_env ?cl (refresh_request sample_env ?cl ?o (JStr ''rt'')) (logged_in\<lparr>store_of := t\<rparr>) =
      (Inr sample_tokens, logged_in\<lparr>store_of := t, http_of := h\<rparr>)"
    using sample_request [OF samples_alike(2)] refresh_request_client c(5) by metis
  let ?r = "obj_spread sample_tokens [(''decodedToken'', decoded_obj d), (''scope'', JStr ''openid profile''),
      (''oauthTokenScope'', obj_get sample_tokens ''scope''), (''audience'', JStr ''default'')]"
  have o: "obj_get [] k = JUndef" "obj_get sample_entry ''refresh_token'' = JStr ''rt''"
    "obj_get sample_tokens ''id_token'' = JStr sample_token" for k
    by (simp_all add: obj_get_def sample_entry_def sample_tokens_def)
  have "getTokenUsingRefreshToken sample_env ?cl [] logged_in = (Inr ?r, logged_in\<lparr>store_of := t, http_of := h\<rparr>)"
    by (simp add: getTokenUsingRefreshToken_def Let_def o c sc js_or_def DEFAULT_EXPIRY_ADJUSTMENT_SECONDS_def bindE_def
        t eff_run catchE_def h d(1))
  moreover have "wf_obj ?r"
    by (rule wf_obj_spread) (simp add: sample_tokens_def wf_obj_def obj_keys_def)
  ultimately show ?thesis using result_get(2) d(2) by blast
qed


section \<open>Sessions\<close>

lemma no_cookie: "cs_get (CookieStorageWithLegacySameSite page_cookies) k empty_site = Inr JUndef"
  by (simp add: CookieStorageWithLegacySameSite_def legacy_get_def cookie_get_def page_cookies_def empty_site_def)

theorem checkSession_without_cookie_witness:
  "checkSession sample_env sample_client [] sample_world = (Inr (), sample_world)"
proof -
  have "cs_get (cookieStorage sample_client) k (site_of sample_world) = Inr JUndef" for k
    using no_cookie by (simp add: sample_client_def sample_world_def)
  from checkSession_without_cookie [OF this _ this] show ?thesis by simp
qed

lemma JSON_true: "JSON_parse ''true'' = Inr (JBool True)"
  by code_simp

theorem checkSession_error_witness:
  "\<exists>s'. checkSession sample_env sample_client ignoring locked_out = (Inl TimeoutError, s') \<and>
     getTokenSilently sample_env sample_client ignoring locked_out = (Inl TimeoutError, s')"
proof -
  let ?cl = sample_client
  have v: "cs_get (cookieStorage ?cl) (isAuthenticatedCookieName ?cl) (site_of locked_out) = Inr (JBool True)"
    using page.legacy.save_get [of "JBool True" "''true''"]
    by (simp add: locked_out_def logged_in_def sample_client_def JSON_true)
  have i: "obj_get (silent_options ?cl ignoring) ''ignoreCache'' = JBool True"
    by (simp add: silent_options_def, subst obj_get_spread, simp_all add: obj_get_def wf_obj_def obj_keys_def)
  have "cache_check sample_env ?cl (silent_options ?cl ignoring) locked_out = (Inr JUndef, locked_out)"
    by (simp add: cache_check_def eff_run i)
  moreover obtain s2 where "retryPromise (on_outside (e_acquireLock sample_env)) 10 locked_out = (Inr False, s2)"
    using lock_refusals [of locked_out 10] retryPromise_refused by (fastforce simp: locked_out_def)
  ultimately have g: "getTokenSilently sample_env ?cl ignoring locked_out = (Inl TimeoutError, s2)"
    by (simp add: getTokenSilently_def getTokenSilently_locked_def bindE_def eff_run)
  then have "checkSession sample_env ?cl ignoring locked_out = (Inl TimeoutError, s2)"
    by (simp add: checkSession_def bindE_def act_run v catchE_def RECOVERABLE_ERRORS_def)
  with checkSession_error [OF this v] show ?thesis by auto
qed

section \<open>Whole flows\<close>

abbreviation honest_answer :: obj where
  "honest_answer \<equiv> [(''code'', JStr ''c''), (''state'', JStr sample_nonce)]"

definition honest_url :: string where
  "honest_url = ''https://app.cn/'' @ ''?'' @ createQueryParams honest_answer"

lemma honest_query:
  "tl (split_on ''?'' honest_url) \<noteq> []"
  "parseQueryResult (concat (tl (split_on ''?'' honest_url))) = Inr honest_answer"
proof -
  have s: "split_on ''?'' honest_url = [''https://app.cn/'', createQueryParams honest_answer]"
    unfolding honest_url_def
    using split_on_safe [of "''?''" "''https://app.cn/''"] split_on_no_sep [of "createQueryParams honest_answer" "''?''"]
      createQueryParams_chars(2) by simp
  then show "tl (split_on ''?'' honest_url) \<noteq> []" by simp
  have "plain_params honest_answer"
    using utf8_ascii [OF sample_nonce_ascii(1)] utf8_ascii [of "''c''"]
    by (simp add: plain_params_def wf_obj_def obj_keys_def uri_unreserved_def is_alnum_def in_range_def)
  then have "parseQueryResult (createQueryParams honest_answer) = Inr honest_answer"
    by (rule parseQueryResult_params) (simp_all add: obj_keys_def before_char_none createQueryParams_chars)
  with s show "parseQueryResult (concat (tl (split_on ''?'' honest_url))) = Inr honest_answer" by simp
qed

lemma sample_page:
  "cacheManager sample_client = manager InMemoryCache" "wf_store (store_of sample_world)" "\<And>w. fst (e_random sample_env w) \<noteq> []"
  "\<not> truthy (obj_get honest_answer ''error'')"
  using empty_wf by (simp_all add: sample_client_def sample_world_def sample_env_def obj_get_def)

lemma sample_tokens_get:
  "obj_get sample_tokens ''id_token'' = JStr sample_token" "obj_get sample_tokens ''expires_in'' = JNum 86400"
  "truthy (obj_get sample_tokens ''access_token'')"
  by (simp_all add: sample_tokens_def obj_get_def)

lemma sample_now: "js_floor (e_now sample_env w / 1000) \<le> expiry (e_now sample_env w') 86400 1700003600 - 60"
  by (simp add: sample_env_def js_floor_def expiry_def)

text \<open>An honest login: the page, the server's answer, the tokens.\<close>

lemma honest_login:
  obtains url s1 tr s2 d where "buildAuthorizeUrl sample_env sample_client [] sample_world = (Inr url, s1)"
    "tm_get (transactions s1) = JObj tr" "obj_get honest_answer ''state'' = obj_get tr ''state''"
    "token_request sample_env sample_client (redirect_request sample_client tr honest_answer) (snd (transaction_remove s1)) = (Inr sample_tokens, s2)"
    "verifyIdToken sample_env sample_client (obj_get sample_tokens ''id_token'') (obj_get tr ''nonce'') (obj_get tr ''organizationId'') s2 = (Inr d, s2)"
    "claim d ''exp'' = JNum 1700003600"
proof -
  let ?E = sample_env and ?cl = sample_client
  obtain url s1 tr where b: "buildAuthorizeUrl ?E ?cl [] sample_world = (Inr url, s1)" "tm_get (transactions s1) = JObj tr"
    "obj_get tr ''state'' = JStr sample_nonce" "obj_get tr ''nonce'' = JStr sample_nonce" "obj_get tr ''organizationId'' = JUndef"
    using sample_authorize by blast
  have "obj_get (redirect_request ?cl tr honest_answer) ''authokClient'' = JUndef"
    using samples_alike(1) by (simp add: redirect_request_def like_sample_def) (simp add: obj_get_def)
  then obtain h where h: "token_request ?E ?cl (redirect_request ?cl tr honest_answer) (snd (transaction_remove s1)) =
      (Inr sample_tokens, (snd (transaction_remove s1))\<lparr>http_of := h\<rparr>)"
    using sample_request [OF samples_alike(1)] by blast
  obtain d where d: "\<And>s. verifyIdToken ?E ?cl (JStr sample_token) (JStr sample_nonce) JUndef s = (Inr d, s)"
    "claim d ''exp'' = JNum 1700003600"
    using sample_id_token samples_alike(1) by metis
  have "obj_get honest_answer ''state'' = obj_get tr ''state''" by (simp add: b(3)) (simp add: obj_get_def)
  moreover have "verifyIdToken ?E ?cl (obj_get sample_tokens ''id_token'') (obj_get tr ''nonce'') (obj_get tr ''organizationId'') s = (Inr d, s)" for s
    by (simp add: sample_tokens_get b(4,5) d(1))
  ultimately show thesis using that [OF b(1,2) _ h _ d(2)] by blast
qed

theorem login_completes_witness:
  "\<exists>url s1 s3 s5. buildAuthorizeUrl sample_env sample_client [] sample_world = (Inr url, s1) \<and>
     handleRedirectCallback sample_env sample_client honest_url s1 = (Inr [(''appState'', JUndef)], s3) \<and>
     isAuthenticated sample_env sample_client s3 = (Inr True, s5)"
proof (rule honest_login)
  fix url s1 tr s2 d
  assume l: "buildAuthorizeUrl sample_env sample_client [] sample_world = (Inr url, s1)"
    "tm_get (transactions s1) = JObj tr" "obj_get honest_answer ''state'' = obj_get tr ''state''"
    "token_request sample_env sample_client (redirect_request sample_client tr honest_answer) (snd (transaction_remove s1)) = (Inr sample_tokens, s2)"
    "verifyIdToken sample_env sample_client (obj_get sample_tokens ''id_token'') (obj_get tr ''nonce'') (obj_get tr ''organizationId'') s2 = (Inr d, s2)"
    "claim d ''exp'' = JNum 1700003600"
  from login_completes [OF sample_page(1-3) l(1,2) honest_query sample_page(4) l(3-5) sample_tokens_get(2) l(6) sample_tokens_get(3)]
    sample_now l(1) show ?thesis by blast
qed

theorem new_client_typed_witness:
  "\<exists>cl tm. new_AuthokClient sample_env (InMemoryCache :: unit icache)
       [(''domain'', JStr ''t.cn''), (''client_id'', JStr ''cid''), (''useRefreshTokens'', JBool True)] empty_site = Inr (cl, tm) \<and>
     built_in cl \<and> ''offline_access'' \<in> set (tokens (join_text (cl_scope cl)))"
proof -
  let ?o = "[(''domain'', JStr ''t.cn''), (''client_id'', JStr ''cid''), (''useRefreshTokens'', JBool True)]"
  have "validateCrypto (e_crypto sample_env) = Inr ()"
    by (simp add: validateCrypto_def getCrypto_def getCryptoSubtle_def sample_env_def)
  moreover have "choose_cache (InMemoryCache :: unit icache) ?o = Inr (JStr ''memory'', InMemoryCache)"
    by (simp add: choose_cache_def cacheFactory_def obj_get_def js_or_def CACHE_LOCATION_MEMORY_def)
  moreover have "\<exists>tm. new_TransactionManager SessionStorage (to_string (JStr ''cid'')) empty_site = Inr tm"
    by (simp add: new_TransactionManager_def SessionStorage_def session_get_def empty_site_def)
  ultimately obtain cl tm where n: "new_AuthokClient sample_env (InMemoryCache :: unit icache) ?o empty_site = Inr (cl, tm)"
    by (auto simp: new_AuthokClient_def Let_def obj_get_def getTokenIssuer_def)
  have "\<not> truthy (obj_get ?o ''cache'')" "truthy (obj_get ?o ''useRefreshTokens'')" by (simp_all add: obj_get_def)
  with new_client_typed [OF n] n show ?thesis by auto
qed

lemma sample_popup:
  "\<exists>s'. loginWithPopup sample_env sample_client [] \<lparr>popup = None, timeoutInSeconds = None\<rparr> sample_world = (Inr (), s')"
proof -
  let ?E = sample_env and ?cl = sample_client
  obtain d where d: "\<And>s. verifyIdToken ?E ?cl (JStr sample_token) (JStr sample_nonce) JUndef s = (Inr d, s)"
    "claim d ''exp'' = JNum 1700003600"
    using sample_id_token samples_alike(1) by metis
  have o: "js_or (obj_get [] ''organization'') (opt ?cl ''organization'') = JUndef"
    using samples_alike(1) by (simp add: like_sample_def js_or_def obj_get_def)
  have tk: "obj_get sample_tokens ''id_token'' = JStr sample_token" by (simp add: sample_tokens_def obj_get_def)
  have run: "runPopup 7 [PopupMessage popup_answer] = Some (Inr (JObj honest_answer))"
    by (simp add: runPopup_def popup_start_def is_authorization_response_def popup_answer_def response_result_def
        obj_get_def pp_settle_def)
  have ev: "on_outside (e_popup ?E 7 url t) s = (Inr [PopupMessage popup_answer], s)" for url t s
    by (simp add: on_outside_run sample_env_def)
  have "\<exists>s'. popup_exchange ?E ?cl [] \<lparr>popup = None, timeoutInSeconds = None\<rparr> sample_sec params url 7 s = (Inr (), s')"
    for params url s
  proof -
    let ?ob = "[(''audience'', obj_get params ''audience''), (''scope'', obj_get params ''scope''),
            (''baseUrl'', JStr (domainUrl ?cl)), (''client_id'', opt ?cl ''client_id''),
            (''code_verifier'', JStr (code_verifier sample_sec)), (''code'', JStr ''c''),
            (''grant_type'', JStr ''authorization_code''), (''redirect_uri'', obj_get params ''redirect_uri''),
            (''authokClient'', opt ?cl ''authokClient''), (''useFormData'', opt ?cl ''useFormData'')]"
    have "obj_get ?ob ''authokClient'' = JUndef" using samples_alike(1) by (simp add: like_sample_def) (simp add: obj_get_def)
    then obtain h where h: "token_request ?E ?cl ?ob s = (Inr sample_tokens, s\<lparr>http_of := h\<rparr>)"
      using sample_request [OF samples_alike(1)] by blast
    let ?entry = "obj_spread sample_tokens [(''decodedToken'', decoded_obj d), (''scope'', obj_get params ''scope''),
                (''audience'', js_or (obj_get params ''audience'') (JStr ''default'')),
                (''client_id'', opt ?cl ''client_id'')]"
    have "obj_get ?entry ''decodedToken'' = decoded_obj d"
      by (subst obj_get_spread; simp add: wf_obj_def obj_keys_def obj_get_def)
    then obtain s' where s': "finish_login ?E ?cl ?entry d (s\<lparr>http_of := h\<rparr>) = (Inr (), s')"
      using sample_finish_login [OF samples_alike(1) _ d(2)] by blast
    have a: "js_prop (JObj honest_answer) ''state'' = Inr (JStr (stateIn sample_sec))" "js_prop (JObj honest_answer) ''code'' = Inr (JStr ''c'')"
      "nonceIn sample_sec = sample_nonce"
      by (simp_all add: obj_get_def sample_sec_def)
    show ?thesis
      unfolding popup_exchange_def o by (simp only: bindE_def ev run a eff_run prod.case sum.case option.case) (simp add: h d(1) a tk s')
  qed
  note x = this
  obtain url where url: "authorizeUrl ?cl (obj_spread (getParams ?cl [] (stateIn sample_sec) (nonceIn sample_sec) (code_challenge sample_sec)
      (js_or (opt ?cl ''redirect_uri'') (JStr (e_origin ?E)))) [(''response_mode'', JStr ''web_message'')]) = Inr url"
    using sample_url [OF samples_alike(1)] by blast
  have "on_outside (e_open ?E a) sample_world = (Inr (Some 7), sample_world)" for a by (simp add: on_outside_run sample_env_def)
  with x url show ?thesis
    unfolding loginWithPopup_def Let_def by (simp add: bindE_def sample_secrets eff_run)
qed


end
