(* ===== verification/Types.thy ===== *)
theory Types
  imports Js_Values
begin

text \<open>
  The interfaces of \<open>global.ts\<close>, \<open>cache/shared.ts\<close> and \<open>transaction-manager.ts\<close> as tables of
  properties, and what it means for a value to have such a type.

  The project compiles without \<open>strictNullChecks\<close>, so \<open>undefined\<close> and \<open>null\<close> have every type; a
  property without question mark has to be there, whatever its value. Properties beyond the table
  are allowed everywhere, as they are for values that are not fresh literals; an index signature
  \<open>[key: string]: any\<close> therefore adds nothing. Types of host objects (\<open>ICache\<close>, \<open>AbortSignal\<close>,
  the window of a popup) are opaque and accept every value.
\<close>

section \<open>Types and their values\<close>

datatype ts_type =
    TString
  | TNumber
  | TBoolean
  | TAny
  | TFunction
  | TLiterals "string list"
  | TUnion "ts_type list"
  | TArray ts_type
  | TRecord ts_type
  | TObject "(string \<times> bool \<times> ts_type) list"

text \<open>A property: its name, whether it is optional, and its type.\<close>

type_synonym property = "string \<times> bool \<times> ts_type"
type_synonym iface = "property list"

definition nullish :: "jsval \<Rightarrow> bool" where
  "nullish v = (v = JUndef \<or> v = JNull)"

fun has_type :: "ts_type \<Rightarrow> jsval \<Rightarrow> bool" where
  "has_type TString v = (nullish v \<or> (case v of JStr s \<Rightarrow> True | _ \<Rightarrow> False))"
| "has_type TNumber v = (nullish v \<or> isNumber v)"
| "has_type TBoolean v = (nullish v \<or> (case v of JBool b \<Rightarrow> True | _ \<Rightarrow> False))"
| "has_type TAny v = True"
| "has_type TFunction v = (nullish v \<or> (case v of JFun src \<Rightarrow> True | _ \<Rightarrow> False))"
| "has_type (TLiterals ss) v = (nullish v \<or> (case v of JStr s \<Rightarrow> s \<in> set ss | _ \<Rightarrow> False))"
| "has_type (TUnion ts) v = (nullish v \<or> (\<exists>t \<in> set ts. has_type t v))"
| "has_type (TArray t) v = (nullish v \<or> (case v of JArr vs \<Rightarrow> \<forall>x \<in> set vs. has_type t x | _ \<Rightarrow> False))"
| "has_type (TRecord t) v = (nullish v \<or> (case v of JObj ob \<Rightarrow> \<forall>p \<in> set ob. has_type t (snd p) | _ \<Rightarrow> False))"
| "has_type (TObject ps) v =
     (nullish v \<or>
      (case v of
         JObj ob \<Rightarrow> \<forall>p \<in> set ps. (fst (snd p) \<or> fst p \<in> set (obj_keys ob)) \<and> has_type (snd (snd p)) (obj_get ob (fst p))
       | _ \<Rightarrow> False))"

definition conforms :: "iface \<Rightarrow> obj \<Rightarrow> bool" where
  "conforms ps ob = has_type (TObject ps) (JObj ob)"

text \<open>\<open>name: T\<close> and \<open>name?: T\<close>; \<open>interface B extends A\<close>; the utility types \<open>Omit\<close> and \<open>Partial\<close>.\<close>

definition req :: "string \<Rightarrow> ts_type \<Rightarrow> property" where
  "req k t = (k, False, t)"

definition may :: "string \<Rightarrow> ts_type \<Rightarrow> property" where
  "may k t = (k, True, t)"

definition extends :: "iface \<Rightarrow> iface \<Rightarrow> iface" where
  "extends own base = own @ filter (\<lambda>p. fst p \<notin> fst ` set own) base"

definition Omit :: "iface \<Rightarrow> string list \<Rightarrow> iface" where
  "Omit ps ks = filter (\<lambda>p. fst p \<notin> set ks) ps"

definition Partial :: "iface \<Rightarrow> iface" where
  "Partial ps = map (\<lambda>p. (fst p, True, snd (snd p))) ps"

section \<open>Options of the client\<close>

definition BaseLoginOptions :: iface where
  "BaseLoginOptions =
     [may ''display'' (TLiterals [''page'', ''popup'', ''touch'', ''wap'']),
      may ''prompt'' (TLiterals [''none'', ''login'', ''consent'', ''select_account'']),
      may ''max_age'' (TUnion [TString, TNumber]), may ''ui_locales'' TString,
      may ''id_token_hint'' TString, may ''screen_hint'' TString, may ''login_hint'' TString,
      may ''acr_values'' TString, may ''scope'' TString, may ''audience'' TString,
      may ''connection'' TString, may ''organization'' TString, may ''invitation'' TString]"

definition AdvancedOptions :: iface where
  "AdvancedOptions = [may ''defaultScope'' TString]"

definition CacheLocation :: ts_type where
  "CacheLocation = TLiterals [''memory'', ''localstorage'']"

definition AuthokClientOptions :: iface where
  "AuthokClientOptions =
     extends
       [req ''domain'' TString, may ''issuer'' TString, req ''client_id'' TString,
        may ''redirect_uri'' TString, may ''leeway'' TNumber, may ''cacheLocation'' CacheLocation,
        may ''cache'' TAny, may ''useRefreshTokens'' TBoolean,
        may ''authorizeTimeoutInSeconds'' TNumber,
        may ''authokClient'' (TObject [req ''name'' TString, req ''version'' TString]),
        may ''legacySameSiteCookie'' TBoolean, may ''useCookiesForTransactions'' TBoolean,
        may ''advancedOptions'' (TObject AdvancedOptions), may ''sessionCheckExpiryDays'' TNumber,
        may ''useFormData'' TBoolean, may ''nowProvider'' TFunction]
       BaseLoginOptions"

definition AuthorizeOptions :: iface where
  "AuthorizeOptions =
     extends
       [req ''response_type'' TString, req ''response_mode'' TString, req ''redirect_uri'' TString,
        req ''nonce'' TString, req ''state'' TString, req ''scope'' TString,
        req ''code_challenge'' TString, req ''code_challenge_method'' TString]
       BaseLoginOptions"

definition RedirectLoginOptions :: iface where
  "RedirectLoginOptions =
     extends
       [may ''redirect_uri'' TString, may ''appState'' TAny, may ''fragment'' TString,
        may ''redirectMethod'' (TLiterals [''replace'', ''assign''])]
       BaseLoginOptions"

definition RedirectLoginResult :: iface where
  "RedirectLoginResult = [may ''appState'' TAny]"

definition PopupLoginOptions :: iface where
  "PopupLoginOptions = extends [] BaseLoginOptions"

definition PopupConfigOptions :: iface where
  "PopupConfigOptions = [may ''timeoutInSeconds'' TNumber, may ''popup'' TAny]"

definition GetUserOptions :: iface where
  "GetUserOptions = [may ''scope'' TString, may ''audience'' TString]"

definition GetIdTokenClaimsOptions :: iface where
  "GetIdTokenClaimsOptions = [may ''scope'' TString, may ''audience'' TString]"

definition GetTokenSilentlyOptions :: iface where
  "GetTokenSilentlyOptions =
     [may ''ignoreCache'' TBoolean, may ''redirect_uri'' TString, may ''scope'' TString,
      may ''audience'' TString, may ''timeoutInSeconds'' TNumber, may ''detailedResponse'' TBoolean]"

definition GetTokenWithPopupOptions :: iface where
  "GetTokenWithPopupOptions = extends [may ''ignoreCache'' TBoolean] PopupLoginOptions"

definition LogoutUrlOptions :: iface where
  "LogoutUrlOptions = [may ''return_to'' TString, may ''client_id'' TString, may ''federated'' TBoolean]"

definition LogoutOptions :: iface where
  "LogoutOptions =
     [may ''return_to'' TString, may ''client_id'' TString, may ''federated'' TBoolean,
      may ''localOnly'' TBoolean]"

section \<open>Requests and responses\<close>

definition AuthenticationResult :: iface where
  "AuthenticationResult =
     [req ''state'' TString, may ''code'' TString, may ''error'' TString,
      may ''error_description'' TString]"

definition TokenEndpointOptions :: iface where
  "TokenEndpointOptions =
     [req ''baseUrl'' TString, req ''client_id'' TString, req ''grant_type'' TString,
      may ''timeout'' TNumber, req ''authokClient'' TAny, may ''useFormData'' TBoolean]"

definition TokenEndpointResponse :: iface where
  "TokenEndpointResponse =
     [req ''id_token'' TString, req ''access_token'' TString, may ''refresh_token'' TString,
      req ''expires_in'' TNumber, may ''scope'' TString]"

definition OAuthTokenOptions :: iface where
  "OAuthTokenOptions =
     extends
       [req ''code_verifier'' TString, req ''code'' TString, req ''redirect_uri'' TString,
        req ''audience'' TString, req ''scope'' TString]
       TokenEndpointOptions"

definition RefreshTokenOptions :: iface where
  "RefreshTokenOptions = extends [req ''refresh_token'' TString] TokenEndpointOptions"

definition JWTVerifyOptions :: iface where
  "JWTVerifyOptions =
     [req ''iss'' TString, req ''aud'' TString, req ''id_token'' TString, may ''nonce'' TString,
      may ''leeway'' TNumber, may ''max_age'' TNumber, may ''organizationId'' TString,
      may ''now'' TNumber]"

definition FetchOptions :: iface where
  "FetchOptions =
     [may ''method'' TString, may ''headers'' (TRecord TString),
      may ''credentials'' (TLiterals [''include'', ''omit'']), may ''body'' TString,
      may ''signal'' TAny]"

definition GetTokenSilentlyVerboseResponse :: iface where
  "GetTokenSilentlyVerboseResponse = Omit TokenEndpointResponse [''refresh_token'']"

section \<open>Tokens\<close>

definition IdToken :: iface where
  "IdToken =
     [req ''__raw'' TString, may ''name'' TString, may ''given_name'' TString,
      may ''family_name'' TString, may ''middle_name'' TString, may ''nickname'' TString,
      may ''preferred_username'' TString, may ''profile'' TString, may ''picture'' TString,
      may ''website'' TString, may ''email'' TString, may ''email_verified'' TBoolean,
      may ''gender'' TString, may ''birthdate'' TString, may ''zoneinfo'' TString,
      may ''locale'' TString, may ''phone_number'' TString,
      may ''phone_number_verified'' TBoolean, may ''address'' TString, may ''updated_at'' TString,
      may ''iss'' TString, may ''aud'' TString, may ''exp'' TNumber, may ''nbf'' TNumber,
      may ''iat'' TNumber, may ''jti'' TString, may ''azp'' TString, may ''nonce'' TString,
      may ''auth_time'' TString, may ''at_hash'' TString, may ''c_hash'' TString,
      may ''acr'' TString, may ''amr'' TString, may ''sub_jwk'' TString, may ''cnf'' TString,
      may ''sid'' TString, may ''org_id'' TString]"

definition User :: iface where
  "User =
     [may ''name'' TString, may ''given_name'' TString, may ''family_name'' TString,
      may ''middle_name'' TString, may ''nickname'' TString, may ''preferred_username'' TString,
      may ''profile'' TString, may ''picture'' TString, may ''website'' TString,
      may ''email'' TString, may ''email_verified'' TBoolean, may ''gender'' TString,
      may ''birthdate'' TString, may ''zoneinfo'' TString, may ''locale'' TString,
      may ''phone_number'' TString, may ''phone_number_verified'' TBoolean,
      may ''address'' TString, may ''updated_at'' TString, may ''sub'' TString]"

section \<open>Cache and transactions\<close>

definition CacheKeyData :: iface where
  "CacheKeyData = [req ''audience'' TString, req ''scope'' TString, req ''client_id'' TString]"

definition DecodedToken :: iface where
  "DecodedToken = [req ''claims'' (TObject IdToken), req ''user'' (TObject User)]"

definition CacheEntry :: iface where
  "CacheEntry =
     [req ''id_token'' TString, req ''access_token'' TString, req ''expires_in'' TNumber,
      req ''decodedToken'' (TObject DecodedToken), req ''audience'' TString, req ''scope'' TString,
      req ''client_id'' TString, may ''refresh_token'' TString, may ''oauthTokenScope'' TString]"

definition WrappedCacheEntry :: iface where
  "WrappedCacheEntry = [req ''body'' (TObject (Partial CacheEntry)), req ''expiresAt'' TNumber]"

definition KeyManifestEntry :: iface where
  "KeyManifestEntry = [req ''keys'' (TArray TString)]"

definition Cacheable :: ts_type where
  "Cacheable = TUnion [TObject WrappedCacheEntry, TObject KeyManifestEntry]"

definition Transaction :: iface where
  "Transaction =
     [req ''nonce'' TString, req ''scope'' TString, req ''audience'' TString,
      may ''appState'' TAny, req ''code_verifier'' TString, req ''redirect_uri'' TString,
      may ''organizationId'' TString, may ''state'' TString]"

section \<open>Lemmas: conformance\<close>

named_theorems ifaces \<open>the tables of the interfaces\<close>

lemmas iface_defs [ifaces] = req_def may_def BaseLoginOptions_def AdvancedOptions_def CacheLocation_def
  AuthokClientOptions_def AuthorizeOptions_def RedirectLoginOptions_def RedirectLoginResult_def
  PopupLoginOptions_def PopupConfigOptions_def GetUserOptions_def GetIdTokenClaimsOptions_def
  GetTokenSilentlyOptions_def GetTokenWithPopupOptions_def LogoutUrlOptions_def LogoutOptions_def
  AuthenticationResult_def TokenEndpointOptions_def TokenEndpointResponse_def OAuthTokenOptions_def
  RefreshTokenOptions_def JWTVerifyOptions_def FetchOptions_def GetTokenSilentlyVerboseResponse_def
  IdToken_def User_def CacheKeyData_def DecodedToken_def CacheEntry_def WrappedCacheEntry_def
  KeyManifestEntry_def Cacheable_def Transaction_def extends_def Omit_def Partial_def

lemma nullish_simps [simp]: "nullish JUndef" "nullish JNull" "\<not> nullish (JStr s)" "\<not> nullish (JNum r)"
  "\<not> nullish (JBool b)" "\<not> nullish (JObj ob)" "\<not> nullish (JArr vs)" "\<not> nullish JNaN" "\<not> nullish (JFun f)"
  by (simp_all add: nullish_def)

lemma has_type_nullish [simp]: "nullish v \<Longrightarrow> has_type t v"
  by (cases t) simp_all

lemma has_type_undef [simp]: "has_type t JUndef"
  by simp

lemma string_type: "has_type TString v \<longleftrightarrow> v = JUndef \<or> v = JNull \<or> (\<exists>s. v = JStr s)"
  by (cases v) (simp_all add: nullish_def)

lemma number_type: "has_type TNumber v \<longleftrightarrow> v = JUndef \<or> v = JNull \<or> isNumber v"
  by (simp add: nullish_def)

lemma conforms_iff: "conforms ps ob \<longleftrightarrow>
   (\<forall>p \<in> set ps. (fst (snd p) \<or> fst p \<in> set (obj_keys ob)) \<and> has_type (snd (snd p)) (obj_get ob (fst p)))"
  by (simp add: conforms_def)

lemma conforms_Cons: "conforms ((k, o', t) # ps) ob \<longleftrightarrow>
   (o' \<or> k \<in> set (obj_keys ob)) \<and> has_type t (obj_get ob k) \<and> conforms ps ob"
  by (auto simp: conforms_iff)

lemma conforms_Nil [simp]: "conforms [] ob"
  by (simp add: conforms_iff)

lemma conforms_append: "conforms (ps @ qs) ob \<longleftrightarrow> conforms ps ob \<and> conforms qs ob"
  by (auto simp: conforms_iff)

lemma conforms_get: "conforms ps ob \<Longrightarrow> (k, t) \<in> set (map (\<lambda>p. (fst p, snd (snd p))) ps) \<Longrightarrow> has_type t (obj_get ob k)"
  by (fastforce simp: conforms_iff)

lemma type_or: "has_type t a \<Longrightarrow> has_type t b \<Longrightarrow> has_type t (js_or a b)"
  by (simp add: js_or_def)

lemma conforms_subset: "conforms ps ob \<Longrightarrow> set qs \<subseteq> set ps \<Longrightarrow> conforms qs ob"
  by (auto simp: conforms_iff)

lemma keys_set: "set (obj_keys (obj_set k v ob)) = insert k (set (obj_keys ob))"
  by (simp add: obj_keys_def obj_set_def dom_update)

lemma keys_spread: "set (obj_keys (obj_spread a b)) = set (obj_keys a) \<union> set (obj_keys b)"
  unfolding obj_spread_def by (induction b arbitrary: a) (auto simp: keys_set, auto simp: obj_keys_def)

text \<open>An interface all of whose properties are optional survives spreading and leaving out.\<close>

lemma conforms_spread:
  assumes "conforms ps a" and "conforms (Partial ps) b" and "wf_obj b"
  shows "conforms ps (obj_spread a b)"
  using assms by (auto simp: conforms_iff keys_spread obj_get_spread Partial_def)

lemma conforms_omit:
  assumes "conforms ps a" and "\<And>p. p \<in> set ps \<Longrightarrow> fst p \<in> set ks \<Longrightarrow> fst (snd p)"
  shows "conforms ps (obj_omit ks a)"
  using assms by (auto simp: conforms_iff keys_omit)

lemma conforms_Partial: "conforms ps ob \<Longrightarrow> conforms (Partial ps) ob"
  by (auto simp: conforms_iff Partial_def)

text \<open>An interface that extends another is a subtype of it, if it overrides nothing with another type.\<close>

lemma extends_base:
  assumes "conforms (extends own base) ob"
    and "\<And>p q. p \<in> set own \<Longrightarrow> q \<in> set base \<Longrightarrow> fst p = fst q \<Longrightarrow> snd (snd p) = snd (snd q) \<and> fst (snd q)"
  shows "conforms base ob"
proof -
  have "(fst (snd q) \<or> fst q \<in> set (obj_keys ob)) \<and> has_type (snd (snd q)) (obj_get ob (fst q))"
    if q: "q \<in> set base" for q
  proof (cases "fst q \<in> fst ` set own")
    case True
    then obtain p where p: "p \<in> set own" "fst p = fst q" by auto
    have "has_type (snd (snd p)) (obj_get ob (fst p))"
      using assms(1) p(1) by (simp add: extends_def conforms_iff)
    with assms(2) [OF p(1) q p(2)] p(2) show ?thesis by simp
  next
    case False
    with assms(1) q show ?thesis by (auto simp: extends_def conforms_iff)
  qed
  then show ?thesis by (simp add: conforms_iff)
qed

end
