(* ===== verification/Client_Types.thy ===== *)
theory Client_Types
  imports Client_Flows Types
begin

text \<open>
  The client against its declared types: options that conform to the interfaces are enough for the
  constructor, and what the client builds from them (authorization parameters, transactions, token
  requests, cache entries, the detailed response) conforms to the types the code declares. Where the
  code contradicts a declaration, the theorem says so.
\<close>

section \<open>Construction\<close>

lemma cache_location_typed:
  assumes "has_type CacheLocation v"
  shows "cacheFactory (js_or v (JStr CACHE_LOCATION_MEMORY)) \<noteq> None"
  using assms by (cases v) (auto simp: CacheLocation_def js_or_def cacheFactory_def CACHE_LOCATION_MEMORY_def)

lemma choose_cache_typed: "has_type CacheLocation (obj_get options ''cacheLocation'') \<Longrightarrow>
   \<exists>lc. choose_cache own options = Inr lc"
  by (auto simp: choose_cache_def Let_def dest: cache_location_typed split: option.split)

lemma token_issuer_typed: "has_type TString i \<Longrightarrow> \<exists>x. getTokenIssuer i domain = Inr x"
  by (cases i) (auto simp: getTokenIssuer_def)

lemma days_typed: "has_type TNumber v \<Longrightarrow> \<exists>x. js_or v (JNum DEFAULT_SESSION_CHECK_EXPIRY_DAYS) = JNum x \<and> x \<noteq> 0"
  by (cases v) (auto simp: js_or_def DEFAULT_SESSION_CHECK_EXPIRY_DAYS_def)

text \<open>
  C28: options that conform to \<open>AuthokClientOptions\<close> construct a client wherever there is cryptography and
  the transaction left in the storage can be read: no branch of the constructor throws on them. The
  lifetime of the session cookie is then a number other than zero, and the scope is text.
\<close>

theorem new_client_progress:
  assumes "conforms AuthokClientOptions options" and "validateCrypto (e_crypto E) = Inr ()"
    and "\<forall>St \<in> transaction_storages (e_cookies E).
           \<exists>t. cs_get St (TRANSACTION_STORAGE_KEY_PREFIX @ ''.'' @ to_string (obj_get options ''client_id'')) st = Inr t"
  shows "\<exists>cl tm d. new_AuthokClient E own options st = Inr (cl, tm) \<and> cl_options cl = options \<and>
    sessionCheckExpiryDays cl = JNum d \<and> d \<noteq> 0 \<and> has_type TString (cl_scope cl)"
proof -
  have t: "has_type CacheLocation (obj_get options ''cacheLocation'')" "has_type TString (obj_get options ''issuer'')"
    "has_type TString (obj_get options ''scope'')" "has_type TNumber (obj_get options ''sessionCheckExpiryDays'')"
    by (rule conforms_get [OF assms(1)], simp add: ifaces)+
  let ?St = "if truthy (obj_get options ''useCookiesForTransactions'')
     then (if obj_get options ''legacySameSiteCookie'' = JBool False
           then CookieStorage (e_cookies E) else CookieStorageWithLegacySameSite (e_cookies E)) else SessionStorage"
  obtain location cache where c: "choose_cache own options = Inr (location, cache)"
    using choose_cache_typed [OF t(1)] by fastforce
  obtain issuer where i: "getTokenIssuer (obj_get options ''issuer'') (getDomain (obj_get options ''domain'')) = Inr issuer"
    using token_issuer_typed [OF t(2)] by blast
  obtain d where d: "js_or (obj_get options ''sessionCheckExpiryDays'') (JNum DEFAULT_SESSION_CHECK_EXPIRY_DAYS) = JNum d" "d \<noteq> 0"
    using days_typed [OF t(4)] by blast
  have "?St \<in> transaction_storages (e_cookies E)" by (simp add: transaction_storages_def)
  then obtain tm where tm: "new_TransactionManager ?St (to_string (obj_get options ''client_id'')) st = Inr tm"
    using assms(3) by (fastforce simp: new_TransactionManager_def Let_def)
  show ?thesis
    using c i d tm assms(2) t(3) by (simp add: new_AuthokClient_def Let_def)
qed
section \<open>Authorization parameters and transactions\<close>

lemma Base_optional: "p \<in> set BaseLoginOptions \<Longrightarrow> fst (snd p)"
  by (auto simp: ifaces)

lemma client_base: "conforms AuthokClientOptions ob \<Longrightarrow> conforms BaseLoginOptions ob"
  unfolding AuthokClientOptions_def by (erule extends_base) (auto simp: ifaces)

lemma redirect_base: "conforms RedirectLoginOptions ob \<Longrightarrow> conforms BaseLoginOptions ob"
  unfolding RedirectLoginOptions_def by (erule extends_base) (auto simp: ifaces)

lemma spread_base:
  assumes "conforms BaseLoginOptions a" and "conforms BaseLoginOptions b" and "wf_obj b"
  shows "conforms BaseLoginOptions (obj_spread (obj_omit ks a) b)"
  using assms by (intro conforms_spread conforms_omit conforms_Partial) (simp_all add: Base_optional)

text \<open>The parameters the client adds itself, which win over the options of the caller.\<close>

lemma params_base:
  assumes "conforms BaseLoginOptions ob"
    and "\<And>p. p \<in> set BaseLoginOptions \<Longrightarrow> fst p \<noteq> ''scope'' \<Longrightarrow> obj_get ps (fst p) = obj_get ob (fst p)"
    and "has_type TString (obj_get ps ''scope'')"
  shows "conforms BaseLoginOptions ps"
proof -
  have "has_type (snd (snd p)) (obj_get ps (fst p))" if p: "p \<in> set BaseLoginOptions" for p
  proof (cases "fst p = ''scope''")
    case True
    then have "snd (snd p) = TString" using p by (auto simp: ifaces)
    with True assms(3) show ?thesis by simp
  next
    case False
    with assms(1,2) p show ?thesis by (auto simp: conforms_iff)
  qed
  with Base_optional show ?thesis by (simp add: conforms_iff)
qed

text \<open>
  The authorization parameters the client builds from typed options are \<open>AuthorizeOptions\<close>: every
  protocol parameter is there, and the login options passed through keep their types.
\<close>

lemma getParams_conforms:
  assumes "conforms AuthokClientOptions (cl_options cl)" and "conforms BaseLoginOptions options" and "wf_obj options"
    and "has_type TString redirect_uri"
  shows "conforms AuthorizeOptions (getParams cl options st nc challenge redirect_uri)" (is "conforms _ ?ps")
proof -
  let ?own = "[req ''response_type'' TString, req ''response_mode'' TString, req ''redirect_uri'' TString,
        req ''nonce'' TString, req ''state'' TString, req ''scope'' TString,
        req ''code_challenge'' TString, req ''code_challenge_method'' TString]"
  have "has_type TString (opt cl ''redirect_uri'')"
    unfolding opt_def by (rule conforms_get [OF assms(1)]) (simp add: ifaces)
  then have "has_type TString (js_or redirect_uri (opt cl ''redirect_uri''))" using assms(4) type_or by blast
  then have own: "conforms ?own ?ps"
    by (simp add: req_def conforms_Cons getParams_fixed) (simp add: getParams_def keys_spread, simp add: obj_keys_def)
  have "conforms BaseLoginOptions ?ps"
  proof (rule params_base [OF spread_base [OF client_base [OF assms(1)] assms(2,3)]])
    show "obj_get ?ps (fst p) = obj_get (obj_spread (obj_omit client_only_options (cl_options cl)) options) (fst p)"
      if "p \<in> set BaseLoginOptions" "fst p \<noteq> ''scope''" for p
      using that by (auto simp: getParams_fixed BaseLoginOptions_def may_def)
  qed (simp add: getParams_fixed)
  with own have "conforms (?own @ BaseLoginOptions) ?ps" by (simp only: conforms_append)
  then show ?thesis by (rule conforms_subset) (auto simp: AuthorizeOptions_def extends_def)
qed
text \<open>The transaction of a redirect has the declared type, appState and organization included.\<close>

theorem authorize_transaction_typed:
  assumes "conforms AuthokClientOptions (cl_options cl)" and "conforms RedirectLoginOptions options" and "wf_obj options"
    and "buildAuthorizeUrl E cl options s = (Inr url, s')"
  shows "\<exists>tr. tm_get (transactions s') = JObj tr \<and> conforms Transaction tr"
proof -
  let ?ps = "\<lambda>sec :: secrets. getParams cl (obj_omit [''redirect_uri'', ''appState''] options) (stateIn sec) (nonceIn sec)
      (code_challenge sec) (obj_get options ''redirect_uri'')"
  let ?tr = "\<lambda>(sec :: secrets) org. [(''nonce'', JStr (nonceIn sec)), (''code_verifier'', JStr (code_verifier sec)),
      (''appState'', obj_get options ''appState''), (''scope'', obj_get (?ps sec) ''scope''),
      (''audience'', js_or (obj_get (?ps sec) ''audience'') (JStr ''default'')),
      (''redirect_uri'', obj_get (?ps sec) ''redirect_uri''), (''state'', JStr (stateIn sec))] @
      (if truthy org then [(''organizationId'', org)] else [])"
  let ?org = "js_or (obj_get options ''organization'') (opt cl ''organization'')"
  obtain sec s0 where "transaction_create (?tr sec ?org) s0 = (Inr (), s')"
    using assms(4) by (auto simp: buildAuthorizeUrl_def Let_def bindE_Inr_iff eff_run)
  then have tr: "tm_get (transactions s') = JObj (?tr sec ?org)"
    by (auto simp: transaction_create_def tm_create_def tm_get_def eff_run split: prod.splits)
  have base: "conforms BaseLoginOptions (obj_omit [''redirect_uri'', ''appState''] options)"
    using redirect_base [OF assms(2)] Base_optional by (rule conforms_omit)
  have uri: "has_type TString (obj_get options ''redirect_uri'')" "has_type TString (obj_get options ''organization'')"
    "has_type TString (opt cl ''organization'')"
    unfolding opt_def by (rule conforms_get [OF assms(2)] conforms_get [OF assms(1)], simp add: ifaces)+
  have "conforms AuthorizeOptions (?ps sec)"
    using getParams_conforms [OF assms(1) base _ uri(1)] assms(3) by simp
  then have "has_type TString (obj_get (?ps sec) ''scope'')" "has_type TString (obj_get (?ps sec) ''audience'')"
    "has_type TString (obj_get (?ps sec) ''redirect_uri'')"
    by (rule conforms_get, simp add: ifaces)+
  then have "conforms Transaction (?tr sec ?org)"
    using type_or [OF uri(2,3)] type_or [of TString "obj_get (?ps sec) ''audience''" "JStr ''default''"]
    by (simp add: Transaction_def may_def req_def conforms_Cons obj_keys_def obj_get_def [of "_ # _"])
  with tr show ?thesis by blast
qed

section \<open>Tokens\<close>

lemma fold_claims_user:
  assumes "obj_get us k = (if k \<in> set idTokendecoded then JUndef else obj_get cs k)"
    and "fold add_claim kvs (cs, us) = (cs', us')"
  shows "obj_get us' k = (if k \<in> set idTokendecoded then JUndef else obj_get cs' k)"
  using assms
proof (induction kvs arbitrary: cs us)
  case (Cons kv kvs)
  let ?us = "if fst kv \<in> set idTokendecoded then us else obj_set (fst kv) (snd kv) us"
  have "obj_get ?us k = (if k \<in> set idTokendecoded then JUndef else obj_get (obj_set (fst kv) (snd kv) cs) k)"
    using Cons.prems(1) by auto
  from Cons.IH [OF this] Cons.prems(2) show ?case by (simp add: add_claim_def [of kv] cong: if_cong)
qed simp

text \<open>The user of a decoded token is its claims less those of the protocol.\<close>

lemma decode_user:
  assumes "decode t = Inr d" and "k \<noteq> ''__raw''"
  shows "obj_get (user d) k = (if k \<in> set idTokendecoded then JUndef else claim d k)"
proof -
  obtain kvs where "fold add_claim kvs ([(''__raw'', JStr t)], []) = (claims d, user d)"
    using assms(1) by (auto simp: decode_def Let_def bindR_Inr_iff case_prod_beta split: list.splits if_splits)
  then show ?thesis
    unfolding claim_def by (rule fold_claims_user [rotated]) (use assms(2) in \<open>simp add: obj_get_def\<close>)
qed

lemma user_fields: "list_all (\<lambda>p. fst (snd p) \<and> (fst p = ''sub'' \<or> p \<in> set IdToken \<and> fst p \<noteq> ''__raw'')) User"
  by code_simp

lemma decoded_token_typed:
  "has_type (TObject DecodedToken) (decoded_obj d) \<longleftrightarrow>
     has_type (TObject IdToken) (JObj (claims d)) \<and> has_type (TObject User) (JObj (user d))"
proof -
  let ?ob = "[(''encoded'', JObj (encoded d)), (''header'', header d), (''claims'', JObj (claims d)), (''user'', JObj (user d))]"
  have "conforms DecodedToken ?ob \<longleftrightarrow> has_type (TObject IdToken) (obj_get ?ob ''claims'') \<and> has_type (TObject User) (obj_get ?ob ''user'')"
    unfolding DecodedToken_def req_def conforms_Cons by (simp add: obj_keys_def del: has_type.simps)
  then show ?thesis unfolding conforms_def decoded_obj_def by (simp add: obj_get_def del: has_type.simps)
qed

text \<open>
  For an ID token whose claims conform to \<open>IdToken\<close> and whose subject is text, the decoded token has
  the declared type: the user the application sees conforms to \<open>User\<close>.
\<close>

lemma decode_typed:
  assumes "decode t = Inr d" and "conforms IdToken (claims d)" and "has_type TString (claim d ''sub'')"
  shows "conforms User (user d) \<and> has_type (TObject DecodedToken) (decoded_obj d)"
proof -
  have "has_type (snd (snd p)) (obj_get (user d) (fst p))" if p: "p \<in> set User" for p
  proof (cases "fst p = ''sub''")
    case True
    then have "snd (snd p) = TString" using p by (auto simp: User_def may_def)
    with True assms(3) show ?thesis by (simp add: decode_user [OF assms(1)])
  next
    case False
    with p have "p \<in> set IdToken" "fst p \<noteq> ''__raw''" using user_fields by (auto simp: list_all_iff)
    then show ?thesis using assms(2) by (auto simp: decode_user [OF assms(1)] conforms_iff claim_def)
  qed
  moreover have "\<forall>p \<in> set User. fst (snd p)" using user_fields by (simp add: list_all_iff)
  ultimately have "conforms User (user d)" unfolding conforms_iff by blast
  with assms(2) decoded_token_typed [of d] show ?thesis unfolding conforms_def by blast
qed

text \<open>
  C38: the claims of a verified ID token do not conform to \<open>IdToken\<close> when \<open>max_age\<close> is in force or the token
  has several audiences: the interface declares \<open>auth_time\<close> and \<open>aud\<close> as text, while \<open>verify\<close> insists on a
  number for the one and accepts an array for the other.
\<close>

theorem verified_claims_untyped:
  assumes "verify showDate Date_now opts = Inr d"
    and "truthy (jo_max_age opts) \<or> (\<exists>vs. claim d ''aud'' = JArr vs)"
  shows "\<not> conforms IdToken (claims d)"
proof
  assume c: "conforms IdToken (claims d)"
  have "has_type TString (claim d ''auth_time'')" "has_type TString (claim d ''aud'')"
    unfolding claim_def by (rule conforms_get [OF c], simp add: IdToken_def may_def)+
  moreover have "truthy (jo_max_age opts) \<longrightarrow> isNumber (claim d ''auth_time'')"
    using assms(1) by (auto simp: verify_checks check_numbers_def split: if_splits)
  ultimately show False using assms(2) by (cases "claim d ''auth_time''") auto
qed

section \<open>Cache entries and the detailed response\<close>

lemma partial_entry: "conforms CacheEntry ob \<Longrightarrow> has_type (TObject (Partial CacheEntry)) (JObj ob)"
  using conforms_Partial by (simp only: conforms_def)

lemma number_min: "isNumber (js_min a b)"
  unfolding js_min_def by (cases "to_number a"; cases "to_number b") simp_all

text \<open>What \<open>cacheManager.set\<close> stores of a typed entry is a \<open>WrappedCacheEntry\<close>.\<close>

lemma wrap_typed:
  assumes "conforms CacheEntry ob" and "wrapCacheEntry ob now = Inr w"
  shows "has_type Cacheable w"
proof -
  obtain e where w: "w = JObj [(''body'', JObj ob), (''expiresAt'', e)]" "isNumber e"
    using assms(2) number_min by (auto simp: wrapCacheEntry_def bindR_Inr_iff)
  have "conforms WrappedCacheEntry [(''body'', JObj ob), (''expiresAt'', e)]"
    unfolding WrappedCacheEntry_def req_def conforms_Cons
    using partial_entry [OF assms(1)] w(2) by (simp add: obj_keys_def obj_get_def del: has_type.simps(10))
  then have "has_type (TObject WrappedCacheEntry) w" by (simp add: w(1) conforms_def del: has_type.simps)
  then show ?thesis unfolding Cacheable_def by (simp del: has_type.simps(10))
qed

lemma redirect_entry_rest:
  "obj_get (redirect_entry cl tr r d) ''id_token'' = obj_get r ''id_token''"
  "obj_get (redirect_entry cl tr r d) ''refresh_token'' = obj_get r ''refresh_token''"
  "obj_get (redirect_entry cl tr r d) ''oauthTokenScope'' =
     (if truthy (obj_get r ''scope'') then obj_get r ''scope'' else obj_get r ''oauthTokenScope'')"
  "set (obj_keys (redirect_entry cl tr r d)) = set (obj_keys r) \<union> {''decodedToken'', ''audience'', ''scope'', ''client_id''} \<union>
     (if truthy (obj_get r ''scope'') then {''oauthTokenScope''} else {})"
  unfolding redirect_entry_def by (subst obj_get_spread; simp add: wf_obj_def obj_keys_def obj_get_def)+
    (simp add: keys_spread, auto simp: obj_keys_def)

text \<open>
  C27: from a token response, a transaction and an ID token of the declared types a redirect login makes a
  \<open>CacheEntry\<close>, and storing it succeeds and writes a value of the type the cache is declared for.
\<close>

theorem redirect_entry_typed:
  assumes "conforms TokenEndpointResponse r" and "has_type TString (obj_get r ''oauthTokenScope'')" and "conforms Transaction tr"
    and "conforms AuthokClientOptions (cl_options cl)"
    and "decode t = Inr d" and "conforms IdToken (claims d)" and "has_type TString (claim d ''sub'')"
  shows "conforms CacheEntry (redirect_entry cl tr r d) \<and>
    (\<exists>w. wrapCacheEntry (redirect_entry cl tr r d) now = Inr w \<and> has_type Cacheable w)"
proof -
  have r: "has_type TString (obj_get r ''id_token'')" "has_type TString (obj_get r ''access_token'')"
    "has_type TNumber (obj_get r ''expires_in'')" "has_type TString (obj_get r ''refresh_token'')" "has_type TString (obj_get r ''scope'')"
    by (rule conforms_get [OF assms(1)], simp add: ifaces)+
  have k: "{''id_token'', ''access_token'', ''expires_in''} \<subseteq> set (obj_keys r)"
    using assms(1) by (auto simp: TokenEndpointResponse_def req_def may_def conforms_Cons)
  have t: "has_type TString (obj_get tr ''audience'')" "has_type TString (obj_get tr ''scope'')" "has_type TString (opt cl ''client_id'')"
    unfolding opt_def by (rule conforms_get [OF assms(3)] conforms_get [OF assms(4)], simp add: ifaces)+
  have e: "conforms CacheEntry (redirect_entry cl tr r d)"
    unfolding CacheEntry_def req_def may_def conforms_Cons
    using r k t assms(2) decode_typed [OF assms(5-7)] by (simp add: redirect_entry_get redirect_entry_rest del: has_type.simps)
  obtain w where w: "wrapCacheEntry (redirect_entry cl tr r d) now = Inr w"
    by (simp add: wrapCacheEntry_def redirect_entry_get decoded_obj_def obj_get_def [of "_ # _"])
  with wrap_typed [OF e] e show ?thesis by blast
qed
lemma detailed_typed:
  assumes "has_type TString (obj_get e ''id_token'')" and "has_type TString (obj_get e ''access_token'')"
    and "has_type TNumber (obj_get e ''expires_in'')" and "has_type TString (obj_get e ''oauthTokenScope'')"
  shows "conforms GetTokenSilentlyVerboseResponse (detailed_entry e)"
  using assms unfolding GetTokenSilentlyVerboseResponse_def TokenEndpointResponse_def Omit_def req_def may_def
  by (simp add: conforms_Cons detailed_entry_def obj_keys_def obj_get_def [of "_ # _"] del: has_type.simps)

lemma detailed_keys: "set (obj_keys (detailed_entry e)) \<subseteq> fst ` set GetTokenSilentlyVerboseResponse"
  by (auto simp: detailed_entry_def obj_keys_def GetTokenSilentlyVerboseResponse_def TokenEndpointResponse_def Omit_def req_def may_def)

lemma detailed_case:
  assumes "(case entry of JObj ob \<Rightarrow> ret (if truthy (obj_get ob k) then (if b then JObj (detailed_entry ob) else obj_get ob k) else JUndef)
            | _ \<Rightarrow> ret JUndef) s = (Inr v, s')"
    and "truthy v" and b
  shows "\<exists>e. v = JObj (detailed_entry e)"
  using assms by (cases entry) (auto simp: eff_run split: if_splits)

lemma cache_check_detailed:
  assumes "cache_check E cl options s = (Inr v, s')" and "truthy v" and "truthy (obj_get options ''detailedResponse'')"
  shows "\<exists>e. v = JObj (detailed_entry e)"
  using assms(1,2)
  by (auto simp: cache_check_def getEntryFromCache_def bindE_Inr_iff if_act eff_run split: if_splits dest: detailed_case [OF _ _ assms(3)])

lemma fetch_detailed:
  assumes "fetch_token E cl options s = (Inr v, s')" and "truthy (obj_get options ''detailedResponse'')"
  shows "\<exists>e. v = JObj (detailed_entry e)"
  using assms by (auto simp: fetch_token_def Let_def bindE_Inr_iff eff_run)

lemma checked_fetch_detailed:
  assumes "bindE (cache_check E cl options) (\<lambda>entry. if truthy entry then ret entry else m) s = (Inr v, s')"
    and "\<And>s1. m s1 = (Inr v, s') \<Longrightarrow> \<exists>e. v = JObj (detailed_entry e)"
    and "truthy (obj_get options ''detailedResponse'')"
  shows "\<exists>e. v = JObj (detailed_entry e)"
  using assms cache_check_detailed by (fastforce simp: bindE_Inr_iff if_act eff_run split: if_splits)

lemma locked_detailed:
  assumes "getTokenSilently_locked E cl options s = (Inr v, s')" and d: "truthy (obj_get options ''detailedResponse'')"
  shows "\<exists>e. v = JObj (detailed_entry e)"
proof (rule checked_fetch_detailed [OF assms(1) [unfolded getTokenSilently_locked_def] _ d])
  fix s1
  let ?m = "bindE (cache_check E cl options) (\<lambda>entry. if truthy entry then ret entry else fetch_token E cl options)"
  assume "bindE (retryPromise (on_outside (e_acquireLock E)) 10) (\<lambda>locked.
      if \<not> locked then throw TimeoutError else finallyE NeverSettles ?m (lock_released E)) s1 = (Inr v, s')"
  then obtain s2 where "fst (?m s2) = Inr v"
    by (auto simp: bindE_Inr_iff [of "retryPromise _ _"] if_act finallyE_run split: if_splits)
  then have "?m s2 = (Inr v, snd (?m s2))" by (simp add: prod_eq_iff)
  then show "\<exists>e. v = JObj (detailed_entry e)" using checked_fetch_detailed fetch_detailed d by blast
qed

text \<open>
  C26: a silent request for the detailed response, answered from the cache or over the network, gives an
  object with the properties of \<open>GetTokenSilentlyVerboseResponse\<close> and no others: never a refresh token,
  never the decoded token. Its properties have the declared types when those of the entry have.
\<close>

theorem silent_detailed_response:
  assumes "getTokenSilently E cl options s = (Inr v, s')"
    and "truthy (obj_get (silent_options cl options) ''detailedResponse'')"
  shows "\<exists>e ob. v = JObj ob \<and> ob = detailed_entry e \<and>
    {''id_token'', ''access_token'', ''expires_in''} \<subseteq> set (obj_keys ob) \<and>
    set (obj_keys ob) \<subseteq> fst ` set GetTokenSilentlyVerboseResponse \<and> ''refresh_token'' \<notin> set (obj_keys ob) \<and>
    (conforms CacheEntry e \<longrightarrow> conforms GetTokenSilentlyVerboseResponse ob)"
proof -
  obtain e where v: "v = JObj (detailed_entry e)"
    using locked_detailed assms unfolding getTokenSilently_def by blast
  have "conforms GetTokenSilentlyVerboseResponse (detailed_entry e)" if "conforms CacheEntry e"
    by (rule detailed_typed; rule conforms_get [OF that]; simp add: CacheEntry_def req_def may_def)
  moreover have "{''id_token'', ''access_token'', ''expires_in''} \<subseteq> set (obj_keys (detailed_entry e))"
    "''refresh_token'' \<notin> set (obj_keys (detailed_entry e))"
    by (auto simp: detailed_entry_def obj_keys_def)
  ultimately show ?thesis using v detailed_keys by blast
qed

section \<open>Token requests\<close>

lemma OAuthTokenOptions_table: "OAuthTokenOptions =
   [(''code_verifier'', False, TString), (''code'', False, TString), (''redirect_uri'', False, TString),
    (''audience'', False, TString), (''scope'', False, TString), (''baseUrl'', False, TString),
    (''client_id'', False, TString), (''grant_type'', False, TString), (''timeout'', True, TNumber),
    (''authokClient'', False, TAny), (''useFormData'', True, TBoolean)]"
  by (simp add: OAuthTokenOptions_def TokenEndpointOptions_def extends_def req_def may_def)

text \<open>
  The request of a redirect callback has the declared type exactly when the transaction knows the
  redirect URI; without one the code leaves the property out and asserts the type.
\<close>

theorem redirect_request_typed:
  assumes "conforms Transaction tr" and "conforms AuthenticationResult q" and "conforms AuthokClientOptions (cl_options cl)"
  shows "conforms OAuthTokenOptions (redirect_request cl tr q) \<longleftrightarrow> obj_get tr ''redirect_uri'' \<noteq> JUndef"
proof -
  have t: "has_type TString (obj_get tr ''audience'')" "has_type TString (obj_get tr ''scope'')"
    "has_type TString (obj_get tr ''code_verifier'')" "has_type TString (obj_get tr ''redirect_uri'')"
    by (rule conforms_get [OF assms(1)], simp add: ifaces)+
  have c: "has_type TString (opt cl ''client_id'')" "has_type TBoolean (opt cl ''useFormData'')"
    unfolding opt_def by (rule conforms_get [OF assms(3)], simp add: ifaces)+
  have q: "has_type TString (obj_get q ''code'')"
    by (rule conforms_get [OF assms(2)], simp add: ifaces)
  have s: "has_type TString (JStr x)" for x by simp
  show ?thesis
    unfolding OAuthTokenOptions_table conforms_Cons using t c q s
    by (simp add: redirect_request_def obj_keys_def obj_get_def [of "_ # _"] del: has_type.simps(1-3))
qed

end
