(* ===== verification/Silent_Calls.thy ===== *)
theory Silent_Calls
  imports Client_Flows
begin

text \<open>
  Overlapping silent requests. A call of \<open>_getTokenSilently\<close> (\<open>AuthokClient.ts\<close>) is cut at the awaits
  that other code can run between: the first look into the cache, each attempt to get the lock, the
  second look, the exchange with the server, storing its result, giving the lock back. The calls of a
  page are a list of such automata that share one world; a step moves one of them, starts another,
  or lets the rest of the page, other tabs and the server change the world in any way that does not
  touch this page's lock.

  \<open>browser-tabs-lock\<close> is not part of the repository; the locale \<open>tab_lock\<close> states what its
  documentation promises.
\<close>

section \<open>A call and its steps\<close>

datatype phase =
    Checking
  | Acquiring nat
  | Rechecking
  | Fetching
  | Storing obj
  | Releasing "js_error + jsval"
  | Done "js_error + jsval"
  | Hung

text \<open>The exchange, and what is done with its result.\<close>

definition exchange_token :: "('c, 'w) env \<Rightarrow> ('x, 'c) client \<Rightarrow> obj \<Rightarrow> ('x, 'c, 'w, obj) act" where
  "exchange_token E cl options =
     (if truthy (opt cl ''useRefreshTokens'') then getTokenUsingRefreshToken E cl (obj_omit [''ignoreCache''] options)
      else getTokenFromIFrame E cl (obj_omit [''ignoreCache''] options))"

definition store_token :: "('c, 'w) env \<Rightarrow> ('x, 'c) client \<Rightarrow> obj \<Rightarrow> obj \<Rightarrow> ('x, 'c, 'w, jsval) act" where
  "store_token E cl options authResult =
     bindE (cache_set E cl (obj_spread [(''client_id'', opt cl ''client_id'')] authResult)) (\<lambda>_.
     bindE (cookie_write cl (isAuthenticatedCookieName cl) (JBool True)) (\<lambda>_.
       ret (if truthy (obj_get options ''detailedResponse'') then JObj (detailed_entry authResult)
            else obj_get authResult ''access_token'')))"

text \<open>The end of the \<open>try\<close> block: \<open>finally\<close> follows, unless the block never ends.\<close>

definition leaving :: "js_error + jsval \<Rightarrow> phase" where
  "leaving r = (if r = Inl NeverSettles then Hung else Releasing r)"

fun call_step :: "('c, 'w) env \<Rightarrow> ('x, 'c) client \<Rightarrow> obj \<Rightarrow> phase \<Rightarrow> ('x, 'c, 'w) world \<Rightarrow> phase \<times> ('x, 'c, 'w) world" where
  "call_step E cl options Checking s =
     (case cache_check E cl options s of
        (Inl e, s') \<Rightarrow> (Done (Inl e), s')
      | (Inr v, s') \<Rightarrow> (if truthy v then Done (Inr v) else Acquiring 10, s'))"
| "call_step E cl options (Acquiring 0) s = (Done (Inl TimeoutError), s)"
| "call_step E cl options (Acquiring (Suc n)) s =
     (case on_outside (e_acquireLock E) s of
        (Inl e, s') \<Rightarrow> (Done (Inl e), s')
      | (Inr b, s') \<Rightarrow> (if b then Rechecking else Acquiring n, s'))"
| "call_step E cl options Rechecking s =
     (case cache_check E cl options s of
        (Inl e, s') \<Rightarrow> (leaving (Inl e), s')
      | (Inr v, s') \<Rightarrow> (if truthy v then Releasing (Inr v) else Fetching, s'))"
| "call_step E cl options Fetching s =
     (case exchange_token E cl options s of
        (Inl e, s') \<Rightarrow> (leaving (Inl e), s')
      | (Inr authResult, s') \<Rightarrow> (Storing authResult, s'))"
| "call_step E cl options (Storing authResult) s =
     (case store_token E cl options authResult s of (r, s') \<Rightarrow> (leaving r, s'))"
| "call_step E cl options (Releasing r) s = (Done r, lock_released E s)"
| "call_step E cl options (Done r) s = (Done r, s)"
| "call_step E cl options Hung s = (Hung, s)"

fun outcome :: "phase \<Rightarrow> (js_error + jsval) option" where
  "outcome (Done r) = Some r"
| "outcome Hung = Some (Inl NeverSettles)"
| "outcome _ = None"

text \<open>Between getting the lock and giving it back.\<close>

fun critical :: "phase \<Rightarrow> bool" where
  "critical Rechecking = True"
| "critical Fetching = True"
| "critical (Storing r) = True"
| "critical (Releasing r) = True"
| "critical Hung = True"
| "critical _ = False"

lemma leaving_critical [simp]: "critical (leaving r)"
  by (simp add: leaving_def)

text \<open>How many steps of its own a call has left at most.\<close>

fun steps_left :: "phase \<Rightarrow> nat" where
  "steps_left Checking = 15"
| "steps_left (Acquiring n) = n + 4"
| "steps_left Rechecking = 4"
| "steps_left Fetching = 3"
| "steps_left (Storing r) = 2"
| "steps_left (Releasing r) = 1"
| "steps_left (Done r) = 0"
| "steps_left Hung = 0"

section \<open>Interleaved calls\<close>

type_synonym ('x, 'c, 'w) page = "(obj \<times> phase) list \<times> ('x, 'c, 'w) world"

datatype move = Start obj | Run nat | Others

inductive page_step ::
  "('c, 'w) env \<Rightarrow> ('x, 'c) client \<Rightarrow> ('w \<Rightarrow> bool) \<Rightarrow> ('x, 'c, 'w) page \<Rightarrow> move \<Rightarrow> ('x, 'c, 'w) page \<Rightarrow> bool"
  for E cl mine where
  start: "page_step E cl mine (cs, s) (Start options) (cs @ [(options, Checking)], s)"
| run: "i < length cs \<Longrightarrow> cs ! i = (options, p) \<Longrightarrow> call_step E cl options p s = (p', s') \<Longrightarrow>
     page_step E cl mine (cs, s) (Run i) (cs[i := (options, p')], s')"
| others: "mine (outside (http_of s')) = mine (outside (http_of s)) \<Longrightarrow>
     page_step E cl mine (cs, s) Others (cs, s')"

inductive page_run ::
  "('c, 'w) env \<Rightarrow> ('x, 'c) client \<Rightarrow> ('w \<Rightarrow> bool) \<Rightarrow> ('x, 'c, 'w) page \<Rightarrow> move list \<Rightarrow> ('x, 'c, 'w) page \<Rightarrow> bool"
  for E cl mine where
  none: "page_run E cl mine P [] P"
| more: "page_run E cl mine P ms P' \<Longrightarrow> page_step E cl mine P' m P'' \<Longrightarrow> page_run E cl mine P (ms @ [m]) P''"

inductive_cases page_runE: "page_step E cl mine (cs, s) (Run i) P"

definition in_critical :: "(obj \<times> phase) list \<Rightarrow> nat \<Rightarrow> bool" where
  "in_critical cs i = (i < length cs \<and> critical (snd (cs ! i)))"

section \<open>One call alone\<close>

lemma fetch_token_split: "fetch_token E cl options = bindE (exchange_token E cl options) (store_token E cl options)"
  by (simp add: fetch_token_def exchange_token_def store_token_def [abs_def] Let_def)

text \<open>Every step brings a call nearer to its end.\<close>

lemma steps_left_less: "outcome p = None \<Longrightarrow> steps_left (fst (call_step E cl options p s)) < steps_left p"
  by (cases "(E, cl, options, p, s)" rule: call_step.cases)
    (auto simp: leaving_def split: prod.splits sum.splits)

lemma steps_left_0: "steps_left p = 0 \<longleftrightarrow> outcome p \<noteq> None"
  by (cases p) auto

fun call_alone :: "nat \<Rightarrow> ('c, 'w) env \<Rightarrow> ('x, 'c) client \<Rightarrow> obj \<Rightarrow> phase \<Rightarrow> ('x, 'c, 'w) world \<Rightarrow> phase \<times> ('x, 'c, 'w) world" where
  "call_alone 0 E cl options p s = (p, s)"
| "call_alone (Suc n) E cl options p s = (case call_step E cl options p s of (p', s') \<Rightarrow> call_alone n E cl options p' s')"

lemma alone_done: "outcome p \<noteq> None \<Longrightarrow> call_alone n E cl options p s = (p, s)"
  by (induction n; cases p) auto

text \<open>What remains of the method in each phase.\<close>

fun rest :: "('c, 'w) env \<Rightarrow> ('x, 'c) client \<Rightarrow> obj \<Rightarrow> phase \<Rightarrow> ('x, 'c, 'w, jsval) act" where
  "rest E cl options Checking = getTokenSilently_locked E cl options"
| "rest E cl options (Acquiring n) =
     bindE (retryPromise (on_outside (e_acquireLock E)) n) (\<lambda>locked.
       if \<not> locked then throw TimeoutError
       else finallyE NeverSettles
         (bindE (cache_check E cl options) (\<lambda>entry. if truthy entry then ret entry else fetch_token E cl options))
         (lock_released E))"
| "rest E cl options Rechecking =
     finallyE NeverSettles
       (bindE (cache_check E cl options) (\<lambda>entry. if truthy entry then ret entry else fetch_token E cl options))
       (lock_released E)"
| "rest E cl options Fetching = finallyE NeverSettles (fetch_token E cl options) (lock_released E)"
| "rest E cl options (Storing r) = finallyE NeverSettles (store_token E cl options r) (lock_released E)"
| "rest E cl options (Releasing r) = (\<lambda>s. (r, lock_released E s))"
| "rest E cl options (Done r) = liftR r"
| "rest E cl options Hung = throw NeverSettles"

lemma rest_leaving: "rest E cl options (leaving r) s = (r, if r = Inl NeverSettles then s else lock_released E s)"
  by (simp add: leaving_def throw_def)

lemma if_bind: "bindE (if b then m else n) f = (if b then bindE m f else bindE n f)"
  by simp

lemma finally_outcome: "finallyE NeverSettles m f s = (case m s of (r, s') \<Rightarrow> (r, if r = Inl NeverSettles then s' else f s'))"
  by (simp add: finallyE_run split: prod.split)

lemma rest_step: "rest E cl options (fst (call_step E cl options p s)) (snd (call_step E cl options p s)) = rest E cl options p s"
proof (cases p)
  case Checking
  show ?thesis
    unfolding Checking by (simp add: getTokenSilently_locked_def bindE_def [of "cache_check _ _ _"] liftR_def ret_def
        split: prod.split sum.split)
next
  case (Acquiring n)
  show ?thesis
  proof (cases n)
    case (Suc k)
    show ?thesis unfolding Acquiring Suc
      by (simp add: bindE_assoc if_bind) (simp add: bindE_def [of "on_outside _"] liftR_def split: prod.split sum.split)
  qed (simp add: Acquiring liftR_def throw_def)
next
  case Rechecking
  show ?thesis
    unfolding Rechecking by (simp add: finally_outcome rest_leaving bindE_def [of "cache_check _ _ _"] ret_def
        split: prod.split sum.split)
next
  case Fetching
  show ?thesis
    unfolding Fetching by (simp add: finally_outcome rest_leaving fetch_token_split bindE_def ret_def
        split: prod.split sum.split)
qed (simp_all add: finally_outcome rest_leaving liftR_def throw_def split: prod.split)
lemma rest_done: "outcome p = Some r \<Longrightarrow> rest E cl options p s = (r, s)"
  by (cases p) (simp_all add: liftR_def throw_def)

lemma alone_ends:
  assumes "steps_left p \<le> n"
  shows "\<exists>p'. call_alone n E cl options p s = (p', snd (rest E cl options p s)) \<and> outcome p' = Some (fst (rest E cl options p s))"
  using assms
proof (induction n arbitrary: p s)
  case 0
  then obtain r where "outcome p = Some r" using steps_left_0 by auto
  then show ?case by (simp add: rest_done)
next
  case (Suc n)
  show ?case
  proof (cases "outcome p")
    case None
    with Suc.prems steps_left_less [OF None, of E cl options s]
    have "steps_left (fst (call_step E cl options p s)) \<le> n" by linarith
    from Suc.IH [OF this, of "snd (call_step E cl options p s)"] show ?thesis
      by (simp add: rest_step case_prod_beta)
  next
    case (Some r)
    then show ?thesis by (simp add: alone_done rest_done del: call_alone.simps)
  qed
qed

text \<open>
  C16: left alone, a call of \<open>_getTokenSilently\<close> ends after at most fifteen steps, ten of them attempts to
  get the lock, with the outcome and in the state of the method run in one piece.
\<close>

theorem silent_call_alone:
  "\<exists>p. call_alone 15 E cl options Checking s = (p, snd (getTokenSilently_locked E cl options s)) \<and>
     outcome p = Some (fst (getTokenSilently_locked E cl options s))"
  using alone_ends [of Checking 15 E cl options s] by simp

text \<open>A page with one call and nothing else moving.\<close>

lemma call_alone_Suc:
  "call_alone (Suc n) E cl options p s = (case call_alone n E cl options p s of (p', s') \<Rightarrow> call_step E cl options p' s')"
proof (induction n arbitrary: p s)
  case (Suc n)
  obtain q t where q: "call_step E cl options p s = (q, t)" by fastforce
  have "call_alone (Suc (Suc n)) E cl options p s = call_alone (Suc n) E cl options q t"
    by (subst call_alone.simps) (simp only: q prod.case)
  moreover have "call_alone (Suc n) E cl options p s = call_alone n E cl options q t" by (simp add: q)
  ultimately show ?case using Suc.IH [of q t] by (simp only:)
qed (auto split: prod.split)

lemma page_run_alone:
  "\<exists>p s'. page_run E cl mine ([], s) (Start options # replicate n (Run 0)) ([(options, p)], s') \<and>
     call_alone n E cl options Checking s = (p, s')"
proof (induction n)
  case 0
  show ?case using page_run.more [OF page_run.none page_step.start [of E cl mine "[]" s options]] by simp
next
  case (Suc n)
  then obtain p s' where p: "page_run E cl mine ([], s) (Start options # replicate n (Run 0)) ([(options, p)], s')"
    "call_alone n E cl options Checking s = (p, s')" by blast
  obtain p' s'' where "call_step E cl options p s' = (p', s'')" by fastforce
  with p(2) page_run.more [OF p(1) page_step.run [of 0 "[(options, p)]" options p E cl s' p' s'' mine]] show ?case
    by (simp add: call_alone_Suc replicate_append_same del: call_alone.simps)
qed

section \<open>The lock\<close>

definition held :: "('w \<Rightarrow> bool) \<Rightarrow> ('x, 'c, 'w) world \<Rightarrow> bool" where
  "held mine s = mine (outside (http_of s))"

lemma held_inside [keeps_intros]:
  "keeps (held mine) (on_store m)" "keeps (held mine) (cookie_write cl k v)" "keeps (held mine) (cookie_drop cl k)"
  "keeps (held mine) (visit how url)"
  by (simp_all add: keeps_def act_run visit_def held_def)

definition lock_inv :: "('w \<Rightarrow> bool) \<Rightarrow> ('x, 'c, 'w) page \<Rightarrow> bool" where
  "lock_inv mine P = (case P of (cs, s) \<Rightarrow>
     (\<forall>i j. in_critical cs i \<and> in_critical cs j \<longrightarrow> i = j) \<and> (held mine s \<longleftrightarrow> (\<exists>i. in_critical cs i)))"

lemma keeps_run: "keeps f m \<Longrightarrow> m s = (r, s') \<Longrightarrow> f s' = f s"
  by (metis keeps_def snd_conv)

lemma keeps_obj_case [keeps_intros]:
  "(\<And>ob. keeps f (m ob)) \<Longrightarrow> keeps f n \<Longrightarrow> keeps f (case v of JObj ob \<Rightarrow> m ob | _ \<Rightarrow> n)"
  by (cases v) simp_all

text \<open>
  \<open>mine w\<close>: in the world \<open>w\<close> this page holds the lock. It is got only when the page does not hold it,
  a refused attempt changes nothing, giving it back frees it, and neither requests, random numbers nor
  an iframe touch it.
\<close>

locale tab_lock =
  fixes E :: "('c, 'w) env" and mine :: "'w \<Rightarrow> bool"
  assumes acquired: "e_acquireLock E w = (True, w') \<Longrightarrow> \<not> mine w \<and> mine w'"
    and refused: "e_acquireLock E w = (False, w') \<Longrightarrow> mine w' = mine w"
    and released: "\<not> mine (e_releaseLock E w)"
    and network: "mine (snd (e_net E rq w)) = mine w"
    and random: "mine (snd (e_random E w)) = mine w"
    and iframe: "mine (snd (e_iframe E url timeout w)) = mine w"
begin

lemma held_frame [keeps_intros]:
  "keeps (held mine) (on_outside (e_random E))" "keeps (held mine) (on_outside (e_iframe E url t))" "keeps (held mine) (token_request E cl ob)"
proof -
  show "keeps (held mine) (token_request E cl ob)"
    using oauthToken_keeps [of mine "e_net E" ob "worker cl"] network
    by (simp add: keeps_def token_request_def on_http_run held_def)
qed (simp_all add: keeps_def act_run held_def random iframe)

lemma held_verify [keeps_intros]: "keeps (held mine) (verifyIdToken E cl t n g)"
  by (rule verify_keeps)

lemma held_secrets [keeps_intros]: "keeps (held mine) (make_secrets E)"
  unfolding make_secrets_def random_string_def by (intro keeps_intros)

lemma held_logout [keeps_intros]: "keeps (held mine) (login_required_logout cl e)"
  unfolding login_required_logout_def logout_def Let_def postCacheClear_def by (intro keeps_intros)

lemma held_check [keeps_intros]: "keeps (held mine) (cache_check E cl options)"
  unfolding cache_check_def getEntryFromCache_def cache_get_def by (intro keeps_intros)

lemma held_iframe_exchange [keeps_intros]: "keeps (held mine) (iframe_exchange E cl options sec params url)"
  unfolding iframe_exchange_def processOrgIdHint_def by (intro keeps_intros)

lemma held_iframe [keeps_intros]: "keeps (held mine) (getTokenFromIFrame E cl options)"
  unfolding getTokenFromIFrame_def Let_def by (intro keeps_intros)

lemma held_exchange [keeps_intros]: "keeps (held mine) (exchange_token E cl options)"
  unfolding exchange_token_def getTokenUsingRefreshToken_def cache_get_def Let_def by (intro keeps_intros)

lemma held_store [keeps_intros]: "keeps (held mine) (store_token E cl options r)"
  unfolding store_token_def cache_set_def by (intro keeps_intros)

text \<open>A step of a call takes the lock exactly when it enters the critical section, and frees it when it leaves.\<close>

lemma step_lock:
  assumes "call_step E cl options p s = (p', s')"
  shows "held mine s' = (if critical p' = critical p then held mine s else critical p') \<and>
    (critical p' \<and> \<not> critical p \<longrightarrow> \<not> held mine s)"
proof (cases p)
  case (Acquiring n)
  then show ?thesis
    using assms acquired refused by (cases n) (auto simp: on_outside_run held_def split: if_splits, (metis prod.collapse)+)
next
  case (Releasing r)
  then show ?thesis using assms released by (auto simp: held_def lock_released_def)
qed (use assms in \<open>auto split: prod.splits sum.splits if_splits
    dest: keeps_run [OF held_check] keeps_run [OF held_exchange] keeps_run [OF held_store]\<close>)

text \<open>The lock is held exactly while one call is in its critical section, and never more than one is.\<close>

lemma lock_inv_step:
  assumes "page_step E cl mine P m P'" and "lock_inv mine P"
  shows "lock_inv mine P'"
  using assms
proof (induction rule: page_step.induct)
  case (start cs s options)
  then show ?case by (auto simp: lock_inv_def in_critical_def nth_append)
next
  case (run i cs options p s p' s')
  have c: "in_critical (cs[i := (options, p')]) j = (if j = i then critical p' else in_critical cs j)" for j
    using run.hyps(1) by (auto simp: in_critical_def)
  have i: "in_critical cs i = critical p" using run.hyps(1,2) by (simp add: in_critical_def)
  note l = step_lock [OF run.hyps(3)]
  have u: "in_critical cs j \<Longrightarrow> in_critical cs j' \<Longrightarrow> j = j'" and h: "held mine s \<longleftrightarrow> (\<exists>j. in_critical cs j)" for j j'
    using run.prems by (simp_all add: lock_inv_def)
  show ?case
  proof (cases "critical p' = critical p")
    case True
    then have "in_critical (cs[i := (options, p')]) = in_critical cs" using c i by (simp add: fun_eq_iff)
    with True l run.prems show ?thesis by (simp add: lock_inv_def)
  next
    case False
    show ?thesis
    proof (cases "critical p'")
      case True
      with False l h have "\<not> in_critical cs j" for j by auto
      with True False l c [of i] show ?thesis by (auto simp: lock_inv_def c)
    next
      case out: False
      with False i have "in_critical cs i" by simp
      then have "in_critical (cs[i := (options, p')]) j \<longleftrightarrow> False" for j using u [of j i] c [of j] out by auto
      with out False l show ?thesis by (auto simp: lock_inv_def)
    qed
  qed
next
  case (others s' s cs)
  then show ?case by (simp add: lock_inv_def held_def)
qed

lemma lock_inv_run: "page_run E cl mine P ms P' \<Longrightarrow> lock_inv mine P \<Longrightarrow> lock_inv mine P'"
  by (induction rule: page_run.induct) (auto intro: lock_inv_step)

end

section \<open>Properties of overlapping calls\<close>

text \<open>
  C8: whatever the interleaving of the calls of a page, with each other and with everything else, at most
  one of them is between getting the lock and giving it back, and the page holds the lock exactly
  while one is: no call runs its exchange beside another, and none leaves the lock behind.
\<close>

theorem silent_mutual_exclusion:
  assumes "tab_lock E mine" and "\<not> held mine s0" and "page_run E cl mine ([], s0) ms (cs, s)"
  shows "(\<forall>i j. in_critical cs i \<and> in_critical cs j \<longrightarrow> i = j) \<and> (held mine s \<longleftrightarrow> (\<exists>i. in_critical cs i))"
  using tab_lock.lock_inv_run [OF assms(1,3)] assms(2) by (auto simp: lock_inv_def in_critical_def)
text \<open>The steps a call has made and those it may still make are fifteen at most, while it is under way.\<close>

definition steps_inv :: "move list \<Rightarrow> (obj \<times> phase) list \<Rightarrow> bool" where
  "steps_inv ms cs =
     (\<forall>i. if i < length cs
          then outcome (snd (cs ! i)) = None \<longrightarrow> count_list ms (Run i) + steps_left (snd (cs ! i)) \<le> 15
          else count_list ms (Run i) = 0)"

lemma outcome_stays: "outcome p = Some r \<Longrightarrow> call_step E cl options p s = (p, s)"
  by (cases p) auto

lemma steps_inv_step:
  assumes "page_step E cl mine P m P'" and "steps_inv ms (fst P)"
  shows "steps_inv (ms @ [m]) (fst P')"
  using assms
proof (induction rule: page_step.induct)
  case (start cs s options)
  show ?case
    unfolding steps_inv_def
  proof
    fix i
    show "if i < length (fst (cs @ [(options, Checking)], s))
      then outcome (snd (fst (cs @ [(options, Checking)], s) ! i)) = None \<longrightarrow>
        count_list (ms @ [Start options]) (Run i) + steps_left (snd (fst (cs @ [(options, Checking)], s) ! i)) \<le> 15
      else count_list (ms @ [Start options]) (Run i) = 0"
      using spec [OF start.prems [unfolded steps_inv_def], of i] by (auto simp: nth_append split: if_splits)
  qed
next
  case (run i cs options p s p' s')
  have "outcome p' = None \<longrightarrow> Suc (count_list ms (Run i)) + steps_left p' \<le> 15"
  proof
    assume p': "outcome p' = None"
    then have p: "outcome p = None"
      using run.hyps(3) outcome_stays [of p _ E cl options s] by (cases "outcome p") auto
    then have "count_list ms (Run i) + steps_left p \<le> 15"
      using run.prems run.hyps(1,2) by (auto simp: steps_inv_def dest: spec [of _ i])
    moreover have "steps_left p' < steps_left p"
      using steps_left_less [OF p, of E cl options s] run.hyps(3) by simp
    ultimately show "Suc (count_list ms (Run i)) + steps_left p' \<le> 15" by simp
  qed
  then show ?case using run.prems run.hyps(1,2) by (auto simp: steps_inv_def nth_list_update)
next
  case (others s' s cs)
  then show ?case by (simp add: steps_inv_def)
qed

lemma steps_inv_run: "page_run E cl mine P ms P' \<Longrightarrow> steps_inv [] (fst P) \<Longrightarrow> steps_inv ms (fst P')"
  by (induction rule: page_run.induct) (auto intro: steps_inv_step)


text \<open>Storing the result of an exchange in the in-memory cache.\<close>

lemma storing_step:
  assumes "cacheManager cl = manager InMemoryCache" and "wf_store (store_of s)"
    and "entry = obj_spread [(''client_id'', opt cl ''client_id'')] r" and "token_entry entry e x"
  shows "\<exists>v t c. call_step E cl options (Storing r) s = (Releasing (Inr v), s\<lparr>store_of := t, site_of := c\<rparr>) \<and> wf_store t \<and>
    mem_view t = (mem_view (store_of s))(toKey (fromCacheEntry entry) \<mapsto> wrapped entry (expiry (e_now E (outside (http_of s))) e x))"
proof -
  let ?now = "e_now E (outside (http_of s))"
  obtain t where t: "cm_set (cacheManager cl) entry ?now (store_of s) = (Inr (), t)" "wf_store t"
     "mem_view t = (mem_view (store_of s))(toKey (fromCacheEntry entry) \<mapsto> wrapped entry (expiry ?now e x))"
    using memory.cm_set_view [OF assms(2) _ _ wrap_token_entry [OF assms(4)], of "manager InMemoryCache"] assms(1)
    by (auto simp: manager_def wrapped_def)
  then show ?thesis
    using assms(3) by (auto simp: store_token_def cache_set_def bindE_def act_run leaving_def)
qed

text \<open>
  C21: the second look into the cache spares a request: when a call that held the lock has stored its
  tokens and given the lock back, a waiting call for the same audience and scope that then gets the lock
  finds them and leaves with that access token, without a request of its own.
\<close>

theorem second_call_served:
  assumes "cacheManager cl = manager InMemoryCache" and "wf_store (store_of s)"
    and "entry = obj_spread [(''client_id'', opt cl ''client_id'')] r" and "token_entry entry e x" and "obj_get entry ''client_id'' = opt cl ''client_id''" and "truthy (obj_get entry ''access_token'')"
    and "obj_get entry ''audience'' = js_or (obj_get options' ''audience'') (JStr ''default'')"
    and "obj_get entry ''scope'' = obj_get options' ''scope''"
    and "\<not> truthy (obj_get options' ''ignoreCache'')" and "\<not> truthy (obj_get options' ''detailedResponse'')"
  shows "\<exists>v s1 s2. call_step E cl options (Storing r) s = (Releasing (Inr v), s1) \<and>
    call_step E cl options (Releasing (Inr v)) s1 = (Done (Inr v), s2) \<and>
    (\<forall>s3. store_of s3 = store_of s2 \<and>
        js_floor (e_now E (outside (http_of s3)) / 1000) \<le> expiry (e_now E (outside (http_of s))) e x - 60 \<longrightarrow>
      (\<exists>s4. call_step E cl options' Rechecking s3 = (Releasing (Inr (obj_get entry ''access_token'')), s4) \<and>
         http_of s4 = http_of s3))"
proof -
  let ?now = "e_now E (outside (http_of s))"
  let ?k = "CacheKey (opt cl ''client_id'') (js_or (obj_get options' ''audience'') (JStr ''default'')) (obj_get options' ''scope'')"
  have k: "fromCacheEntry entry = ?k"
    using assms(5,7,8) by (simp add: fromCacheEntry_def)
  obtain v t c where st: "call_step E cl options (Storing r) s = (Releasing (Inr v), s\<lparr>store_of := t, site_of := c\<rparr>)"
     "wf_store t" "mem_view t = (mem_view (store_of s))(toKey ?k \<mapsto> wrapped entry (expiry ?now e x))"
    using storing_step [OF assms(1-4), of E options] unfolding k by blast
  have "\<exists>s4. call_step E cl options' Rechecking s3 = (Releasing (Inr (obj_get entry ''access_token'')), s4) \<and> http_of s4 = http_of s3"
    if st3: "store_of s3 = t" "js_floor (e_now E (outside (http_of s3)) / 1000) \<le> expiry ?now e x - 60" for s3
  proof -
    have "cm_cache (cacheManager cl) = InMemoryCache" using assms(1) by (simp add: manager_def)
    moreover have "wf_store (store_of s3)" "mem_view (store_of s3) (toKey ?k) = Some (wrapped entry (expiry ?now e x))"
      by (simp_all add: st3(1) st(2,3))
    ultimately obtain t' where "cache_check E cl options' s3 = (Inr (obj_get entry ''access_token''), s3\<lparr>store_of := t'\<rparr>)"
      using memory.cache_check_hit [OF _ _ _ st3(2) assms(6,9)] assms(10) by auto
    then show ?thesis using assms(6) by simp
  qed
  then show ?thesis
    by (intro exI [of _ v] exI [of _ "s\<lparr>store_of := t, site_of := c\<rparr>"] exI conjI) (use st(1) in \<open>auto simp: lock_released_def\<close>)
qed

text \<open>
  C37: a logout does not stop a silent request that is under way: when the call stores its tokens after a
  local logout of the same page, the user who was logged out is authenticated again.
\<close>

theorem logout_overtaken:
  assumes "cacheManager cl = manager InMemoryCache" and "\<not> truthy (opt cl ''cache'')"
    and "no_stray (store_of s)" and "entry = obj_spread [(''client_id'', opt cl ''client_id'')] r" and "token_entry entry e x"
    and "fromCacheEntry entry = CacheKey (opt cl ''client_id'') (js_or (opt cl ''audience'') (JStr ''default'')) (scopes_of cl JUndef)"
    and "truthy (obj_get entry ''access_token'')" and "obj_get entry ''decodedToken'' = decoded_obj d"
    and "js_floor (e_now E (outside (http_of s)) / 1000) \<le> expiry (e_now E (outside (http_of s))) e x - 60"
    and "i < length cs" and "cs ! i = (options, Storing r)"
  shows "\<exists>s1 p s2 s3. logout cl [(''localOnly'', JBool True)] s = (Inr (), s1) \<and> isAuthenticated E cl s1 = (Inr False, s1) \<and>
    page_step E cl mine (cs, s) Others (cs, s1) \<and> page_step E cl mine (cs, s1) (Run i) (cs[i := (options, p)], s2) \<and>
    isAuthenticated E cl s2 = (Inr True, s3)"
proof -
  have b: "built_in cl" and C: "cm_cache (cacheManager cl) = InMemoryCache"
    using assms(1,2) by (simp_all add: built_in_def manager_def)
  obtain t u where l: "logout cl [(''localOnly'', JBool True)] s = (Inr (), s\<lparr>store_of := t, site_of := u\<rparr>)"
     "wf_store t" "\<forall>c a sc adj now. cm_get (cacheManager cl) (CacheKey c a (JStr sc)) adj now t = (Inr JUndef, t)"
    using logout_local_run [OF b assms(3)] by blast
  let ?s = "s\<lparr>store_of := t, site_of := u\<rparr>"
  obtain v t' c where st: "call_step E cl options (Storing r) ?s = (Releasing (Inr v), ?s\<lparr>store_of := t', site_of := c\<rparr>)"
     "wf_store t'" "mem_view t' = (mem_view t)(toKey (fromCacheEntry entry) \<mapsto> wrapped entry (expiry (e_now E (outside (http_of s))) e x))"
    using storing_step [OF assms(1) _ assms(4,5), of ?s E options] l(2) by auto
  have "\<exists>s3. isAuthenticated E cl (?s\<lparr>store_of := t', site_of := c\<rparr>) = (Inr True, s3)"
    using memory.cached_session [OF C, of "?s\<lparr>store_of := t', site_of := c\<rparr>" entry _ E d] st(2,3) assms(6-9) by auto
  moreover have "isAuthenticated E cl ?s = (Inr False, ?s)" using l(3) by (intro isAuthenticated_nothing) simp
  moreover have "page_step E cl mine (cs, s) Others (cs, ?s)" by (rule page_step.others) simp
  moreover have "page_step E cl mine (cs, ?s) (Run i) (cs[i := (options, Releasing (Inr v))], ?s\<lparr>store_of := t', site_of := c\<rparr>)"
    by (rule page_step.run [OF assms(10,11) st(1)])
  ultimately show ?thesis using l(1) by blast
qed

end
