(* ===== verification/Shared_Calls.thy ===== *)
theory Shared_Calls
  imports Silent_Calls
begin

text \<open>
  \<open>getTokenSilently\<close> as the page sees it: \<open>singlePromise\<close> (\<open>promise-utils.ts\<close>) in front of the calls of
  \<open>_getTokenSilently\<close>. A request either gets the promise under way for its key or starts a call of its own;
  promises are numbered in the order they are created, so promise \<open>p\<close> is the \<open>p\<close>-th call. When a call is
  over, the \<open>finally\<close> of its promise takes the key out of the map; other code may run before that.
\<close>

section \<open>Requests, promises and calls\<close>

record ('x, 'c, 'w) shared =
  sh_single :: single_state
  sh_calls :: "(obj \<times> phase) list"
  sh_world :: "('x, 'c, 'w) world"

definition shared_init :: "('x, 'c, 'w) world \<Rightarrow> ('x, 'c, 'w) shared" where
  "shared_init s = \<lparr>sh_single = single_init, sh_calls = [], sh_world = s\<rparr>"

text \<open>The key of a call with all its options: client, audience and scope.\<close>

definition call_key :: "('x, 'c) client \<Rightarrow> obj \<Rightarrow> string" where
  "call_key cl options =
     to_string (opt cl ''client_id'') @ ''::'' @ to_string (obj_get options ''audience'') @ ''::'' @
     to_string (obj_get options ''scope'')"

definition request_token ::
  "('x, 'c) client \<Rightarrow> obj \<Rightarrow> ('x, 'c, 'w) shared \<Rightarrow> nat \<times> ('x, 'c, 'w) shared" where
  "request_token cl options S =
     (case singlePromise (silent_key cl options) (sh_single S) of (p, st) \<Rightarrow>
        (p, S\<lparr>sh_single := st,
              sh_calls := (if p = next_promise (sh_single S) then sh_calls S @ [(silent_options cl options, Checking)]
                           else sh_calls S)\<rparr>))"

datatype shared_move = Request obj nat | Step nat | Settle nat | Outside

inductive shared_step ::
  "('c, 'w) env \<Rightarrow> ('x, 'c) client \<Rightarrow> ('w \<Rightarrow> bool) \<Rightarrow> ('x, 'c, 'w) shared \<Rightarrow> shared_move \<Rightarrow> ('x, 'c, 'w) shared \<Rightarrow> bool"
  for E cl mine where
  request: "request_token cl options S = (p, S') \<Longrightarrow> shared_step E cl mine S (Request options p) S'"
| step: "i < length (sh_calls S) \<Longrightarrow> sh_calls S ! i = (options, ph) \<Longrightarrow>
     call_step E cl options ph (sh_world S) = (ph', s') \<Longrightarrow>
     shared_step E cl mine S (Step i) (S\<lparr>sh_calls := (sh_calls S)[i := (options, ph')], sh_world := s'\<rparr>)"
| settles: "(p, key) \<in> set (running (sh_single S)) \<Longrightarrow> p < length (sh_calls S) \<Longrightarrow>
     outcome (snd (sh_calls S ! p)) = Some r \<Longrightarrow> r \<noteq> Inl NeverSettles \<Longrightarrow>
     shared_step E cl mine S (Settle p) (S\<lparr>sh_single := settle p key (sh_single S)\<rparr>)"
| outside: "mine (outside (http_of s')) = mine (outside (http_of (sh_world S))) \<Longrightarrow>
     shared_step E cl mine S Outside (S\<lparr>sh_world := s'\<rparr>)"

inductive shared_reach ::
  "('c, 'w) env \<Rightarrow> ('x, 'c) client \<Rightarrow> ('w \<Rightarrow> bool) \<Rightarrow> ('x, 'c, 'w) shared \<Rightarrow> ('x, 'c, 'w) shared \<Rightarrow> bool"
  for E cl mine where
  here: "shared_reach E cl mine S S"
| further: "shared_reach E cl mine S S' \<Longrightarrow> shared_step E cl mine S' m S'' \<Longrightarrow> shared_reach E cl mine S S''"

section \<open>The calls are those of a page\<close>

text \<open>Without \<open>singlePromise\<close> the requests that start a call, and the steps, are moves of \<open>page_step\<close>.\<close>

lemma shared_step_page:
  assumes "shared_step E cl mine S m S'"
  shows "(sh_calls S', sh_world S') = (sh_calls S, sh_world S) \<or>
    (\<exists>m'. page_step E cl mine (sh_calls S, sh_world S) m' (sh_calls S', sh_world S'))"
  using assms
proof (induction rule: shared_step.induct)
  case (request options S p S')
  then show ?case
    using page_step.start [of E cl mine "sh_calls S" "sh_world S" "silent_options cl options"]
    by (auto simp: request_token_def split: prod.splits if_splits)
next
  case (step i S options ph ph' s')
  then show ?case using page_step.run [of i "sh_calls S" options ph E cl "sh_world S" ph' s' mine] by auto
next
  case (settles p key S r)
  then show ?case by simp
next
  case (outside s' S)
  then show ?case using page_step.others [of mine s' "sh_world S" E cl "sh_calls S"] by auto
qed

lemma shared_reach_page:
  assumes "shared_reach E cl mine S S'"
  shows "\<exists>ms. page_run E cl mine (sh_calls S, sh_world S) ms (sh_calls S', sh_world S')"
  using assms
proof (induction rule: shared_reach.induct)
  case (here S)
  show ?case using page_run.none by blast
next
  case (further S S' m S'')
  then show ?case using shared_step_page [OF further.hyps(2)] page_run.more by metis
qed

section \<open>One call for a key\<close>

text \<open>
  Every promise in the map is a call for its key, and every call that is not over is in the map.
\<close>

definition shared_inv :: "('x, 'c) client \<Rightarrow> ('x, 'c, 'w) shared \<Rightarrow> bool" where
  "shared_inv cl S =
     (single_inv (sh_single S) \<and> next_promise (sh_single S) = length (sh_calls S) \<and>
      (\<forall>p key. (p, key) \<in> set (running (sh_single S)) \<longrightarrow> p < length (sh_calls S) \<and> key = call_key cl (fst (sh_calls S ! p))) \<and>
      (\<forall>p < length (sh_calls S). outcome (snd (sh_calls S ! p)) = None \<longrightarrow>
         (p, call_key cl (fst (sh_calls S ! p))) \<in> set (running (sh_single S))))"

lemma silent_key_call: "silent_key cl options = call_key cl (silent_options cl options)"
  by (simp add: silent_key_def call_key_def)
lemma shared_invD:
  assumes "shared_inv cl S"
  shows "single_inv (sh_single S)" "next_promise (sh_single S) = length (sh_calls S)"
    "(p, key) \<in> set (running (sh_single S)) \<Longrightarrow> p < length (sh_calls S) \<and> key = call_key cl (fst (sh_calls S ! p))"
    "p < length (sh_calls S) \<Longrightarrow> outcome (snd (sh_calls S ! p)) = None \<Longrightarrow>
       map_of (singlePromiseMap (sh_single S)) (call_key cl (fst (sh_calls S ! p))) = Some p"
proof -
  show inv: "single_inv (sh_single S)" "next_promise (sh_single S) = length (sh_calls S)"
    "(p, key) \<in> set (running (sh_single S)) \<Longrightarrow> p < length (sh_calls S) \<and> key = call_key cl (fst (sh_calls S ! p))"
    using assms by (simp_all add: shared_inv_def)
  assume "p < length (sh_calls S)" "outcome (snd (sh_calls S ! p)) = None"
  then have "(p, call_key cl (fst (sh_calls S ! p))) \<in> set (running (sh_single S))" using assms by (simp add: shared_inv_def)
  then show "map_of (singlePromiseMap (sh_single S)) (call_key cl (fst (sh_calls S ! p))) = Some p"
    using inv(1) unfolding single_inv_def by blast
qed

lemma shared_inv_request:
  assumes "shared_inv cl S" and "request_token cl options S = (p, S')"
  shows "shared_inv cl S' \<and> p < length (sh_calls S') \<and> call_key cl (fst (sh_calls S' ! p)) = silent_key cl options"
proof -
  let ?key = "silent_key cl options" and ?st = "sh_single S"
  obtain st where st: "singlePromise ?key ?st = (p, st)" "S' = S\<lparr>sh_single := st, sh_calls :=
      (if p = next_promise ?st then sh_calls S @ [(silent_options cl options, Checking)] else sh_calls S)\<rparr>"
    using assms(2) by (auto simp: request_token_def split: prod.splits)
  have inv: "single_inv ?st" "next_promise ?st = length (sh_calls S)" using assms(1) by (simp_all add: shared_inv_def)
  have st_inv: "single_inv st" using single_inv_step [OF single_step.call [OF st(1)] inv(1)] .
  show ?thesis
  proof (cases "map_of (singlePromiseMap ?st) ?key")
    case None
    then have p: "p = length (sh_calls S)" "next_promise st = Suc p" "running st = (p, ?key) # running ?st"
      using st(1) inv(2) by (auto simp: singlePromise_def)
    have S': "sh_single S' = st" "sh_calls S' = sh_calls S @ [(silent_options cl options, Checking)]"
      using st(2) p(1) inv(2) by simp_all
    show ?thesis
      using assms(1) st_inv unfolding shared_inv_def S' p
      by (auto simp: nth_append silent_key_call less_Suc_eq)
  next
    case (Some q)
    then have q: "p = q" "st = ?st" "(p, ?key) \<in> set (running ?st)"
      using st(1) inv(1) by (auto simp: singlePromise_def single_inv_def)
    then have "p < length (sh_calls S)" "?key = call_key cl (fst (sh_calls S ! p))" using assms(1) by (auto simp: shared_inv_def)
    then show ?thesis using assms(1) st(2) q(2) inv(2) by simp
  qed
qed

lemma shared_inv_step:
  assumes "shared_step E cl mine S m S'" and "shared_inv cl S"
  shows "shared_inv cl S'"
  using assms
proof (induction rule: shared_step.induct)
  case (request options S p S')
  then show ?case using shared_inv_request by blast
next
  case (step i S options ph ph' s')
  have "outcome ph = None" if "outcome ph' = None"
    using that step.hyps(3) outcome_stays [of ph _ E cl options "sh_world S"] by (cases "outcome ph") auto
  then have "outcome (snd ((sh_calls S)[i := (options, ph')] ! q)) = None \<longrightarrow> outcome (snd (sh_calls S ! q)) = None" for q
    using step.hyps(1,2) by (cases "q = i") simp_all
  moreover have "fst ((sh_calls S)[i := (options, ph')] ! q) = fst (sh_calls S ! q)" for q
    using step.hyps(1,2) by (cases "q = i") simp_all
  ultimately show ?case using step.prems by (simp add: shared_inv_def)
next
  case (settles p key S r)
  have "single_inv (settle p key (sh_single S))"
    using single_inv_step [OF single_step.settles [OF settles.hyps(1)]] settles.prems by (simp add: shared_inv_def)
  then show ?case using settles by (auto simp: shared_inv_def settle_def)
next
  case (outside s' S)
  then show ?case by (simp add: shared_inv_def)
qed

lemma shared_inv_reach: "shared_reach E cl mine S S' \<Longrightarrow> shared_inv cl S \<Longrightarrow> shared_inv cl S'"
  by (induction rule: shared_reach.induct) (auto intro: shared_inv_step)

lemma shared_inv_init: "shared_inv cl (shared_init s)"
  by (simp add: shared_inv_def shared_init_def single_init_def single_inv_def)

lemma shared_inv_unique:
  assumes "shared_inv cl S" and "i < length (sh_calls S)" "j < length (sh_calls S)"
    and "outcome (snd (sh_calls S ! i)) = None" "outcome (snd (sh_calls S ! j)) = None"
    and "call_key cl (fst (sh_calls S ! i)) = call_key cl (fst (sh_calls S ! j))"
  shows "i = j"
  using shared_invD(4) [OF assms(1,2,4)] shared_invD(4) [OF assms(1,3,5)] unfolding assms(6) by simp

section \<open>Properties of merged requests\<close>

text \<open>
  C17: however requests, steps and completions interleave, there is at most one call under way for a
  client, audience and scope; and a request gets the promise of a call for its own key, the one under way
  if there is one, in which case it starts nothing.
\<close>

theorem requests_merged:
  assumes "shared_reach E cl mine (shared_init s0) S"
  shows "(\<forall>i j. i < length (sh_calls S) \<and> j < length (sh_calls S) \<and>
      outcome (snd (sh_calls S ! i)) = None \<and> outcome (snd (sh_calls S ! j)) = None \<and>
      call_key cl (fst (sh_calls S ! i)) = call_key cl (fst (sh_calls S ! j)) \<longrightarrow> i = j) \<and>
    (\<forall>options p S'. request_token cl options S = (p, S') \<longrightarrow>
      p < length (sh_calls S') \<and> call_key cl (fst (sh_calls S' ! p)) = silent_key cl options \<and>
      (\<forall>i < length (sh_calls S). outcome (snd (sh_calls S ! i)) = None \<and> call_key cl (fst (sh_calls S ! i)) = silent_key cl options \<longrightarrow>
         p = i \<and> S' = S))"
proof -
  have inv: "shared_inv cl S" using shared_inv_reach [OF assms shared_inv_init] .
  have "p = i \<and> S' = S" if r: "request_token cl options S = (p, S')" and i: "i < length (sh_calls S)"
      "outcome (snd (sh_calls S ! i)) = None" "call_key cl (fst (sh_calls S ! i)) = silent_key cl options" for options p S' i
  proof -
    have "map_of (singlePromiseMap (sh_single S)) (silent_key cl options) = Some i"
      using shared_invD(4) [OF inv i(1,2)] i(3) by simp
    then show ?thesis using r i(1) shared_invD(2) [OF inv] by (simp add: request_token_def singlePromise_def split: if_splits)
  qed
  with shared_inv_unique [OF inv] shared_inv_request [OF inv] show ?thesis by meson
qed


end
