(* ===== verification/Sessions.thy ===== *)
theory Sessions
  imports Silent_Calls
begin

text \<open>
  The session of a page over time. A page begins with an empty in-memory cache; from then on the
  application calls methods of the client in any order, silent requests run interleaved with
  them (\<open>Silent_Calls\<close>), and everything outside the cache of this page (cookies, storage, other tabs, the server)
  changes as it likes. The invariant \<open>trust\<close> says that the cache holds nothing but tokens of verified ID tokens and bare
  refresh tokens; every method is shown to preserve it, with the contracts \<open>ensures\<close> of its parts, and what
  the methods hand out follows from it. The application is taken not to write to the objects it is handed.
\<close>

section \<open>Trust in the session\<close>

text \<open>
  What a client may have in its cache: tokens of a verified ID token, or a refresh token alone.
\<close>

definition session_body :: "('x, 'c) client \<Rightarrow> obj \<Rightarrow> bool" where
  "session_body cl b = (verified cl b \<or> (\<exists>rt. b = [(''refresh_token'', rt)]))"

definition session_value :: "('x, 'c) client \<Rightarrow> jsval \<Rightarrow> bool" where
  "session_value cl v = (\<exists>w b. v = JObj w \<and> obj_get w ''body'' = JObj b \<and> session_body cl b)"

definition trusted :: "('x, 'c) client \<Rightarrow> 'x store \<Rightarrow> bool" where
  "trusted cl t = (wf_store t \<and> holds_only mem_view (session_value cl) t)"

definition in_memory :: "('x, 'c) client \<Rightarrow> bool" where
  "in_memory cl = (cacheManager cl = manager InMemoryCache \<and> \<not> truthy (opt cl ''cache''))"

abbreviation trust :: "('x, 'c) client \<Rightarrow> ('x, 'c, 'w) world \<Rightarrow> bool" where
  "trust cl s \<equiv> trusted cl (store_of s)"

text \<open>The clients that keep their tokens in memory, as the constructor builds them unless told otherwise.\<close>

lemma new_client_in_memory:
  assumes "new_AuthokClient E own options st = Inr (cl, tm)" and "\<not> truthy (obj_get options ''cache'')"
    and "to_string (js_or (obj_get options ''cacheLocation'') (JStr CACHE_LOCATION_MEMORY)) = ''memory''"
  shows "in_memory cl"
  using assms
  by (auto simp: in_memory_def new_AuthokClient_def choose_cache_def cacheFactory_def Let_def bindR_Inr_iff opt_def manager_def
      memory.allKeys)

lemma session_cut_closed: "cut_closed (session_value cl)"
  by (auto simp: cut_closed_def session_value_def session_body_def)

lemma on_store_ensures: "ensures J m Q \<Longrightarrow> ensures (\<lambda>s. J (store_of s)) (on_store m) Q"
  by (auto simp: ensures_def on_store_run)

lemma in_memory_manager:
  "in_memory cl \<Longrightarrow> cm_cache (cacheManager cl) = InMemoryCache" "in_memory cl \<Longrightarrow> cm_manifest (cacheManager cl) = None"
  by (simp_all add: in_memory_def manager_def)

lemma cache_get_trust:
  assumes "in_memory cl"
  shows "ensures (trust cl) (cache_get E cl k adj) (\<lambda>v. v = JUndef \<or> (\<exists>b. v = JObj b \<and> session_body cl b))"
proof -
  have "ensures (trust cl) (on_store (cm_get (cacheManager cl) k adj now))
      (\<lambda>v. v = JUndef \<or> (\<exists>b. v = JObj b \<and> session_body cl b))" for now
    unfolding trusted_def
    by (rule on_store_ensures, rule ensures_weaken [OF memory.cm_get_ensures [OF in_memory_manager [OF assms] session_cut_closed]])
      (auto simp: session_value_def)
  then show ?thesis
    unfolding cache_get_def by (intro ensures_bind [OF keeps_ensures [OF keeps_reading(1), where Q = "\<lambda>_. True"]]) simp_all
qed

lemma cache_set_trust:
  assumes "in_memory cl" and "verified cl entry"
  shows "ensures (trust cl) (cache_set E cl entry) (\<lambda>_. True)"
proof -
  have "ensures (trust cl) (on_store (cm_set (cacheManager cl) entry now)) (\<lambda>_. True)" for now
    unfolding trusted_def
  proof (rule on_store_ensures, rule memory.cm_set_ensures [OF in_memory_manager [OF assms(1)]])
    show "session_value cl w \<and> truthy w" if "wrapCacheEntry entry now = Inr w" for w
      using that assms(2) by (auto simp: wrapCacheEntry_def bindR_Inr_iff session_value_def session_body_def obj_get_def [of "_ # _"])
  qed
  then show ?thesis
    unfolding cache_set_def by (intro ensures_bind [OF keeps_ensures [OF keeps_reading(1), where Q = "\<lambda>_. True"]]) simp_all
qed

lemma keeps_trust: "keeps store_of m \<Longrightarrow> ensures (trust cl) m (\<lambda>_. True)"
  by (rule keeps_ensures) simp_all

lemma token_request_trust: "ensures (trust cl') (token_request E cl ob) wf_obj"
  unfolding token_request_def using oauthToken_sound [of "e_net E" ob "worker cl"]
  by (intro keeps_ensures keeps_intros) (auto simp: on_http_run ensures_def)

lemma verifyIdToken_trust:
  "ensures (trust cl) (verifyIdToken E cl (obj_get tok ''id_token'') nonce org)
     (\<lambda>d. \<forall>r. obj_get r ''id_token'' = obj_get tok ''id_token'' \<longrightarrow> obj_get r ''decodedToken'' = decoded_obj d \<longrightarrow> verified cl r)"
  by (rule keeps_ensures [OF verify_keeps]) (blast intro: verifyIdToken_verified)


lemma make_secrets_keeps: "keeps store_of (make_secrets E)"
  unfolding make_secrets_def random_string_def by (intro keeps_intros)

lemma org_hint_keeps: "keeps store_of (processOrgIdHint cl org)"
  unfolding processOrgIdHint_def by (intro keeps_intros)

text \<open>The steps of an exchange with the server, and the steps that ask for nothing.\<close>

lemmas trust_intros = ensures_bind [OF token_request_trust] ensures_bind [OF verifyIdToken_trust]
  ensures_bind [OF ensures_basic(3) [where Q = "\<lambda>_. True", OF TrueI]]
  ensures_bind [OF ensures_basic(4) [where Q = "\<lambda>_. True", OF TrueI]]
  ensures_if ensures_option ensures_sum

lemma finish_login_trust:
  assumes "in_memory cl" and "verified cl entry"
  shows "ensures (trust cl) (finish_login E cl entry d) (\<lambda>_. True)"
  unfolding finish_login_def
  by (intro ensures_bind [OF cache_set_trust [OF assms]] keeps_trust keeps_intros org_hint_keeps)

lemma redirect_entry_token: "obj_get (redirect_entry cl tr toks d) ''id_token'' = obj_get toks ''id_token''"
  unfolding redirect_entry_def by (subst obj_get_spread; simp add: wf_obj_def obj_keys_def obj_get_def)

lemma finish_redirect_trust:
  assumes "in_memory cl"
  shows "ensures (trust cl) (finish_redirect E cl tr q) (\<lambda>_. True)"
  unfolding finish_redirect_def Let_def
  by (intro trust_intros ensures_bind [OF finish_login_trust [OF assms]] ensures_basic TrueI)
    (simp add: redirect_entry_token redirect_entry_get)

lemma callback_trust:
  assumes "in_memory cl"
  shows "ensures (trust cl) (handleRedirectCallback E cl url) (\<lambda>_. True)"
  unfolding handleRedirectCallback_def Let_def
  by (intro trust_intros ensures_bind [OF keeps_trust] keeps_intros finish_redirect_trust [OF assms] ensures_basic TrueI)

lemma authorize_keeps: "keeps store_of (buildAuthorizeUrl E cl options)"
  unfolding buildAuthorizeUrl_def Let_def by (intro keeps_intros make_secrets_keeps)

lemma redirect_keeps: "keeps store_of (loginWithRedirect E cl options)"
  unfolding loginWithRedirect_def by (intro keeps_intros authorize_keeps)

lemma popup_trust:
  assumes "in_memory cl"
  shows "ensures (trust cl) (loginWithPopup E cl options config) (\<lambda>_. True)"
proof -
  have e: "obj_get (obj_spread tok [(''decodedToken'', x), (''scope'', sc), (''audience'', a), (''client_id'', c)]) ''id_token'' =
      obj_get tok ''id_token''"
    "obj_get (obj_spread tok [(''decodedToken'', x), (''scope'', sc), (''audience'', a), (''client_id'', c)]) ''decodedToken'' = x"
    for tok x sc a c by (subst obj_get_spread; simp add: wf_obj_def obj_keys_def obj_get_def)+
  have o: "ensures (trust cl) (case popup config of None \<Rightarrow> on_outside (e_open E (openPopup (e_box E) [])) | Some w \<Rightarrow> ret (Some w)) (\<lambda>_. True)"
    by (intro keeps_trust keeps_intros)
  have r: "ensures (trust cl) (case runPopup w events of None \<Rightarrow> throw NeverSettles | Some r \<Rightarrow> liftR r) (\<lambda>_. True)" for w events
    by (intro keeps_trust keeps_intros)
  show ?thesis
    unfolding loginWithPopup_def popup_exchange_def Let_def
    by (intro ensures_bind [OF o] ensures_bind [OF r] ensures_bind [OF keeps_trust [OF make_secrets_keeps]]
        ensures_bind [OF keeps_trust [OF keeps_store(2)]] trust_intros finish_login_trust [OF assms] ensures_basic TrueI)
      (simp add: e)
qed


lemma postCacheClear_keeps: "keeps store_of (postCacheClear cl localOnly options)"
  unfolding postCacheClear_def by (intro keeps_intros)

lemma logout_trust:
  assumes "in_memory cl"
  shows "ensures (trust cl) (logout cl options) (\<lambda>_. True)"
proof -
  have c: "ensures (trust cl) (on_store (cm_clearSync (cacheManager cl) None)) (\<lambda>_. True)"
    unfolding trusted_def by (intro on_store_ensures memory.cm_clearSync_ensures in_memory_manager [OF assms])
  have "\<not> truthy (opt cl ''cache'')" using assms by (simp add: in_memory_def)
  then show ?thesis
    unfolding logout_def Let_def if_not_P [OF \<open>\<not> truthy (opt cl ''cache'')\<close>]
    by (intro ensures_if ensures_basic(2) ensures_bind [OF c] keeps_trust [OF postCacheClear_keeps])
qed

lemma login_required_trust:
  assumes "in_memory cl"
  shows "ensures (trust cl) (login_required_logout cl e) Q"
  unfolding login_required_logout_def
  by (intro ensures_if ensures_bind [where P = "\<lambda>_. True"] ensures_catch logout_trust [OF assms] ensures_basic TrueI)

text \<open>What the token endpoint answers is an object, so the merged result keeps its ID token.\<close>

definition token_result :: "('x, 'c) client \<Rightarrow> obj \<Rightarrow> bool" where
  "token_result cl r = (verified cl r \<and> wf_obj r)"

lemma iframe_trust:
  assumes "in_memory cl"
  shows "ensures (trust cl) (getTokenFromIFrame E cl options) (token_result cl)"
proof -
  have "ensures (trust cl) (iframe_exchange E cl options sec params url) (token_result cl)" for sec params url
    unfolding iframe_exchange_def
    by (intro trust_intros ensures_bind [OF keeps_trust [OF keeps_store(2)]] ensures_bind [OF keeps_trust [OF org_hint_keeps]]
        ensures_basic) (simp add: token_result_def result_get)
  then show ?thesis
    unfolding getTokenFromIFrame_def Let_def
    by (intro ensures_bind [OF keeps_trust [OF make_secrets_keeps]] ensures_bind [OF keeps_trust [OF keeps_reading(2)]]
        trust_intros ensures_catch login_required_trust [OF assms] TrueI)
qed

lemma refresh_trust:
  assumes "in_memory cl"
  shows "ensures (trust cl) (getTokenUsingRefreshToken E cl options) (token_result cl)"
proof -
  let ?Q = "\<lambda>r. case r of Inl t \<Rightarrow> token_result cl t | Inr t \<Rightarrow> wf_obj t"
  have "ensures (trust cl) (catchE (bindE (token_request E cl ob) (\<lambda>t. ret (Inr t)))
      (\<lambda>e. if refresh_fallback e then bindE (getTokenFromIFrame E cl ob') (\<lambda>t. ret (Inl t)) else throw e)) ?Q" for ob ob'
    by (intro ensures_catch trust_intros ensures_bind [OF iframe_trust [OF assms]] ensures_basic) simp_all
  then show ?thesis
    unfolding getTokenUsingRefreshToken_def Let_def
    by (intro ensures_bind [OF cache_get_trust [OF assms]] trust_intros ensures_bind [where P = ?Q] iframe_trust [OF assms]
        ensures_basic TrueI) (auto simp: token_result_def result_get)
qed

text \<open>What a silent request may answer.\<close>

definition handed_out :: "('x, 'c) client \<Rightarrow> jsval \<Rightarrow> jsval \<Rightarrow> bool" where
  "handed_out cl detailed v = (\<exists>r. verified cl r \<and>
     v = (if truthy detailed then JObj (detailed_entry r) else obj_get r ''access_token''))"

lemma store_trust:
  assumes "in_memory cl" and r: "token_result cl r"
  shows "ensures (trust cl) (store_token E cl options r) (handed_out cl (obj_get options ''detailedResponse''))"
proof -
  have "wf_obj r" "''id_token'' \<in> set (obj_keys r)" "''decodedToken'' \<in> set (obj_keys r)"
    using r obj_get_absent [of _ r] by (fastforce simp: token_result_def verified_def decoded_obj_def)+
  with r have "verified cl (obj_spread [(''client_id'', opt cl ''client_id'')] r)"
    by (auto simp: token_result_def verified_def obj_get_spread)
  from cache_set_trust [OF assms(1) this] r show ?thesis
    unfolding store_token_def by (intro ensures_bind [where P = "\<lambda>_. True"] keeps_trust [OF keeps_store(3)] ensures_basic)
      (auto simp: handed_out_def token_result_def)
qed

lemma exchange_trust: "in_memory cl \<Longrightarrow> ensures (trust cl) (exchange_token E cl options) (token_result cl)"
  unfolding exchange_token_def by (intro ensures_if refresh_trust iframe_trust)

lemma fetch_trust:
  "in_memory cl \<Longrightarrow> ensures (trust cl) (fetch_token E cl options) (handed_out cl (obj_get options ''detailedResponse''))"
  unfolding fetch_token_split by (intro ensures_bind [OF exchange_trust] store_trust)

lemma cache_check_trust:
  assumes "in_memory cl"
  shows "ensures (trust cl) (cache_check E cl options)
    (\<lambda>v. truthy v \<longrightarrow> handed_out cl (obj_get options ''detailedResponse'') v)"
proof -
  have b: "handed_out cl (obj_get options ''detailedResponse'')
      (if truthy (obj_get options ''detailedResponse'') then JObj (detailed_entry b) else obj_get b ''access_token'')"
    if "session_body cl b" "truthy (obj_get b ''access_token'')" for b
    using that by (auto simp: session_body_def handed_out_def obj_get_def [of "[_]"])
  have g: "ensures (trust cl) (case v of JObj ob \<Rightarrow> ret (if truthy (obj_get ob ''access_token'')
        then (if truthy (obj_get options ''detailedResponse'') then JObj (detailed_entry ob) else obj_get ob ''access_token'') else JUndef)
      | _ \<Rightarrow> ret JUndef) (\<lambda>v. truthy v \<longrightarrow> handed_out cl (obj_get options ''detailedResponse'') v)"
    if "v = JUndef \<or> (\<exists>b. v = JObj b \<and> session_body cl b)" for v
    using that b by (cases v) (auto simp: ensures_def eff_run)
  show ?thesis
    unfolding cache_check_def getEntryFromCache_def
    by (intro ensures_if ensures_bind [OF cache_get_trust [OF assms]] g ensures_basic) simp_all
qed

lemma silent_trust:
  assumes "in_memory cl"
  shows "ensures (trust cl) (getTokenSilently E cl options)
    (handed_out cl (obj_get (silent_options cl options) ''detailedResponse''))"
  unfolding getTokenSilently_def getTokenSilently_locked_def
  by (intro ensures_bind [OF cache_check_trust [OF assms]] ensures_bind [OF ensures_retry [OF keeps_trust [OF keeps_store(2)]]]
      ensures_if ensures_finally fetch_trust [OF assms] ensures_basic) (simp_all add: lock_released_def)

lemma checkSession_trust:
  assumes "in_memory cl"
  shows "ensures (trust cl) (checkSession E cl options) (\<lambda>_. True)"
proof -
  have go: "ensures (trust cl) (if truthy flag then ret True
            else bindE (cookie_read cl OLD_IS_AUTHENTICATED_COOKIE_NAME) (\<lambda>old.
              if \<not> truthy old then ret False
              else bindE (cookie_write cl (isAuthenticatedCookieName cl) (JBool True)) (\<lambda>_.
                   bindE (cookie_drop cl OLD_IS_AUTHENTICATED_COOKIE_NAME) (\<lambda>_. ret True)))) (\<lambda>_. True)" for flag
    by (intro keeps_trust keeps_intros)
  show ?thesis
    unfolding checkSession_def
    by (intro ensures_bind [OF keeps_trust [OF keeps_reading(2)]] ensures_bind [OF go] ensures_if
        ensures_catch ensures_bind [OF silent_trust [OF assms]] ensures_basic TrueI)
qed

text \<open>What a user can be: nothing, or the user of a verified ID token.\<close>

definition known_part :: "('x, 'c) client \<Rightarrow> (decoded \<Rightarrow> obj) \<Rightarrow> jsval \<Rightarrow> bool" where
  "known_part cl f v = (\<exists>t d. decode t = Inr d \<and> js_same (claim d ''iss'') (JStr (tokenIssuer cl)) \<and>
     (\<forall>c. opt cl ''client_id'' = JStr c \<longrightarrow> audience_ok c d) \<and> v = JObj (f d))"

lemma token_part_known:
  assumes "v = JUndef \<or> (\<exists>b. v = JObj b \<and> session_body cl b)" and "token_part k v = Inr u" and "truthy u"
    and "\<And>d. js_prop (decoded_obj d) k = Inr (JObj (f d))"
  shows "known_part cl f u"
proof -
  obtain b where b: "v = JObj b" "session_body cl b" using assms(1-3) by (auto simp: token_part_def)
  then have "verified cl b" using assms(2,3) by (auto simp: token_part_def session_body_def obj_get_def [of "[_]"])
  then obtain t d where d: "decode t = Inr d" "js_same (claim d ''iss'') (JStr (tokenIssuer cl))"
    "\<forall>c. opt cl ''client_id'' = JStr c \<longrightarrow> audience_ok c d" "obj_get b ''decodedToken'' = decoded_obj d"
    unfolding verified_def by blast
  then have "u = JObj (f d)" using assms(2,4) b(1) by (simp add: token_part_def decoded_obj_def)
  with d show ?thesis unfolding known_part_def by blast
qed

lemma cached_part_trust:
  assumes "in_memory cl" and "\<And>d. js_prop (decoded_obj d) k = Inr (JObj (f d))"
  shows "ensures (trust cl) (bindE (cached_entry E cl options) (\<lambda>cache. liftR (token_part k cache)))
    (\<lambda>u. truthy u \<longrightarrow> known_part cl f u)"
  unfolding cached_entry_def
  by (intro ensures_bind [OF cache_get_trust [OF assms(1)]] ensures_basic) (use token_part_known assms(2) in blast)

lemma getUser_trust: "in_memory cl \<Longrightarrow> ensures (trust cl) (getUser E cl options) (\<lambda>u. truthy u \<longrightarrow> known_part cl user u)"
  unfolding getUser_def by (intro cached_part_trust) (simp_all add: decoded_obj_def obj_get_def)

lemma getIdTokenClaims_trust:
  "in_memory cl \<Longrightarrow> ensures (trust cl) (getIdTokenClaims E cl options) (\<lambda>u. truthy u \<longrightarrow> known_part cl claims u)"
  unfolding getIdTokenClaims_def by (intro cached_part_trust) (simp_all add: decoded_obj_def obj_get_def)

lemma popup_token_trust:
  assumes "in_memory cl"
  shows "ensures (trust cl) (getTokenWithPopup E cl options config) (\<lambda>v. truthy v \<longrightarrow> handed_out cl JUndef v)"
  unfolding getTokenWithPopup_def Let_def
  by (intro ensures_bind [OF popup_trust [OF assms]] ensures_bind [OF cache_get_trust [OF assms]] ensures_basic)
    (auto simp: session_body_def handed_out_def js_prop_def obj_get_def [of "[_]"])


section \<open>A page over time\<close>

text \<open>The methods of the client that touch the world.\<close>

datatype api_call =
    BuildAuthorizeUrl obj
  | LoginWithRedirect obj
  | HandleRedirectCallback string
  | LoginWithPopup obj popup_config
  | GetTokenSilently obj
  | GetTokenWithPopup obj popup_config
  | CheckSession obj
  | GetUser obj
  | GetIdTokenClaims obj
  | IsAuthenticated
  | Logout obj

fun api_run :: "('c, 'w) env \<Rightarrow> ('x, 'c) client \<Rightarrow> api_call \<Rightarrow> ('x, 'c, 'w) world \<Rightarrow> ('x, 'c, 'w) world" where
  "api_run E cl (BuildAuthorizeUrl options) s = snd (buildAuthorizeUrl E cl options s)"
| "api_run E cl (LoginWithRedirect options) s = snd (loginWithRedirect E cl options s)"
| "api_run E cl (HandleRedirectCallback url) s = snd (handleRedirectCallback E cl url s)"
| "api_run E cl (LoginWithPopup options config) s = snd (loginWithPopup E cl options config s)"
| "api_run E cl (GetTokenSilently options) s = snd (getTokenSilently E cl options s)"
| "api_run E cl (GetTokenWithPopup options config) s = snd (getTokenWithPopup E cl options config s)"
| "api_run E cl (CheckSession options) s = snd (checkSession E cl options s)"
| "api_run E cl (GetUser options) s = snd (getUser E cl options s)"
| "api_run E cl (GetIdTokenClaims options) s = snd (getIdTokenClaims E cl options s)"
| "api_run E cl IsAuthenticated s = snd (isAuthenticated E cl s)"
| "api_run E cl (Logout options) s = snd (logout cl options s)"

text \<open>
  Everything that can happen to a page: a method runs, a silent request begins or makes a step, the
  world changes outside the cache.
\<close>

inductive session :: "('c, 'w) env \<Rightarrow> ('x, 'c) client \<Rightarrow> ('x, 'c, 'w) world \<Rightarrow> ('x, 'c, 'w) page \<Rightarrow> bool"
  for E cl s0 where
  fresh: "session E cl s0 ([], s0)"
| call: "session E cl s0 (cs, s) \<Longrightarrow> session E cl s0 (cs, api_run E cl c s)"
| begins: "session E cl s0 (cs, s) \<Longrightarrow> session E cl s0 (cs @ [(options, Checking)], s)"
| runs: "session E cl s0 (cs, s) \<Longrightarrow> i < length cs \<Longrightarrow> cs ! i = (options, p) \<Longrightarrow> call_step E cl options p s = (p', s') \<Longrightarrow>
    session E cl s0 (cs[i := (options, p')], s')"
| elsewhere: "session E cl s0 (cs, s) \<Longrightarrow> store_of s' = store_of s \<Longrightarrow> session E cl s0 (cs, s')"

text \<open>Every method, from start to end, keeps the cache trustworthy.\<close>

lemma isAuthenticated_trust: "in_memory cl \<Longrightarrow> ensures (trust cl) (isAuthenticated E cl) (\<lambda>_. True)"
  unfolding isAuthenticated_def by (intro ensures_bind [OF getUser_trust] ensures_basic TrueI)

lemmas api_trusts = callback_trust popup_trust silent_trust popup_token_trust checkSession_trust getUser_trust
  getIdTokenClaims_trust isAuthenticated_trust logout_trust

lemma api_trust:
  assumes "in_memory cl" and "trust cl s"
  shows "trust cl (api_run E cl c s)"
  by (cases c) (simp_all add: api_trusts [OF assms(1), THEN ensures_state] assms(2)
      ensures_state [OF keeps_trust [OF authorize_keeps]] ensures_state [OF keeps_trust [OF redirect_keeps]])

text \<open>What a silent request under way has got so far.\<close>

fun phase_ok :: "('x, 'c) client \<Rightarrow> obj \<Rightarrow> phase \<Rightarrow> bool" where
  "phase_ok cl options (Storing r) = token_result cl r"
| "phase_ok cl options (Releasing r) = (\<forall>v. r = Inr v \<longrightarrow> handed_out cl (obj_get options ''detailedResponse'') v)"
| "phase_ok cl options (Done r) = (\<forall>v. r = Inr v \<longrightarrow> handed_out cl (obj_get options ''detailedResponse'') v)"
| "phase_ok cl options _ = True"

lemma phase_ok_error [simp]: "phase_ok cl options (leaving (Inl e))"
  by (simp add: leaving_def)

lemma step_trust:
  assumes "in_memory cl" and "call_step E cl options p s = (p', s')" and "trust cl s" and "phase_ok cl options p"
  shows "trust cl s' \<and> phase_ok cl options p'"
proof (cases p)
  case Checking
  then show ?thesis
    using assms(2-) cache_check_trust [OF assms(1), of E options] by (fastforce simp: ensures_def split: prod.splits sum.splits if_splits)
next
  case (Acquiring n)
  then show ?thesis using assms(2-) by (cases n) (auto simp: on_outside_run split: if_splits)
next
  case Rechecking
  then show ?thesis
    using assms(2-) cache_check_trust [OF assms(1), of E options] by (fastforce simp: ensures_def split: prod.splits sum.splits if_splits)
next
  case Fetching
  then show ?thesis
    using assms(2-) exchange_trust [OF assms(1), of E options] by (fastforce simp: ensures_def split: prod.splits sum.splits if_splits)
next
  case (Storing r)
  then obtain x where x: "store_token E cl options r s = (x, s')" "p' = leaving x" using assms(2) by (auto split: prod.splits)
  have "token_result cl r" using assms(4) Storing by simp
  from store_trust [OF assms(1) this, of E options] x assms(3) show ?thesis
    by (cases x) (auto simp: ensures_def leaving_def dest!: spec [of _ s])
qed (use assms in \<open>auto simp: lock_released_def\<close>)

lemma session_inv:
  assumes "in_memory cl" and "session E cl s0 P" and "trust cl s0"
  shows "trust cl (snd P) \<and> (\<forall>(options, p) \<in> set (fst P). phase_ok cl options p)"
  using assms(2)
proof (induction rule: session.induct)
  case (call cs s c)
  then show ?case by (simp add: api_trust [OF assms(1)])
next
  case (runs cs s i options p p' s')
  then have "(options, p) \<in> set cs" by (metis nth_mem)
  with runs have "trust cl s' \<and> phase_ok cl options p'" using step_trust [OF assms(1)] by fastforce
  with runs show ?case using set_update_subset_insert [of cs i] by fastforce
qed (use assms(3) in auto)

lemma empty_trusted: "mem t = [] \<Longrightarrow> trusted cl t"
  by (simp add: trusted_def holds_only_def wf_store_def mem_view_def)

text \<open>
  C2: on a page that began with an empty cache, whatever methods of the client were called since, in whatever
  order and with whatever answers, with silent requests interleaved, a user that \<open>getUser\<close> reports is
  the user of an ID token that was issued by the client's issuer for this client, and the claims that
  \<open>getIdTokenClaims\<close> reports are the claims of such a token.
\<close>

theorem session_user_verified:
  assumes "in_memory cl" and "mem (store_of s0) = []" and "session E cl s0 (cs, s)"
  shows "(\<forall>options u s'. getUser E cl options s = (Inr u, s') \<and> truthy u \<longrightarrow>
      (\<exists>t d. decode t = Inr d \<and> js_same (claim d ''iss'') (JStr (tokenIssuer cl)) \<and>
        (\<forall>c. opt cl ''client_id'' = JStr c \<longrightarrow> audience_ok c d) \<and> u = JObj (user d))) \<and>
    (\<forall>options v s'. getIdTokenClaims E cl options s = (Inr v, s') \<and> truthy v \<longrightarrow>
      (\<exists>t d. decode t = Inr d \<and> js_same (claim d ''iss'') (JStr (tokenIssuer cl)) \<and>
        (\<forall>c. opt cl ''client_id'' = JStr c \<longrightarrow> audience_ok c d) \<and> v = JObj (claims d)))"
proof (intro conjI allI impI; elim conjE)
  have t: "trust cl s" using session_inv [OF assms(1,3) empty_trusted [OF assms(2)]] by simp
  fix options u s'
  assume u: "truthy u"
  show "\<exists>t d. decode t = Inr d \<and> js_same (claim d ''iss'') (JStr (tokenIssuer cl)) \<and>
        (\<forall>c. opt cl ''client_id'' = JStr c \<longrightarrow> audience_ok c d) \<and> u = JObj (user d)"
    if "getUser E cl options s = (Inr u, s')"
    using ensures_run [OF getUser_trust [OF assms(1)] that t] u unfolding known_part_def by blast
  show "\<exists>t d. decode t = Inr d \<and> js_same (claim d ''iss'') (JStr (tokenIssuer cl)) \<and>
        (\<forall>c. opt cl ''client_id'' = JStr c \<longrightarrow> audience_ok c d) \<and> u = JObj (claims d)"
    if "getIdTokenClaims E cl options s = (Inr u, s')"
    using ensures_run [OF getIdTokenClaims_trust [OF assms(1)] that t] u unfolding known_part_def by blast
qed


end
