(* ===== verification/Call_Examples.thy ===== *)
theory Call_Examples
  imports Client_Examples Client_Types Shared_Calls Sessions
begin

text \<open>
  Further runs on the page, client and network of \<open>Client_Examples\<close>: typed options and tokens, a session
  after a reload, an iframe login, overlapping silent requests. Each property of \<open>Client_Types\<close>,
  \<open>Silent_Calls\<close> and \<open>Shared_Calls\<close> is applied where its hypotheses hold.
\<close>

section \<open>Declared types\<close>

abbreviation reload_options :: obj where
  "reload_options \<equiv> [(''domain'', JStr ''t.cn''), (''client_id'', JStr ''cid''), (''cacheLocation'', JStr ''localstorage'')]"

lemma sample_crypto: "validateCrypto (e_crypto sample_env) = Inr ()"
  by (simp add: validateCrypto_def getCrypto_def getCryptoSubtle_def sample_env_def)

lemma conforms_options: "conforms AuthokClientOptions reload_options" "conforms AuthokClientOptions (cl_options sample_client)"
  by (simp_all add: conforms_Cons ifaces obj_keys_def obj_get_def sample_client_def)

theorem new_client_progress_witness:
  "\<exists>cl tm. new_AuthokClient sample_env (InMemoryCache :: unit icache) reload_options empty_site = Inr (cl, tm) \<and>
     cl_options cl = reload_options"
proof -
  have "\<forall>St \<in> transaction_storages (e_cookies sample_env).
      \<exists>t. cs_get St (TRANSACTION_STORAGE_KEY_PREFIX @ ''.'' @ to_string (obj_get reload_options ''client_id'')) empty_site = Inr t"
    by (simp add: transaction_storages_def sample_env_def no_cookie)
      (simp add: CookieStorage_def cookie_get_def SessionStorage_def session_get_def page_cookies_def empty_site_def)
  from new_client_progress [OF conforms_options(1) sample_crypto this, of "InMemoryCache :: unit icache"] show ?thesis by blast
qed

definition typed_payload :: obj where
  "typed_payload = [(''iss'', JStr ''https://t.cn/''), (''aud'', JStr ''cid''), (''exp'', JNum 1700003600), (''sub'', JStr ''u1'')]"

definition typed_transaction :: obj where
  "typed_transaction = (''redirect_uri'', JUndef) # redirect_transaction"

lemma typed_payload_ok: "json_obj typed_payload"
  by (rule json_objI) (simp_all add: typed_payload_def in_range_def)

lemma typed_token:
  obtains t d where "decode t = Inr d" "conforms IdToken (claims d)" "has_type TString (claim d ''sub'')"
    "claim d ''exp'' = JNum 1700003600" "json_ok (decoded_obj d)"
proof -
  let ?t = "mk_token sample_header typed_payload ''sig''"
  obtain d where d: "decode ?t = Inr d" "claims d = obj_spread [(''__raw'', JStr ?t)] typed_payload"
     "header d = JObj sample_header" "user d = obj_omit idTokendecoded typed_payload" "json_ok (JObj (encoded d))"
    using decode_mk_token [OF sample_header_ok typed_payload_ok, of "''sig''"] by (auto simp: typed_payload_def wf_obj_def obj_keys_def)
  have c: "claims d = (''__raw'', JStr ?t) # typed_payload"
    unfolding d(2) by (simp add: obj_spread_def obj_set_def typed_payload_def)
  show thesis
  proof (rule that [OF d(1)])
    show "conforms IdToken (claims d)"
      unfolding c by (simp add: typed_payload_def IdToken_def req_def may_def conforms_Cons obj_keys_def obj_get_def)
    show "has_type TString (claim d ''sub'')" "claim d ''exp'' = JNum 1700003600"
      unfolding claim_def c by (simp_all add: typed_payload_def obj_get_def)
    show "json_ok (decoded_obj d)"
      using d(5) unfolding decoded_obj_def c d(3,4) by (simp add: typed_payload_def idTokendecoded_def obj_omit_def sample_header_def)
  qed
qed

theorem redirect_entry_typed_witness:
  "\<exists>d w. conforms CacheEntry (redirect_entry sample_client typed_transaction sample_tokens d) \<and>
     wrapCacheEntry (redirect_entry sample_client typed_transaction sample_tokens d) 1700000000000 = Inr w \<and> has_type Cacheable w"
proof -
  obtain t d where d: "decode t = Inr d" "conforms IdToken (claims d)" "has_type TString (claim d ''sub'')"
    using typed_token by blast
  have r: "conforms TokenEndpointResponse sample_tokens" "has_type TString (obj_get sample_tokens ''oauthTokenScope'')"
    by (simp_all add: TokenEndpointResponse_def req_def may_def conforms_Cons sample_tokens_def obj_keys_def obj_get_def)
  have "conforms Transaction typed_transaction"
    by (simp add: Transaction_def req_def may_def conforms_Cons typed_transaction_def redirect_transaction_def obj_keys_def obj_get_def)
  from redirect_entry_typed [OF r this conforms_options(2) d] show ?thesis by blast
qed

theorem verified_claims_untyped_witness:
  "\<exists>d. verify (\<lambda>_. []) 0 (sample_options ''n'' 1700000000) = Inr d \<and> \<not> conforms IdToken (claims d)"
proof -
  have a: "ascii ''n''" by (simp add: in_range_def)
  obtain d where d: "verify (\<lambda>_. []) 0 (sample_options ''n'' 1700000000) = Inr d"
    using sample_verified [of 1700000000 "''n''" "\<lambda>_. []" 0] a by (auto simp: js_trunc_def)
  obtain d' where d': "decode (mk_token sample_header (sample_payload ''n'' 1700000000) ''sig'') = Inr d'"
     "\<And>k. k \<noteq> ''__raw'' \<Longrightarrow> claim d' k = obj_get (sample_payload ''n'' 1700000000) k"
    using sample_decoded [of 1700000000 "''n''"] a is_decimal_int(1) by metis
  have "d = d'" using d d'(1) by (simp add: verify_checks sample_options_def)
  then have "\<exists>vs. claim d ''aud'' = JArr vs" by (simp add: d'(2) sample_payload_def obj_get_def)
  with verified_claims_untyped [OF d] d show ?thesis by blast
qed
theorem silent_detailed_response_witness:
  "\<exists>ob s'. getTokenSilently sample_env sample_client [(''detailedResponse'', JBool True)] logged_in = (Inr (JObj ob), s') \<and>
     ''refresh_token'' \<notin> set (obj_keys ob)"
proof -
  let ?o = "silent_options sample_client [(''detailedResponse'', JBool True)]"
  have d: "obj_get ?o ''detailedResponse'' = JBool True" "obj_get ?o ''ignoreCache'' = JBool False"
    "obj_get ?o ''audience'' = JUndef" "obj_get ?o ''scope'' = JStr ''openid profile''"
    using samples_alike(1) sample_scopes
    by (simp_all add: silent_options_def like_sample_def) (simp_all add: obj_spread_def obj_set_def obj_get_def)
  have c: "cm_cache (cacheManager sample_client) = InMemoryCache" "opt sample_client ''client_id'' = JStr ''cid''"
    "truthy (obj_get sample_entry ''access_token'')"
    using samples_alike(1) by (simp_all add: like_sample_def manager_def sample_entry_def obj_get_def)
  have n: "js_floor (e_now sample_env (outside (http_of logged_in)) / 1000) \<le> 1700003600 - 60"
    by (simp add: sample_env_def js_floor_def)
  obtain t where "cache_check sample_env sample_client ?o logged_in = (Inr (JObj (detailed_entry sample_entry)), logged_in\<lparr>store_of := t\<rparr>)"
    using memory.cache_check_hit [OF c(1) logged_in_view(1) _ n c(3), of ?o] logged_in_view(2)
    by (auto simp: c(2) d js_or_def)
  then have g: "getTokenSilently sample_env sample_client [(''detailedResponse'', JBool True)] logged_in =
      (Inr (JObj (detailed_entry sample_entry)), logged_in\<lparr>store_of := t\<rparr>)"
    by (simp add: getTokenSilently_def getTokenSilently_locked_def bindE_def eff_run)
  from silent_detailed_response [OF g] g show ?thesis by (auto simp: d(1))
qed

section \<open>Overlapping silent requests\<close>

text \<open>The lock of the sample page: held by this page or another while the counter is not zero.\<close>

abbreviation sample_mine :: "nat \<Rightarrow> bool" where
  "sample_mine \<equiv> \<lambda>n. 0 < n"

interpretation sample_lock: tab_lock sample_env sample_mine
  by unfold_locales (auto simp: sample_env_def)

lemma sample_acquire:
  "page_run sample_env sample_client sample_mine ([], logged_in) [Start ignoring, Run 0, Run 0]
     ([(ignoring, Rechecking)], logged_in\<lparr>http_of := (http_of logged_in)\<lparr>outside := 1\<rparr>\<rparr>)"
proof -
  have 1: "page_run sample_env sample_client sample_mine ([], logged_in) ([] @ [Start ignoring]) ([(ignoring, Checking)], logged_in)"
    using page_run.more [OF page_run.none page_step.start [of _ _ _ "[]"]] by simp
  have c: "call_step sample_env sample_client ignoring Checking logged_in = (Acquiring 10, logged_in)"
    by (simp add: sample_ignoring)
  have 2: "page_run sample_env sample_client sample_mine ([], logged_in) [Start ignoring, Run 0] ([(ignoring, Acquiring 10)], logged_in)"
    using page_run.more [OF 1 page_step.run [OF _ _ c, of 0]] by simp
  have "call_step sample_env sample_client ignoring (Acquiring 10) logged_in =
      (Rechecking, logged_in\<lparr>http_of := (http_of logged_in)\<lparr>outside := 1\<rparr>\<rparr>)"
    using call_step.simps(3) [of sample_env sample_client ignoring 9 logged_in]
    by (simp add: on_outside_run) (simp add: sample_env_def logged_in_def sample_world_def)
  from page_run.more [OF 2 page_step.run [OF _ _ this, of 0]] show ?thesis by simp
qed

theorem silent_mutual_exclusion_witness:
  "\<exists>cs s. page_run sample_env sample_client sample_mine ([], logged_in) [Start ignoring, Run 0, Run 0] (cs, s) \<and>
     in_critical cs 0 \<and> held sample_mine s"
proof -
  have "\<not> held sample_mine logged_in" by (simp add: held_def logged_in_def sample_world_def)
  from silent_mutual_exclusion [OF sample_lock.tab_lock_axioms this sample_acquire] sample_acquire show ?thesis
    by (force simp: in_critical_def)
qed


text \<open>The tokens an exchange brings, with the decoded ID token, for the default audience and scope.\<close>

definition fetched :: "string \<Rightarrow> decoded \<Rightarrow> obj" where
  "fetched sc d = sample_tokens @ [(''decodedToken'', decoded_obj d), (''scope'', JStr sc), (''audience'', JStr ''default'')]"

definition fetched_entry :: "string \<Rightarrow> decoded \<Rightarrow> obj" where
  "fetched_entry sc d = (''client_id'', JStr ''cid'') # fetched sc d"

lemma fetched_spread: "obj_spread [(''client_id'', JStr ''cid'')] (fetched sc d) = fetched_entry sc d"
  by (simp add: fetched_entry_def fetched_def sample_tokens_def obj_spread_def obj_set_def)

lemma fetched_get:
  "obj_get (fetched_entry sc d) ''client_id'' = JStr ''cid''" "obj_get (fetched_entry sc d) ''access_token'' = JStr ''at''"
  "obj_get (fetched_entry sc d) ''audience'' = JStr ''default''" "obj_get (fetched_entry sc d) ''scope'' = JStr sc"
  "obj_get (fetched_entry sc d) ''decodedToken'' = decoded_obj d" "obj_get (fetched_entry sc d) ''expires_in'' = JNum 86400"
  by (simp_all add: fetched_entry_def fetched_def sample_tokens_def obj_get_def)

lemma fetched_token_entry: "claim d ''exp'' = JNum x \<Longrightarrow> token_entry (fetched_entry sc d) 86400 x"
  by (simp add: token_entry_def fetched_get decoded_obj_def) (simp add: obj_get_def [of "_ # _"] claim_def)

lemma sample_decoded_exp: obtains d :: decoded where "claim d ''exp'' = JNum 1700003600"
  using sample_id_token by metis

theorem second_call_served_witness:
  "\<exists>r v s1 s2 s4. call_step sample_env sample_client [] (Storing r) sample_world = (Releasing (Inr v), s1) \<and>
     call_step sample_env sample_client [] (Releasing (Inr v)) s1 = (Done (Inr v), s2) \<and>
     call_step sample_env sample_client [(''scope'', JStr ''openid profile'')] Rechecking s2 = (Releasing (Inr (JStr ''at'')), s4)"
proof -
  obtain d :: decoded where d: "claim d ''exp'' = JNum 1700003600" by (rule sample_decoded_exp)
  have c: "cacheManager sample_client = manager InMemoryCache" "wf_store (store_of sample_world)" "opt sample_client ''client_id'' = JStr ''cid''"
    using samples_alike(1) empty_wf by (simp_all add: like_sample_def sample_world_def)
  let ?o = "[(''scope'', JStr ''openid profile'')]"
  have o: "obj_get ?o ''audience'' = JUndef" "obj_get ?o ''scope'' = JStr ''openid profile''" "obj_get ?o ''ignoreCache'' = JUndef"
    "obj_get ?o ''detailedResponse'' = JUndef"
    by (simp_all add: obj_get_def)
  from second_call_served [OF c(1,2) _ fetched_token_entry [OF d, of "''openid profile''"], of "fetched ''openid profile'' d" ?o sample_env "[]"] sample_now show ?thesis
    by (fastforce simp: c(3) fetched_spread fetched_get o js_or_def)
qed

theorem logout_overtaken_witness:
  "\<exists>s1 p s2 s3 r. logout sample_client [(''localOnly'', JBool True)] sample_world = (Inr (), s1) \<and>
     page_step sample_env sample_client sample_mine ([([], Storing r)], s1) (Run 0) ([([], p)], s2) \<and>
     isAuthenticated sample_env sample_client s2 = (Inr True, s3)"
proof -
  obtain d :: decoded where d: "claim d ''exp'' = JNum 1700003600" by (rule sample_decoded_exp)
  have c: "cacheManager sample_client = manager InMemoryCache" "\<not> truthy (opt sample_client ''cache'')"
    "no_stray (store_of sample_world)" "opt sample_client ''client_id'' = JStr ''cid''" "opt sample_client ''audience'' = JUndef"
    using samples_alike(1) sample_no_stray by (simp_all add: like_sample_def sample_world_def)
  have k: "fromCacheEntry (fetched_entry ''openid profile'' d) = CacheKey (opt sample_client ''client_id'')
      (js_or (opt sample_client ''audience'') (JStr ''default'')) (scopes_of sample_client JUndef)"
    by (simp add: fromCacheEntry_def fetched_get c(4,5) js_or_def sample_scopes)
  have e: "fetched_entry ''openid profile'' d = obj_spread [(''client_id'', opt sample_client ''client_id'')] (fetched ''openid profile'' d)"
    by (simp add: c(4) fetched_spread)
  have a: "truthy (obj_get (fetched_entry ''openid profile'' d) ''access_token'')" by (simp add: fetched_get)
  from logout_overtaken [OF c(1-3) e fetched_token_entry [OF d] k a fetched_get(5) sample_now, of 0 "[([], Storing (fetched ''openid profile'' d))]" "[]" sample_mine]
  show ?thesis by force
qed

section \<open>A reload\<close>

lemma reload_client:
  "\<exists>cl tm. new_AuthokClient sample_env (InMemoryCache :: unit icache) reload_options (site_of logged_in) = Inr (cl, tm) \<and>
     opt cl ''client_id'' = JStr ''cid'' \<and> opt cl ''audience'' = JUndef \<and> scopes_of cl JUndef = JStr ''openid profile email'' \<and>
     cookieStorage cl = CookieStorageWithLegacySameSite page_cookies \<and> isAuthenticatedCookieName cl = ''authok.cid.is.authenticated''"
proof -
  have ch: "choose_cache (InMemoryCache :: unit icache) reload_options = Inr (JStr ''localstorage'', LocalStorageCache)"
    by (simp add: choose_cache_def cacheFactory_def obj_get_def js_or_def)
  have tm: "\<exists>tm. new_TransactionManager SessionStorage (to_string (JStr ''cid'')) (site_of logged_in) = Inr tm"
    by (simp add: new_TransactionManager_def SessionStorage_def session_get_def logged_in_def CookieStorageWithLegacySameSite_def
        legacy_save_def cookie_save_def empty_site_def page_cookies_def Let_def)
  have sc: "getUniqueScopes [JStr (getUniqueScopes [JStr ''openid'', JStr ''openid profile email'']), JUndef, JUndef] = ''openid profile email''"
    by code_simp
  show ?thesis
    using ch tm sample_crypto sc
    by (auto simp: new_AuthokClient_def Let_def obj_get_def getTokenIssuer_def opt_def scopes_of_def default_scope_def DEFAULT_SCOPE_def
        buildIsAuthenticatedCookieName_def sample_env_def)
qed
theorem session_survives_reload_witness:
  "\<exists>cl s s' s''. createAuthokClient sample_env (InMemoryCache :: unit icache) reload_options s = (Inr cl, s') \<and> http_of s' = http_of s \<and>
     isAuthenticated sample_env cl s' = (Inr True, s'')"
proof -
  obtain cl tm where c: "new_AuthokClient sample_env (InMemoryCache :: unit icache) reload_options (site_of logged_in) = Inr (cl, tm)"
     "opt cl ''client_id'' = JStr ''cid''" "opt cl ''audience'' = JUndef" "scopes_of cl JUndef = JStr ''openid profile email''"
     "cookieStorage cl = CookieStorageWithLegacySameSite page_cookies" "isAuthenticatedCookieName cl = ''authok.cid.is.authenticated''"
    using reload_client by blast
  obtain t0 d where d: "decode t0 = Inr d" "claim d ''exp'' = JNum 1700003600" "json_ok (decoded_obj d)"
    using typed_token by metis
  let ?e = "fetched_entry ''openid profile email'' d" and ?x = "expiry 1700000000000 86400 1700003600"
  have "is_decimal ?x" by (simp add: expiry_def js_floor_def)
  moreover have "json_ok (JObj ?e)" using d(3) by (simp add: fetched_entry_def fetched_def sample_tokens_def)
  ultimately have "json_ok (wrapped ?e ?x)" by (simp add: wrapped_def)
  then obtain t :: "unit store" where t: "wf_store t" "local_view t (toKey (fromCacheEntry ?e)) = Some (wrapped ?e ?x)"
    using local.cm_set_view [OF empty_wf [of "()"] _ _ wrap_token_entry [OF fetched_token_entry [OF d(2)]], of "manager LocalStorageCache"]
    by (fastforce simp: manager_def)
  let ?s = "logged_in\<lparr>store_of := t\<rparr>"
  have k: "toKey (fromCacheEntry ?e) = toKey (CacheKey (opt cl ''client_id'') (js_or (opt cl ''audience'') (JStr ''default'')) (scopes_of cl JUndef))"
    by (simp add: fromCacheEntry_def fetched_get c(2-4) js_or_def)
  have "cs_get (cookieStorage cl) (isAuthenticatedCookieName cl) (site_of ?s) = Inr (JBool True)"
    using page.legacy.save_get [of "JBool True" "''true''"] by (simp add: c(5,6) logged_in_def JSON_true)
  moreover have "js_floor (e_now sample_env (outside (http_of ?s)) / 1000) \<le> ?x - 60"
    by (simp add: sample_env_def expiry_def js_floor_def)
  ultimately have "\<exists>s'. createAuthokClient sample_env InMemoryCache reload_options ?s = (Inr cl, s') \<and> http_of s' = http_of ?s \<and>
      site_of s' = site_of ?s \<and> (\<exists>s''. isAuthenticated sample_env cl s' = (Inr True, s'')) \<and>
      (\<exists>s''. getTokenSilently sample_env cl [] s' = (Inr (obj_get ?e ''access_token''), s'') \<and> http_of s'' = http_of ?s)"
    using t c(1) by (intro session_survives_reload [where tm = tm and v = "JBool True" and t = ?x and d = d])
      (simp_all add: k fetched_get, simp_all add: obj_get_def)
  then show ?thesis by blast
qed

section \<open>A login by iframe\<close>

text \<open>A page whose iframe gets the answer of the authorization server.\<close>

definition iframe_env :: "((string \<times> string) list, nat) env" where
  "iframe_env = sample_env\<lparr>e_iframe := (\<lambda>url t n. ([(''https://t.cn'', popup_answer, True)], n))\<rparr>"

lemma iframe_env_same:
  "make_secrets iframe_env = make_secrets sample_env" "token_request iframe_env cl ob = token_request sample_env cl ob"
  "verifyIdToken iframe_env cl idt n g = verifyIdToken sample_env cl idt n g"
  by (simp_all add: iframe_env_def make_secrets_def random_string_def sha256_of_def token_request_def verifyIdToken_def)

lemma iframe_answer: "runIframe ''https://t.cn'' [(''https://t.cn'', popup_answer, True)] = Inr (JObj honest_answer)"
  by (simp add: runIframe_def Let_def iframe_start_def is_authorization_response_def popup_answer_def response_result_def obj_get_def
      if_settle_def removeIframe_def)

lemma sample_iframe_exchange:
  "\<exists>r s'. iframe_exchange iframe_env sample_client [] sample_sec params url s = (Inr r, s')"
proof -
  let ?cl = sample_client
  obtain d where d: "\<And>s. verifyIdToken sample_env ?cl (JStr sample_token) (JStr sample_nonce) JUndef s = (Inr d, s)"
    using sample_id_token samples_alike(1) by metis
  have ev: "on_outside (e_iframe iframe_env url t) s = (Inr [(''https://t.cn'', popup_answer, True)], s)" for url t s
    by (simp add: on_outside_run iframe_env_def)
  have a: "js_prop (JObj honest_answer) ''state'' = Inr (JStr (stateIn sample_sec))" "js_prop (JObj honest_answer) ''code'' = Inr (JStr ''c'')"
      "nonceIn sample_sec = sample_nonce" "domainUrl ?cl = ''https://t.cn''" "\<not> e_crossOriginIsolated iframe_env"
    by (simp_all add: obj_get_def sample_sec_def sample_client_def iframe_env_def sample_env_def)
  have tk: "obj_get sample_tokens ''id_token'' = JStr sample_token" by (simp add: sample_tokens_def obj_get_def)
  let ?ob = "obj_spread
        (obj_spread (customOptions ?cl)
          (obj_omit [''scope'', ''audience'', ''redirect_uri'', ''ignoreCache'', ''timeoutInSeconds'', ''detailedResponse''] []))
        [(''scope'', obj_get [] ''scope''), (''audience'', obj_get [] ''audience''),
         (''baseUrl'', JStr (domainUrl ?cl)), (''client_id'', opt ?cl ''client_id''),
         (''code_verifier'', JStr (code_verifier sample_sec)), (''code'', JStr ''c''),
         (''grant_type'', JStr ''authorization_code''), (''redirect_uri'', obj_get params ''redirect_uri''),
         (''authokClient'', opt ?cl ''authokClient''), (''useFormData'', opt ?cl ''useFormData'')]"
  have "obj_get ?ob ''authokClient'' = JUndef"
    using samples_alike(1) by (subst obj_get_spread) (simp_all add: like_sample_def wf_obj_def obj_keys_def, simp add: obj_get_def)
  then obtain h where h: "token_request sample_env ?cl ?ob s = (Inr sample_tokens, s\<lparr>http_of := h\<rparr>)"
    using sample_request [OF samples_alike(1)] by blast
  show ?thesis
    unfolding iframe_exchange_def iframe_env_same using a(5)
    by (simp only: bindE_def ev iframe_answer a eff_run prod.case sum.case if_False simp_thms js_same.simps h [unfolded a(4)] d tk)
      (simp add: processOrgIdHint_def act_run)
qed

section \<open>Merged requests\<close>

text \<open>A page with one request under way.\<close>

definition one_request :: "(unit, (string \<times> string) list, nat) shared" where
  "one_request = snd (request_token sample_client [] (shared_init sample_world))"

lemma one_request_reach: "shared_reach sample_env sample_client sample_mine (shared_init sample_world) one_request"
proof -
  obtain p S where r: "request_token sample_client [] (shared_init sample_world) = (p, S)" by fastforce
  then show ?thesis
    using shared_reach.further [OF shared_reach.here shared_step.request [OF r]] by (simp add: one_request_def)
qed

lemma one_request_calls: "sh_calls one_request = [(silent_options sample_client [], Checking)]"
  by (simp add: one_request_def request_token_def singlePromise_def shared_init_def single_init_def)

theorem requests_merged_witness:
  "\<exists>p S'. request_token sample_client [(''ignoreCache'', JBool True)] one_request = (p, S') \<and> p = 0 \<and> S' = one_request"
proof -
  obtain p S' where r: "request_token sample_client [(''ignoreCache'', JBool True)] one_request = (p, S')" by fastforce
  have "silent_key sample_client [(''ignoreCache'', JBool True)] = silent_key sample_client []"
    using silent_key_ignores(1) [of "[]" sample_client "JBool True"] by (simp add: wf_obj_def obj_set_def)
  then have "call_key sample_client (fst (sh_calls one_request ! 0)) = silent_key sample_client [(''ignoreCache'', JBool True)]"
    by (simp add: one_request_calls silent_key_call)
  moreover have "0 < length (sh_calls one_request)" "outcome (snd (sh_calls one_request ! 0)) = None"
    by (simp_all add: one_request_calls)
  ultimately show ?thesis using requests_merged [OF one_request_reach] r by blast
qed


section \<open>A page over time\<close>

lemma sample_in_memory: "in_memory sample_client" "mem (store_of sample_world) = []"
  using samples_alike(1) by (simp_all add: in_memory_def like_sample_def sample_world_def empty_store_def)

text \<open>A page on which the user logged in by redirect.\<close>

lemma sample_session:
  obtains s entry d t where "session sample_env sample_client sample_world ([], s)" "wf_store (store_of s)"
    "mem_view (store_of s) (toKey (CacheKey (opt sample_client ''client_id'') (js_or (opt sample_client ''audience'') (JStr ''default''))
       (scopes_of sample_client JUndef))) = Some (wrapped entry t)"
    "\<And>w. js_floor (e_now sample_env w / 1000) \<le> t - 60" "obj_get entry ''access_token'' = JStr ''at''"
    "obj_get entry ''decodedToken'' = decoded_obj d"
proof (rule honest_login)
  fix url s1 tr s2 d
  assume l: "buildAuthorizeUrl sample_env sample_client [] sample_world = (Inr url, s1)"
    "tm_get (transactions s1) = JObj tr" "obj_get honest_answer ''state'' = obj_get tr ''state''"
    "token_request sample_env sample_client (redirect_request sample_client tr honest_answer) (snd (transaction_remove s1)) = (Inr sample_tokens, s2)"
    "verifyIdToken sample_env sample_client (obj_get sample_tokens ''id_token'') (obj_get tr ''nonce'') (obj_get tr ''organizationId'') s2 = (Inr d, s2)"
    "claim d ''exp'' = JNum 1700003600"
  let ?entry = "redirect_entry sample_client tr sample_tokens d"
  obtain t c where cb: "handleRedirectCallback sample_env sample_client honest_url s1 =
      (Inr [(''appState'', JUndef)], s2\<lparr>store_of := t, site_of := c\<rparr>)" "wf_store t"
    "mem_view t (toKey (CacheKey (opt sample_client ''client_id'') (js_or (opt sample_client ''audience'') (JStr ''default''))
       (scopes_of sample_client JUndef))) = Some (wrapped ?entry (expiry (e_now sample_env (outside (http_of s2))) 86400 1700003600))"
    using redirect_login_stores [OF sample_page(1-3) l(1,2) honest_query sample_page(4) l(3-5) sample_tokens_get(2) l(6)] by blast
  have "session sample_env sample_client sample_world ([], s1)"
    using session.call [OF session.fresh, of sample_env sample_client sample_world "BuildAuthorizeUrl []"] l(1) by simp
  from session.call [OF this, of "HandleRedirectCallback honest_url"] cb(1)
  have "session sample_env sample_client sample_world ([], s2\<lparr>store_of := t, site_of := c\<rparr>)" by simp
  moreover have "obj_get ?entry ''access_token'' = JStr ''at''"
    by (simp add: redirect_entry_get) (simp add: sample_tokens_def obj_get_def)
  ultimately show thesis
    using that [of "s2\<lparr>store_of := t, site_of := c\<rparr>" ?entry _ d, OF _ _ _ sample_now _ redirect_entry_get(1)] cb(2,3) by simp
qed

theorem session_user_verified_witness:
  "\<exists>s options u s' t d. session sample_env sample_client sample_world ([], s) \<and>
     getUser sample_env sample_client options s = (Inr u, s') \<and> decode t = Inr d \<and> u = JObj (user d) \<and>
     js_same (claim d ''iss'') (JStr ''https://t.cn/'') \<and> audience_ok ''cid'' d"
proof (rule sample_session)
  fix s entry d t
  assume s: "session sample_env sample_client sample_world ([], s)" "wf_store (store_of s)"
    "mem_view (store_of s) (toKey (CacheKey (opt sample_client ''client_id'') (js_or (opt sample_client ''audience'') (JStr ''default''))
       (scopes_of sample_client JUndef))) = Some (wrapped entry t)"
    "\<And>w. js_floor (e_now sample_env w / 1000) \<le> t - 60" "obj_get entry ''access_token'' = JStr ''at''"
    "obj_get entry ''decodedToken'' = decoded_obj d"
  have c: "cm_cache (cacheManager sample_client) = InMemoryCache" "tokenIssuer sample_client = ''https://t.cn/''"
    "opt sample_client ''client_id'' = JStr ''cid''"
    using samples_alike(1) by (simp_all add: like_sample_def manager_def)
  obtain s' where "isAuthenticated sample_env sample_client s = (Inr True, s')"
    using memory.cached_session [OF c(1) s(2,3,4) _ s(6)] s(5) by auto
  then obtain u s' where u: "getUser sample_env sample_client [] s = (Inr u, s')" "truthy u"
    by (auto simp: isAuthenticated_def bindE_Inr_iff eff_run)
  with session_user_verified [OF sample_in_memory s(1)] obtain t d where "decode t = Inr d" "u = JObj (user d)"
      "js_same (claim d ''iss'') (JStr (tokenIssuer sample_client))"
      "\<forall>c. opt sample_client ''client_id'' = JStr c \<longrightarrow> audience_ok c d"
    by blast
  with s(1) u(1) c(2,3) show ?thesis by (metis (full_types))
qed


end
